theory Spec2Isabelle
  imports Complex_Main "HOL-Library.Sublist" "HOL-Library.Char_ord" "HOL-Library.List_Lexorder"
    "HOL-Library.Product_Lexorder" "HOL-Library.Word"
begin

section \<open>Floating point\<close>

text \<open>
  A Go \<^verbatim>\<open>float64\<close>: a finite value, one of the two infinities, or NaN. Finite values are
  modelled by the reals: rounding, overflow to an infinity and the sign of zero are left out.
  The arithmetic and the comparisons on the other values are those of IEEE 754: NaN
  propagates through every operation and every comparison with NaN is false.
\<close>

datatype float64 = Fin real | PosInf | NegInf | NaN

fun fneg :: "float64 \<Rightarrow> float64" where
  "fneg (Fin x) = Fin (- x)"
| "fneg PosInf = NegInf"
| "fneg NegInf = PosInf"
| "fneg NaN = NaN"

fun fadd :: "float64 \<Rightarrow> float64 \<Rightarrow> float64" where
  "fadd (Fin x) (Fin y) = Fin (x + y)"
| "fadd NaN b = NaN"
| "fadd a NaN = NaN"
| "fadd PosInf NegInf = NaN"
| "fadd NegInf PosInf = NaN"
| "fadd PosInf b = PosInf"
| "fadd NegInf b = NegInf"
| "fadd (Fin x) b = b"

fun fmul :: "float64 \<Rightarrow> float64 \<Rightarrow> float64" where
  "fmul (Fin x) (Fin y) = Fin (x * y)"
| "fmul NaN b = NaN"
| "fmul a NaN = NaN"
| "fmul (Fin x) b = (if x = 0 then NaN else if 0 < x then b else fneg b)"
| "fmul a (Fin y) = (if y = 0 then NaN else if 0 < y then a else fneg a)"
| "fmul PosInf b = b"
| "fmul NegInf b = fneg b"

text \<open>Division; a zero divisor is taken as positive zero.\<close>

fun fdiv :: "float64 \<Rightarrow> float64 \<Rightarrow> float64" where
  "fdiv (Fin x) (Fin y) =
     (if y = 0 then (if x = 0 then NaN else if 0 < x then PosInf else NegInf) else Fin (x / y))"
| "fdiv NaN b = NaN"
| "fdiv a NaN = NaN"
| "fdiv (Fin x) b = Fin 0"
| "fdiv a (Fin y) = (if 0 \<le> y then a else fneg a)"
| "fdiv a b = NaN"

fun fle :: "float64 \<Rightarrow> float64 \<Rightarrow> bool" where
  "fle (Fin x) (Fin y) = (x \<le> y)"
| "fle NaN b = False"
| "fle a NaN = False"
| "fle NegInf b = True"
| "fle a PosInf = True"
| "fle a b = False"

fun fless :: "float64 \<Rightarrow> float64 \<Rightarrow> bool" where
  "fless (Fin x) (Fin y) = (x < y)"
| "fless NaN b = False"
| "fless a NaN = False"
| "fless PosInf b = False"
| "fless a NegInf = False"
| "fless a b = True"

text \<open>The operators of the Go source, so that the handlers read as they are written.\<close>

instantiation float64 :: "{zero, one, plus, minus, uminus, times, inverse, ord}"
begin

definition zero_float64 :: float64 where "zero_float64 = Fin 0"
definition one_float64 :: float64 where "one_float64 = Fin 1"
definition uminus_float64 :: "float64 \<Rightarrow> float64" where "uminus_float64 = fneg"
definition plus_float64 :: "float64 \<Rightarrow> float64 \<Rightarrow> float64" where "plus_float64 = fadd"
definition minus_float64 :: "float64 \<Rightarrow> float64 \<Rightarrow> float64" where
  "minus_float64 a b = fadd a (fneg b)"
definition times_float64 :: "float64 \<Rightarrow> float64 \<Rightarrow> float64" where "times_float64 = fmul"
definition divide_float64 :: "float64 \<Rightarrow> float64 \<Rightarrow> float64" where "divide_float64 = fdiv"
definition inverse_float64 :: "float64 \<Rightarrow> float64" where "inverse_float64 a = fdiv (Fin 1) a"
definition less_eq_float64 :: "float64 \<Rightarrow> float64 \<Rightarrow> bool" where "less_eq_float64 = fle"
definition less_float64 :: "float64 \<Rightarrow> float64 \<Rightarrow> bool" where "less_float64 = fless"

instance ..

end

text \<open>
  SQLite binds a NaN as NULL (\<^verbatim>\<open>sqlite3_bind_double\<close>): the value a REAL column receives
  from a bound \<^verbatim>\<open>float64\<close>. The infinities are stored as they are.
\<close>

definition sql_real :: "float64 \<Rightarrow> float64 option" where
  "sql_real v = (if v = NaN then None else Some v)"

section \<open>Data model\<close>

text \<open>
  The entities of \<^verbatim>\<open>models/order.go\<close>, \<^verbatim>\<open>models/drone.go\<close> and \<^verbatim>\<open>models/user.go\<close>.
  The Go status types are strings; the CHECK constraints of the migrations restrict the stored
  values to the enumerated constants, so they are datatypes here. \<^verbatim>\<open>float64\<close> is the type
  \<open>float64\<close> above, \<^verbatim>\<open>int64\<close> identifiers by \<open>int\<close> (no arithmetic is done on them), a nullable
  column or pointer field by \<open>option\<close>. An \<open>Order\<close> value is a row of table \<^verbatim>\<open>orders\<close>:
  \<open>DronePath = None\<close> is SQL NULL (scanned into the empty Go string).
\<close>

datatype OrderStatus =
  OrderStatusPlaced | OrderStatusDelivered | OrderStatusEnRoute
  | OrderStatusFailed | OrderStatusToPickUp | OrderStatusWithdrawn

datatype DroneStatus = DroneStatusFixed | DroneStatusBroken

record Order =
  oID :: int
  OriginLat :: float64
  OriginLng :: float64
  DestLat :: float64
  DestLng :: float64
  SubmittedBy :: int
  oStatus :: OrderStatus
  PlacementAt :: string
  PickupLat :: "float64 option"
  PickupLng :: "float64 option"
  DronePath :: "string option"

record Drone =
  dID :: int
  dName :: string
  SerialNumber :: string
  Lat :: float64
  Lng :: float64
  SpeedMPH :: float64
  AssignedJob :: "int option"
  dStatus :: DroneStatus

record User =
  uID :: int
  Username :: string
  Role :: string

text \<open>
  The relational store: the three tables in storage order, and the AUTOINCREMENT counter of
  table \<^verbatim>\<open>orders\<close>.
\<close>

record store =
  users :: "User list"
  orders :: "Order list"
  drones :: "Drone list"
  order_seq :: int

datatype dberr = IOError | UniqueViolation | ForeignKeyViolation | NotNullViolation | ErrNoRows

section \<open>Strings: decimal rendering, splitting, substring search\<close>

definition digit_char :: "nat \<Rightarrow> char" where
  "digit_char d = ''0123456789'' ! d"

function dec_nat :: "nat \<Rightarrow> string" where
  "dec_nat n = (if n < 10 then [digit_char n] else dec_nat (n div 10) @ [digit_char (n mod 10)])"
  by pat_completeness auto
termination
  by (relation "measure (\<lambda>n. n)") auto

declare dec_nat.simps [simp del]

text \<open>
  Base-10 rendering of a signed integer: \<^verbatim>\<open>strconv.FormatInt(i, 10)\<close>, \<^verbatim>\<open>fmt.Sprintf("%d", i)\<close>
  and SQLite's conversion of a bound integer to text.
\<close>

definition FormatInt :: "int \<Rightarrow> string" where
  "FormatInt i = (if i < 0 then CHR ''-'' # dec_nat (nat (- i)) else dec_nat (nat i))"

text \<open>SQLite \<^verbatim>\<open>instr(X, Y)\<close>: one plus the offset of the first occurrence of Y in X, or 0.\<close>

fun instr_from :: "nat \<Rightarrow> string \<Rightarrow> string \<Rightarrow> nat" where
  "instr_from i [] n = (if n = [] then i else 0)"
| "instr_from i (h # hs) n = (if prefix n (h # hs) then i else instr_from (Suc i) hs n)"

definition instr :: "string \<Rightarrow> string \<Rightarrow> nat" where
  "instr h n = instr_from 1 h n"

text \<open>The fields of a string between occurrences of a separator (\<^verbatim>\<open>strings.Split\<close>).\<close>

fun split_on :: "char \<Rightarrow> string \<Rightarrow> string list" where
  "split_on c [] = [[]]"
| "split_on c (x # xs) =
     (if x = c then [] # split_on c xs
      else (x # hd (split_on c xs)) # tl (split_on c xs))"

section \<open>Order repository: the reservation query\<close>

text \<open>
  \<^verbatim>\<open>FindNextAvailableForReservation\<close> (repository/order_query.go) runs

  \<^verbatim>\<open>SELECT o.* FROM orders o LEFT JOIN drones d ON d.assigned_job = o.id
  WHERE d.id IS NULL AND o.status IN ('to pick up','placed')
    AND (o.drone_path IS NULL OR instr(',' || o.drone_path || ',', ',' || ? || ',') = 0)
  ORDER BY CASE WHEN o.status = 'to pick up' THEN 0 ELSE 1 END, o.placement_date ASC, o.id ASC
  LIMIT 1\<close>

  The model follows the statement clause by clause. \<^verbatim>\<open>placement_date\<close> holds the text
  written by CURRENT_TIMESTAMP and is compared bytewise, which is the lexicographic order of
  strings.
\<close>

definition left_join_drones :: "Order list \<Rightarrow> Drone list \<Rightarrow> (Order \<times> Drone option) list" where
  "left_join_drones os ds =
     concat (map (\<lambda>ord. case filter (\<lambda>d. AssignedJob d = Some (oID ord)) ds of
                         [] \<Rightarrow> [(ord, None)]
                       | m # ms \<Rightarrow> map (\<lambda>d. (ord, Some d)) (m # ms)) os)"

definition path_clause :: "int \<Rightarrow> string option \<Rightarrow> bool" where
  "path_clause droneID dp =
     (case dp of
        None \<Rightarrow> True
      | Some p \<Rightarrow> instr ('','' @ p @ '','') ('','' @ FormatInt droneID @ '','') = 0)"

definition where_clause :: "int \<Rightarrow> Order \<times> Drone option \<Rightarrow> bool" where
  "where_clause droneID row =
     (snd row = None
      \<and> (oStatus (fst row) = OrderStatusToPickUp \<or> oStatus (fst row) = OrderStatusPlaced)
      \<and> path_clause droneID (DronePath (fst row)))"

definition order_by_key :: "Order \<Rightarrow> nat \<times> string \<times> int" where
  "order_by_key ord =
     (if oStatus ord = OrderStatusToPickUp then 0 else 1, PlacementAt ord, oID ord)"

definition FindNextAvailableForReservation :: "store \<Rightarrow> int \<Rightarrow> Order option" where
  "FindNextAvailableForReservation s droneID =
     (case sort_key (\<lambda>row. order_by_key (fst row))
             (filter (where_clause droneID) (left_join_drones (orders s) (drones s))) of
        [] \<Rightarrow> None
      | row # _ \<Rightarrow> Some (fst row))"

subsection \<open>The selection policy as the specification words it\<close>

text \<open>
  The three filter predicates and the ordering of the specification, stated on their own so
  that the query can be compared with them.
\<close>

definition currently_assigned :: "store \<Rightarrow> Order \<Rightarrow> bool" where
  "currently_assigned s ord = list_ex (\<lambda>d. AssignedJob d = Some (oID ord)) (drones s)"

definition in_dronePath :: "int \<Rightarrow> Order \<Rightarrow> bool" where
  "in_dronePath droneID ord =
     (FormatInt droneID \<in> set (split_on CHR '','' (case DronePath ord of None \<Rightarrow> [] | Some p \<Rightarrow> p)))"

definition satisfies_filters :: "store \<Rightarrow> int \<Rightarrow> Order \<Rightarrow> bool" where
  "satisfies_filters s droneID ord =
     (\<not> currently_assigned s ord
      \<and> (oStatus ord = OrderStatusToPickUp \<or> oStatus ord = OrderStatusPlaced)
      \<and> \<not> in_dronePath droneID ord)"

definition comes_before :: "Order \<Rightarrow> Order \<Rightarrow> bool" where
  "comes_before a b =
     ((oStatus a = OrderStatusToPickUp \<and> oStatus b = OrderStatusPlaced)
      \<or> (oStatus a = oStatus b
          \<and> (PlacementAt a < PlacementAt b
              \<or> (PlacementAt a = PlacementAt b \<and> oID a < oID b))))"

definition primary_key_orders :: "store \<Rightarrow> bool" where
  "primary_key_orders s = distinct (map oID (orders s))"

section \<open>Geo primitive (internal/geo)\<close>

definition RadiusFeet :: float64 where "RadiusFeet = Fin 100"
definition FeetPerMile :: float64 where "FeetPerMile = Fin 5280"
definition EarthRadiusMiles :: float64 where "EarthRadiusMiles = Fin 3958.7613"

definition FeetToMiles :: "float64 \<Rightarrow> float64" where
  "FeetToMiles f = f / FeetPerMile"

text \<open>
  \<^verbatim>\<open>math.Sin\<close>, \<^verbatim>\<open>math.Cos\<close>, \<^verbatim>\<open>math.Sqrt\<close> and \<^verbatim>\<open>math.Atan2\<close> of Go's standard library
  with their documented special cases.
\<close>

fun Sin :: "float64 \<Rightarrow> float64" where
  "Sin (Fin x) = Fin (sin x)"
| "Sin a = NaN"

fun Cos :: "float64 \<Rightarrow> float64" where
  "Cos (Fin x) = Fin (cos x)"
| "Cos a = NaN"

fun Sqrt :: "float64 \<Rightarrow> float64" where
  "Sqrt (Fin x) = (if x < 0 then NaN else Fin (sqrt x))"
| "Sqrt PosInf = PosInf"
| "Sqrt a = NaN"

definition atan2 :: "real \<Rightarrow> real \<Rightarrow> real" where
  "atan2 y x =
     (if 0 < x then arctan (y / x)
      else if x < 0 \<and> 0 \<le> y then arctan (y / x) + pi
      else if x < 0 then arctan (y / x) - pi
      else if 0 < y then pi / 2
      else if y < 0 then - (pi / 2)
      else 0)"

fun Atan2 :: "float64 \<Rightarrow> float64 \<Rightarrow> float64" where
  "Atan2 (Fin y) (Fin x) = Fin (atan2 y x)"
| "Atan2 NaN x = NaN"
| "Atan2 y NaN = NaN"
| "Atan2 PosInf PosInf = Fin (pi / 4)"
| "Atan2 NegInf PosInf = Fin (- (pi / 4))"
| "Atan2 PosInf NegInf = Fin (3 * pi / 4)"
| "Atan2 NegInf NegInf = Fin (- (3 * pi / 4))"
| "Atan2 (Fin y) PosInf = Fin 0"
| "Atan2 (Fin y) NegInf = Fin (if 0 \<le> y then pi else - pi)"
| "Atan2 PosInf (Fin x) = Fin (pi / 2)"
| "Atan2 NegInf (Fin x) = Fin (- (pi / 2))"

definition HaversineMiles :: "float64 \<Rightarrow> float64 \<Rightarrow> float64 \<Rightarrow> float64 \<Rightarrow> float64" where
  "HaversineMiles lat1 lng1 lat2 lng2 =
     (let degToRad = Fin (pi / 180);
          dLat = (lat2 - lat1) * degToRad;
          dLng = (lng2 - lng1) * degToRad;
          a = Sin (dLat / Fin 2) * Sin (dLat / Fin 2)
              + Cos (lat1 * degToRad) * Cos (lat2 * degToRad) * Sin (dLng / Fin 2)
                * Sin (dLng / Fin 2);
          c = Fin 2 * Atan2 (Sqrt a) (Sqrt (Fin 1 - a))
      in EarthRadiusMiles * c)"

definition IsWithinRadius ::
  "float64 \<Rightarrow> float64 \<Rightarrow> float64 \<Rightarrow> float64 \<Rightarrow> float64 \<Rightarrow> bool" where
  "IsWithinRadius lat1 lng1 lat2 lng2 radiusFeet =
     (HaversineMiles lat1 lng1 lat2 lng2 * FeetPerMile \<le> radiusFeet)"

section \<open>Repositories\<close>

text \<open>
  Each repository method is one SQL statement. A read returns the first matching row; a write
  returns the new store, or the constraint it violates. Failures of the connection itself
  (deadline, cancellation, busy database) are not decided by the store contents: the handlers
  below take them from a fault assignment, see \<open>db_query\<close> and \<open>db_exec\<close>.
\<close>

definition Users_GetByUsername :: "store \<Rightarrow> string \<Rightarrow> User option" where
  "Users_GetByUsername s username = find (\<lambda>u. Username u = username) (users s)"

definition Orders_GetByID :: "store \<Rightarrow> int \<Rightarrow> Order option" where
  "Orders_GetByID s i = find (\<lambda>x. oID x = i) (orders s)"

definition Drones_GetByID :: "store \<Rightarrow> int \<Rightarrow> Drone option" where
  "Drones_GetByID s i = find (\<lambda>d. dID d = i) (drones s)"

definition Drones_GetBySerial :: "store \<Rightarrow> string \<Rightarrow> Drone option" where
  "Drones_GetBySerial s serial = find (\<lambda>d. SerialNumber d = serial) (drones s)"

definition Drones_GetByName :: "store \<Rightarrow> string \<Rightarrow> Drone option" where
  "Drones_GetByName s name = find (\<lambda>d. dName d = name) (drones s)"

text \<open>
  \<^verbatim>\<open>INSERT INTO orders (origin_lat, origin_lng, dest_lat, dest_lng, status, submitted_by)\<close>:
  the id comes from AUTOINCREMENT, \<^verbatim>\<open>placement_date\<close> from CURRENT_TIMESTAMP (the argument
  \<open>now\<close>), the other columns are NULL; the four coordinates are NOT NULL and
  \<^verbatim>\<open>submitted_by\<close> must reference a user. The result carries \<^verbatim>\<open>LastInsertId\<close>.
\<close>

definition next_order_id :: "store \<Rightarrow> int" where
  "next_order_id s = fold max (map oID (orders s)) (order_seq s) + 1"

definition Orders_Insert :: "string \<Rightarrow> Order \<Rightarrow> store \<Rightarrow> dberr + (int \<times> store)" where
  "Orders_Insert now new s =
     (if sql_real (OriginLat new) = None \<or> sql_real (OriginLng new) = None
         \<or> sql_real (DestLat new) = None \<or> sql_real (DestLng new) = None
        then Inl NotNullViolation
      else if \<not> list_ex (\<lambda>u. uID u = SubmittedBy new) (users s) then Inl ForeignKeyViolation
      else let i = next_order_id s in
        Inr (i, s\<lparr>orders := orders s @
                   [new\<lparr>oID := i, PlacementAt := now, PickupLat := None, PickupLng := None,
                        DronePath := None\<rparr>],
                 order_seq := i\<rparr>))"

text \<open>\<^verbatim>\<open>UPDATE orders SET status = ? WHERE id = ?\<close>\<close>

definition Orders_UpdateStatus :: "int \<Rightarrow> OrderStatus \<Rightarrow> store \<Rightarrow> dberr + store" where
  "Orders_UpdateStatus i st s =
     Inr (s\<lparr>orders := map (\<lambda>x. if oID x = i then x\<lparr>oStatus := st\<rparr> else x) (orders s)\<rparr>)"

definition Orders_Withdraw :: "int \<Rightarrow> store \<Rightarrow> dberr + store" where
  "Orders_Withdraw i s = Orders_UpdateStatus i OrderStatusWithdrawn s"

text \<open>
  \<^verbatim>\<open>UPDATE orders SET pickup_lat = ?, pickup_lng = ? WHERE id = ?\<close>; the two columns are
  nullable.
\<close>

definition Orders_UpdatePickupLocation ::
  "int \<Rightarrow> float64 \<Rightarrow> float64 \<Rightarrow> store \<Rightarrow> dberr + store" where
  "Orders_UpdatePickupLocation i lat lng s =
     Inr (s\<lparr>orders := map (\<lambda>x. if oID x = i
                                 then x\<lparr>PickupLat := sql_real lat, PickupLng := sql_real lng\<rparr>
                                 else x)
                          (orders s)\<rparr>)"

text \<open>
  \<^verbatim>\<open>UPDATE orders SET origin_lat = ?, origin_lng = ?, dest_lat = ?, dest_lng = ? WHERE id = ?\<close>,
  then \<^verbatim>\<open>sql.ErrNoRows\<close> when no row was affected. The four columns are NOT NULL, which
  is checked on the rows the statement updates.
\<close>

definition Orders_UpdateLocations ::
  "int \<Rightarrow> float64 \<Rightarrow> float64 \<Rightarrow> float64 \<Rightarrow> float64 \<Rightarrow> store \<Rightarrow> dberr + store" where
  "Orders_UpdateLocations i originLat originLng destLat destLng s =
     (if \<not> list_ex (\<lambda>x. oID x = i) (orders s) then Inl ErrNoRows
      else if sql_real originLat = None \<or> sql_real originLng = None
              \<or> sql_real destLat = None \<or> sql_real destLng = None
        then Inl NotNullViolation
      else Inr (s\<lparr>orders :=
                   map (\<lambda>x. if oID x = i
                             then x\<lparr>OriginLat := originLat, OriginLng := originLng,
                                    DestLat := destLat, DestLng := destLng\<rparr>
                             else x) (orders s)\<rparr>))"

text \<open>
  \<^verbatim>\<open>UPDATE orders SET drone_path = CASE WHEN drone_path IS NULL OR drone_path = '' THEN ?
  ELSE drone_path || ',' || ? END WHERE id = ?\<close>
\<close>

definition Orders_AppendDronePath :: "int \<Rightarrow> int \<Rightarrow> store \<Rightarrow> dberr + store" where
  "Orders_AppendDronePath orderID droneID s =
     Inr (s\<lparr>orders :=
            map (\<lambda>x. if oID x = orderID
                      then x\<lparr>DronePath :=
                               (case DronePath x of
                                  None \<Rightarrow> Some (FormatInt droneID)
                                | Some p \<Rightarrow> if p = [] then Some (FormatInt droneID)
                                            else Some (p @ '','' @ FormatInt droneID))\<rparr>
                      else x) (orders s)\<rparr>)"

text \<open>
  \<^verbatim>\<open>UPDATE drones SET lat = ?, lng = ?, speed_mph = ? WHERE id = ?\<close>; the three columns are
  NOT NULL, which is checked on the rows the statement updates.
\<close>

definition Drones_UpdateLocationAndSpeed ::
  "int \<Rightarrow> float64 \<Rightarrow> float64 \<Rightarrow> float64 \<Rightarrow> store \<Rightarrow> dberr + store" where
  "Drones_UpdateLocationAndSpeed i lat lng speed s =
     (if list_ex (\<lambda>d. dID d = i) (drones s)
         \<and> (sql_real lat = None \<or> sql_real lng = None \<or> sql_real speed = None)
        then Inl NotNullViolation
      else Inr (s\<lparr>drones := map (\<lambda>d. if dID d = i
                                          then d\<lparr>Lat := lat, Lng := lng, SpeedMPH := speed\<rparr>
                                          else d) (drones s)\<rparr>))"

text \<open>\<^verbatim>\<open>UPDATE drones SET status = ? WHERE id = ?\<close>\<close>

definition Drones_UpdateStatus :: "int \<Rightarrow> DroneStatus \<Rightarrow> store \<Rightarrow> dberr + store" where
  "Drones_UpdateStatus i st s =
     Inr (s\<lparr>drones := map (\<lambda>d. if dID d = i then d\<lparr>dStatus := st\<rparr> else d) (drones s)\<rparr>)"

text \<open>
  \<^verbatim>\<open>UPDATE drones SET assigned_job = ? WHERE id = ?\<close> under the column constraints of
  migration 0003: \<^verbatim>\<open>assigned_job INTEGER UNIQUE\<close> (the unique index is probed for another row
  holding the value) and \<^verbatim>\<open>FOREIGN KEY(assigned_job) REFERENCES orders(id)\<close>. A statement
  that matches no row changes nothing and reports no error.
\<close>

definition Drones_AssignJob :: "int \<Rightarrow> int \<Rightarrow> store \<Rightarrow> dberr + store" where
  "Drones_AssignJob i orderID s =
     (if \<not> list_ex (\<lambda>d. dID d = i) (drones s) then Inr s
      else if list_ex (\<lambda>d. dID d \<noteq> i \<and> AssignedJob d = Some orderID) (drones s)
        then Inl UniqueViolation
      else if \<not> list_ex (\<lambda>x. oID x = orderID) (orders s) then Inl ForeignKeyViolation
      else Inr (s\<lparr>drones := map (\<lambda>d. if dID d = i then d\<lparr>AssignedJob := Some orderID\<rparr> else d)
                                 (drones s)\<rparr>))"

text \<open>\<^verbatim>\<open>UPDATE drones SET assigned_job = NULL WHERE id = ?\<close>\<close>

definition Drones_UnassignJob :: "int \<Rightarrow> store \<Rightarrow> dberr + store" where
  "Drones_UnassignJob i s =
     Inr (s\<lparr>drones := map (\<lambda>d. if dID d = i then d\<lparr>AssignedJob := None\<rparr> else d) (drones s)\<rparr>)"

subsection \<open>Store calls as the handlers see them\<close>

text \<open>
  Every repository call of a handler can also return an error that the store contents do not
  explain. \<open>flt c\<close> says that the call made at site \<open>c\<close> of the running handler fails so; the
  statement then has no effect.
\<close>

datatype call =
  At_GetBySerial | At_GetByName | At_GetByUsername | At_GetOrder | At_GetOrderAgain
  | At_FindNext | At_AssignJob | At_AppendDronePath | At_UpdateOrderStatus
  | At_UpdatePickupLocation | At_UnassignJob | At_UpdateDroneStatus | At_UpdateLocationAndSpeed
  | At_InsertOrder | At_UpdateLocations | At_GetDrone

type_synonym faults = "call \<Rightarrow> bool"

definition db_query :: "faults \<Rightarrow> call \<Rightarrow> 'a \<Rightarrow> dberr + 'a" where
  "db_query flt c v = (if flt c then Inl IOError else Inr v)"

definition db_exec :: "faults \<Rightarrow> call \<Rightarrow> (store \<Rightarrow> dberr + store) \<Rightarrow> store \<Rightarrow> dberr option \<times> store" where
  "db_exec flt c stmt s =
     (if flt c then (Some IOError, s)
      else case stmt s of Inl e \<Rightarrow> (Some e, s) | Inr s' \<Rightarrow> (None, s'))"

section \<open>Principal gate (internal/auth)\<close>

record Principal =
  pName :: string
  pKind :: string

datatype codes =
  InvalidArgument | Unauthenticated | PermissionDenied | NotFound | FailedPrecondition
  | Aborted | Internal

type_synonym rpc_error = "codes \<times> string"

text \<open>
  \<^verbatim>\<open>strings.ToLower\<close> and \<^verbatim>\<open>strings.TrimSpace\<close> on ASCII text: bytes outside ASCII are left
  as they are.
\<close>

definition ToLower :: "string \<Rightarrow> string" where
  "ToLower = map (\<lambda>c. if CHR ''A'' \<le> c \<and> c \<le> CHR ''Z'' then char_of (of_char c + (32::nat)) else c)"

definition is_space :: "char \<Rightarrow> bool" where
  "is_space c = (c \<in> set [CHR 0x09, CHR 0x0A, CHR 0x0B, CHR 0x0C, CHR 0x0D, CHR '' ''])"

definition TrimSpace :: "string \<Rightarrow> string" where
  "TrimSpace x = rev (dropWhile is_space (rev (dropWhile is_space x)))"

definition RequirePrincipal :: "Principal option \<Rightarrow> rpc_error + Principal" where
  "RequirePrincipal ctx =
     (case ctx of None \<Rightarrow> Inl (Unauthenticated, ''missing principal'') | Some p \<Rightarrow> Inr p)"

definition RequireKind :: "Principal option \<Rightarrow> string \<Rightarrow> rpc_error + Principal" where
  "RequireKind ctx kind =
     (case RequirePrincipal ctx of
        Inl e \<Rightarrow> Inl e
      | Inr p \<Rightarrow>
          if pKind p \<noteq> ToLower kind
          then Inl (PermissionDenied, ''only '' @ ToLower kind @ '' can perform this action'')
          else Inr p)"

definition RequireDrone :: "Principal option \<Rightarrow> rpc_error + Principal" where
  "RequireDrone ctx = RequireKind ctx ''drone''"

definition RequireEndUserOrAdmin :: "Principal option \<Rightarrow> rpc_error + Principal" where
  "RequireEndUserOrAdmin ctx =
     (case RequirePrincipal ctx of
        Inl e \<Rightarrow> Inl e
      | Inr p \<Rightarrow>
          if pKind p \<noteq> ''enduser'' \<and> pKind p \<noteq> ''admin''
          then Inl (PermissionDenied, ''only enduser or admin can perform this action'')
          else Inr p)"

text \<open>
  \<^verbatim>\<open>RequireAdmin(ctx, users)\<close>: the repository handle \<open>repo\<close> is \<open>None\<close> for a nil pointer,
  else the store it reads.
\<close>

definition RequireAdmin :: "faults \<Rightarrow> Principal option \<Rightarrow> store option \<Rightarrow> rpc_error + Principal" where
  "RequireAdmin flt ctx repo =
     (case RequireKind ctx ''admin'' of
        Inl e \<Rightarrow> Inl e
      | Inr p \<Rightarrow>
          (case repo of
             None \<Rightarrow> Inl (Internal, ''users repository not configured'')
           | Some s \<Rightarrow>
               (case db_query flt At_GetByUsername (Users_GetByUsername s (pName p)) of
                  Inl e \<Rightarrow> Inl (Internal, ''get user'')
                | Inr None \<Rightarrow> Inl (PermissionDenied, ''only admin can perform this action'')
                | Inr (Some u) \<Rightarrow>
                    if ToLower (TrimSpace (Role u)) \<noteq> ''admin''
                    then Inl (PermissionDenied, ''only admin can perform this action'')
                    else Inr p)))"

section \<open>Dispatch engine (internal/grpc)\<close>

text \<open>
  A handler takes the fault assignment, the principal of the request context (\<open>None\<close> when the
  context carries none) and the store, and returns the gRPC status or the response together
  with the store it leaves. The text of a status is the fixed part of its message.
\<close>

datatype ProtoStatus =
  Status_UNSPECIFIED | Status_PLACED | Status_DELIVERED | Status_EN_ROUTE | Status_FAILED
  | Status_TO_PICK_UP | Status_WITHDRAWN

record ProtoOrder =
  Id :: int
  Origin :: "float64 \<times> float64"
  Destination :: "float64 \<times> float64"
  Status :: ProtoStatus
  ProtoSubmittedBy :: int
  PlacementDate :: string

definition toProtoStatus :: "OrderStatus \<Rightarrow> ProtoStatus" where
  "toProtoStatus st =
     (case st of
        OrderStatusPlaced \<Rightarrow> Status_PLACED
      | OrderStatusDelivered \<Rightarrow> Status_DELIVERED
      | OrderStatusEnRoute \<Rightarrow> Status_EN_ROUTE
      | OrderStatusFailed \<Rightarrow> Status_FAILED
      | OrderStatusToPickUp \<Rightarrow> Status_TO_PICK_UP
      | OrderStatusWithdrawn \<Rightarrow> Status_WITHDRAWN)"

definition toProtoOrder :: "Order option \<Rightarrow> ProtoOrder option" where
  "toProtoOrder x =
     (case x of
        None \<Rightarrow> None
      | Some ord \<Rightarrow>
          Some \<lparr>Id = oID ord, Origin = (OriginLat ord, OriginLng ord),
                Destination = (DestLat ord, DestLng ord), Status = toProtoStatus (oStatus ord),
                ProtoSubmittedBy = SubmittedBy ord, PlacementDate = PlacementAt ord\<rparr>)"

definition resolveDrone :: "faults \<Rightarrow> store \<Rightarrow> string \<Rightarrow> rpc_error + Drone" where
  "resolveDrone flt s principalName =
     (case db_query flt At_GetBySerial (Drones_GetBySerial s principalName) of
        Inl e \<Rightarrow> Inl (Internal, ''get drone by serial'')
      | Inr (Some dr) \<Rightarrow> Inr dr
      | Inr None \<Rightarrow>
          (case db_query flt At_GetByName (Drones_GetByName s principalName) of
             Inl e \<Rightarrow> Inl (Internal, ''get drone by name'')
           | Inr None \<Rightarrow> Inl (NotFound, ''drone not found'')
           | Inr (Some dr) \<Rightarrow> Inr dr))"

text \<open>
  \<^verbatim>\<open>ReserveOrder\<close>, lines 80 to 90: the two writes that follow the selection. They are a
  function of their own because requests run in parallel: the store in which the writes run
  need not be the one in which the order was selected.
\<close>

definition ReserveOrder_assign ::
  "faults \<Rightarrow> Drone \<Rightarrow> Order \<Rightarrow> store \<Rightarrow> (rpc_error + ProtoOrder option) \<times> store" where
  "ReserveOrder_assign flt dr ord s =
     (case db_exec flt At_AssignJob (Drones_AssignJob (dID dr) (oID ord)) s of
        (Some e, s1) \<Rightarrow> (Inl (Aborted, ''assign race''), s1)
      | (None, s1) \<Rightarrow>
          (case db_exec flt At_AppendDronePath (Orders_AppendDronePath (oID ord) (dID dr)) s1 of
             (Some e, s2) \<Rightarrow> (Inl (Internal, ''append drone path''), s2)
           | (None, s2) \<Rightarrow> (Inr (toProtoOrder (Some ord)), s2)))"

definition ReserveOrder ::
  "faults \<Rightarrow> Principal option \<Rightarrow> store \<Rightarrow> (rpc_error + ProtoOrder option) \<times> store" where
  "ReserveOrder flt ctx s =
     (case RequireDrone ctx of
        Inl e \<Rightarrow> (Inl e, s)
      | Inr p \<Rightarrow>
     (case resolveDrone flt s (pName p) of
        Inl e \<Rightarrow> (Inl e, s)
      | Inr dr \<Rightarrow>
          if dStatus dr = DroneStatusBroken
            then (Inl (FailedPrecondition, ''drone is broken''), s)
          else if AssignedJob dr \<noteq> None
            then (Inl (FailedPrecondition, ''drone already has an assigned order''), s)
          else
            (case db_query flt At_FindNext (FindNextAvailableForReservation s (dID dr)) of
               Inl e \<Rightarrow> (Inl (Internal, ''find order''), s)
             | Inr None \<Rightarrow> (Inl (FailedPrecondition, ''no available orders to reserve''), s)
             | Inr (Some ord) \<Rightarrow> ReserveOrder_assign flt dr ord s)))"

definition GrabOrder ::
  "faults \<Rightarrow> Principal option \<Rightarrow> store \<Rightarrow> (rpc_error + ProtoOrder option) \<times> store" where
  "GrabOrder flt ctx s =
     (case RequireDrone ctx of
        Inl e \<Rightarrow> (Inl e, s)
      | Inr p \<Rightarrow>
     (case resolveDrone flt s (pName p) of
        Inl e \<Rightarrow> (Inl e, s)
      | Inr dr \<Rightarrow>
     (case AssignedJob dr of
        None \<Rightarrow> (Inl (FailedPrecondition, ''no assigned order''), s)
      | Some job \<Rightarrow>
     (case db_query flt At_GetOrder (Orders_GetByID s job) of
        Inl e \<Rightarrow> (Inl (Internal, ''get order''), s)
      | Inr None \<Rightarrow>
          (Inl (NotFound, ''order not found''),
           snd (db_exec flt At_UnassignJob (Drones_UnassignJob (dID dr)) s))
      | Inr (Some ord) \<Rightarrow>
          if oStatus ord \<noteq> OrderStatusPlaced \<and> oStatus ord \<noteq> OrderStatusToPickUp
            then (Inl (FailedPrecondition, ''cannot grab order with status''), s)
          else
            (case (case (oStatus ord = OrderStatusToPickUp, PickupLat ord, PickupLng ord) of
                     (True, Some plat, Some plng) \<Rightarrow> (plat, plng)
                   | _ \<Rightarrow> (OriginLat ord, OriginLng ord)) of
               (targetLat, targetLng) \<Rightarrow>
                 if HaversineMiles (Lat dr) (Lng dr) targetLat targetLng > FeetToMiles RadiusFeet
                   then (Inl (FailedPrecondition, ''not within pickup radius''), s)
                 else
                   (case db_exec flt At_UpdateOrderStatus
                           (Orders_UpdateStatus (oID ord) OrderStatusEnRoute) s of
                      (Some e, s1) \<Rightarrow> (Inl (Internal, ''set en route''), s1)
                    | (None, s1) \<Rightarrow>
                        (Inr (toProtoOrder
                               (case db_query flt At_GetOrderAgain (Orders_GetByID s1 (oID ord)) of
                                  Inl e \<Rightarrow> None | Inr again \<Rightarrow> again)),
                         s1)))))))"

definition CompleteOrder ::
  "faults \<Rightarrow> Principal option \<Rightarrow> bool \<Rightarrow> store \<Rightarrow> (rpc_error + ProtoOrder option) \<times> store" where
  "CompleteOrder flt ctx delivered s =
     (case RequireDrone ctx of
        Inl e \<Rightarrow> (Inl e, s)
      | Inr p \<Rightarrow>
     (case resolveDrone flt s (pName p) of
        Inl e \<Rightarrow> (Inl e, s)
      | Inr dr \<Rightarrow>
     (case AssignedJob dr of
        None \<Rightarrow> (Inl (FailedPrecondition, ''no assigned order''), s)
      | Some job \<Rightarrow>
     (case db_query flt At_GetOrder (Orders_GetByID s job) of
        Inl e \<Rightarrow> (Inl (Internal, ''get order''), s)
      | Inr None \<Rightarrow>
          (Inl (NotFound, ''order not found''),
           snd (db_exec flt At_UnassignJob (Drones_UnassignJob (dID dr)) s))
      | Inr (Some ord) \<Rightarrow>
          if HaversineMiles (Lat dr) (Lng dr) (DestLat ord) (DestLng ord) > FeetToMiles RadiusFeet
            then (Inl (FailedPrecondition, ''not within destination radius''), s)
          else
            (case db_exec flt At_UpdateOrderStatus
                    (Orders_UpdateStatus (oID ord)
                       (if delivered then OrderStatusDelivered else OrderStatusFailed)) s of
               (Some e, s1) \<Rightarrow> (Inl (Internal, ''update status''), s1)
             | (None, s1) \<Rightarrow>
                 (case db_exec flt At_UnassignJob (Drones_UnassignJob (dID dr)) s1 of
                    (Some e, s2) \<Rightarrow> (Inl (Internal, ''unassign''), s2)
                  | (None, s2) \<Rightarrow>
                      (Inr (toProtoOrder
                             (case db_query flt At_GetOrderAgain (Orders_GetByID s2 (oID ord)) of
                                Inl e \<Rightarrow> None | Inr again \<Rightarrow> again)),
                       s2)))))))"

text \<open>
  \<^verbatim>\<open>MarkBroken\<close>, lines 209 to 226: the handoff of an en-route order and the unassignment,
  whose error is discarded (\<^verbatim>\<open>_ = s.Drones.UnassignJob(ctx, dr.ID)\<close>).
\<close>

definition MarkBroken_handoff ::
  "faults \<Rightarrow> Drone \<Rightarrow> store \<Rightarrow> (rpc_error + Order option) \<times> store" where
  "MarkBroken_handoff flt dr s =
     (case AssignedJob dr of
        None \<Rightarrow> (Inr None, s)
      | Some job \<Rightarrow>
     (case db_query flt At_GetOrder (Orders_GetByID s job) of
        Inl e \<Rightarrow> (Inl (Internal, ''get order''), s)
      | Inr found \<Rightarrow>
          (case (case found of
                   None \<Rightarrow> (Inr None, s)
                 | Some ord \<Rightarrow>
                     if oStatus ord = OrderStatusEnRoute then
                       (case db_exec flt At_UpdateOrderStatus
                               (Orders_UpdateStatus (oID ord) OrderStatusToPickUp) s of
                          (Some e, s1) \<Rightarrow> (Inl (Internal, ''update status''), s1)
                        | (None, s1) \<Rightarrow>
                            (case db_exec flt At_UpdatePickupLocation
                                    (Orders_UpdatePickupLocation (oID ord) (Lat dr) (Lng dr)) s1 of
                               (Some e, s2) \<Rightarrow> (Inl (Internal, ''update pickup location''), s2)
                             | (None, s2) \<Rightarrow> (Inr (Some ord), s2)))
                     else (Inr None, s)) of
             (Inl e, s3) \<Rightarrow> (Inl e, s3)
           | (Inr affected, s3) \<Rightarrow>
               (Inr affected, snd (db_exec flt At_UnassignJob (Drones_UnassignJob (dID dr)) s3)))))"

definition MarkBroken ::
  "faults \<Rightarrow> Principal option \<Rightarrow> store \<Rightarrow> (rpc_error + ProtoOrder option) \<times> store" where
  "MarkBroken flt ctx s =
     (case RequireDrone ctx of
        Inl e \<Rightarrow> (Inl e, s)
      | Inr p \<Rightarrow>
     (case resolveDrone flt s (pName p) of
        Inl e \<Rightarrow> (Inl e, s)
      | Inr dr \<Rightarrow>
     (case MarkBroken_handoff flt dr s of
        (Inl e, s1) \<Rightarrow> (Inl e, s1)
      | (Inr affected, s1) \<Rightarrow>
          (case db_exec flt At_UpdateDroneStatus
                  (Drones_UpdateStatus (dID dr) DroneStatusBroken) s1 of
             (Some e, s2) \<Rightarrow> (Inl (Internal, ''update drone status''), s2)
           | (None, s2) \<Rightarrow>
               (Inr (toProtoOrder
                      (case affected of
                         None \<Rightarrow> None
                       | Some a \<Rightarrow>
                           (case db_query flt At_GetOrderAgain (Orders_GetByID s2 (oID a)) of
                              Inl e \<Rightarrow> None | Inr again \<Rightarrow> again))),
                s2)))))"

record HeartbeatRequest =
  Location :: "(float64 \<times> float64) option"
  SpeedMph :: float64

definition Heartbeat ::
  "faults \<Rightarrow> Principal option \<Rightarrow> HeartbeatRequest option \<Rightarrow> store \<Rightarrow> (rpc_error + unit) \<times> store" where
  "Heartbeat flt ctx req s =
     (case RequireDrone ctx of
        Inl e \<Rightarrow> (Inl e, s)
      | Inr p \<Rightarrow>
     (case (case req of None \<Rightarrow> None | Some r \<Rightarrow> map_option (\<lambda>loc. (loc, SpeedMph r)) (Location r)) of
        None \<Rightarrow> (Inl (InvalidArgument, ''location required''), s)
      | Some ((lat, lng), speed) \<Rightarrow>
     (case resolveDrone flt s (pName p) of
        Inl e \<Rightarrow> (Inl e, s)
      | Inr dr \<Rightarrow>
          (case db_exec flt At_UpdateLocationAndSpeed
                  (Drones_UpdateLocationAndSpeed (dID dr) lat lng speed) s of
             (Some e, s1) \<Rightarrow> (Inl (Internal, ''update location''), s1)
           | (None, s1) \<Rightarrow> (Inr (), s1)))))"

definition calculateETA :: "Order \<Rightarrow> Drone \<Rightarrow> float64" where
  "calculateETA ord dr =
     (if SpeedMPH dr \<le> 0 then 0
      else if oStatus ord = OrderStatusPlaced \<or> oStatus ord = OrderStatusToPickUp then
        (case (case (oStatus ord = OrderStatusToPickUp, PickupLat ord, PickupLng ord) of
                 (True, Some plat, Some plng) \<Rightarrow> (plat, plng)
               | _ \<Rightarrow> (OriginLat ord, OriginLng ord)) of
           (startLat, startLng) \<Rightarrow>
             (HaversineMiles (Lat dr) (Lng dr) startLat startLng
              + HaversineMiles startLat startLng (DestLat ord) (DestLng ord))
             / SpeedMPH dr * Fin 3600)
      else if oStatus ord = OrderStatusEnRoute then
        HaversineMiles (Lat dr) (Lng dr) (DestLat ord) (DestLng ord) / SpeedMPH dr * Fin 3600
      else 0)"

definition GetAssignedOrder ::
  "faults \<Rightarrow> Principal option \<Rightarrow> store \<Rightarrow> rpc_error + (ProtoOrder option \<times> float64)" where
  "GetAssignedOrder flt ctx s =
     (case RequireDrone ctx of
        Inl e \<Rightarrow> Inl e
      | Inr p \<Rightarrow>
     (case resolveDrone flt s (pName p) of
        Inl e \<Rightarrow> Inl e
      | Inr dr \<Rightarrow>
     (case AssignedJob dr of
        None \<Rightarrow> Inl (FailedPrecondition, ''no assigned order'')
      | Some job \<Rightarrow>
     (case db_query flt At_GetOrder (Orders_GetByID s job) of
        Inl e \<Rightarrow> Inl (Internal, ''get order'')
      | Inr None \<Rightarrow> Inl (Internal, ''assigned order not found'')
      | Inr (Some ord) \<Rightarrow> Inr (toProtoOrder (Some ord), calculateETA ord dr)))))"

subsection \<open>End-user operations\<close>

definition resolveCurrentUser :: "faults \<Rightarrow> store \<Rightarrow> Principal \<Rightarrow> rpc_error + User" where
  "resolveCurrentUser flt s p =
     (case db_query flt At_GetByUsername (Users_GetByUsername s (pName p)) of
        Inl e \<Rightarrow> Inl (Internal, ''get user'')
      | Inr None \<Rightarrow> Inl (NotFound, ''user not found'')
      | Inr (Some u) \<Rightarrow> Inr u)"

record SetOrderRequest =
  ReqOrigin :: "(float64 \<times> float64) option"
  ReqDestination :: "(float64 \<times> float64) option"

text \<open>The nil-safe getters of the generated request type give zero for a missing message.\<close>

definition repositoryOrderFromReq :: "int \<Rightarrow> SetOrderRequest option \<Rightarrow> Order" where
  "repositoryOrderFromReq userID req =
     (let origin = (case req of None \<Rightarrow> None | Some r \<Rightarrow> ReqOrigin r);
          dest = (case req of None \<Rightarrow> None | Some r \<Rightarrow> ReqDestination r)
      in \<lparr>oID = 0,
          OriginLat = (case origin of None \<Rightarrow> 0 | Some c \<Rightarrow> fst c),
          OriginLng = (case origin of None \<Rightarrow> 0 | Some c \<Rightarrow> snd c),
          DestLat = (case dest of None \<Rightarrow> 0 | Some c \<Rightarrow> fst c),
          DestLng = (case dest of None \<Rightarrow> 0 | Some c \<Rightarrow> snd c),
          SubmittedBy = userID, oStatus = OrderStatusPlaced, PlacementAt = [],
          PickupLat = None, PickupLng = None, DronePath = None\<rparr>)"

text \<open>
  \<^verbatim>\<open>OrderRepository.Create\<close>: the INSERT, then the row is read back by its new id. The
  order built by \<open>repositoryOrderFromReq\<close> always carries a status, so the default of an empty
  status does not arise.
\<close>

definition Orders_Create ::
  "faults \<Rightarrow> string \<Rightarrow> Order \<Rightarrow> store \<Rightarrow> (dberr + Order) \<times> store" where
  "Orders_Create flt now new s =
     (if flt At_InsertOrder then (Inl IOError, s)
      else
        (case Orders_Insert now new s of
           Inl e \<Rightarrow> (Inl e, s)
         | Inr (i, s1) \<Rightarrow>
             (case db_query flt At_GetOrder (Orders_GetByID s1 i) of
                Inl e \<Rightarrow> (Inl e, s1)
              | Inr None \<Rightarrow> (Inl ErrNoRows, s1)
              | Inr (Some created) \<Rightarrow> (Inr created, s1))))"

definition SetOrder ::
  "faults \<Rightarrow> string \<Rightarrow> Principal option \<Rightarrow> SetOrderRequest option \<Rightarrow> store
     \<Rightarrow> (rpc_error + ProtoOrder option) \<times> store" where
  "SetOrder flt now ctx req s =
     (case RequireEndUserOrAdmin ctx of
        Inl e \<Rightarrow> (Inl e, s)
      | Inr p \<Rightarrow>
     (case resolveCurrentUser flt s p of
        Inl e \<Rightarrow> (Inl e, s)
      | Inr u \<Rightarrow>
          (case Orders_Create flt now (repositoryOrderFromReq (uID u) req) s of
             (Inl e, s1) \<Rightarrow> (Inl (Internal, ''create order''), s1)
           | (Inr ord, s1) \<Rightarrow> (Inr (toProtoOrder (Some ord)), s1))))"

text \<open>\<^verbatim>\<open>WithdrawOrder\<close>: the request is \<open>None\<close> for a nil message, else its \<^verbatim>\<open>order_id\<close>.\<close>

definition WithdrawOrder ::
  "faults \<Rightarrow> Principal option \<Rightarrow> int option \<Rightarrow> store \<Rightarrow> (rpc_error + ProtoOrder option) \<times> store" where
  "WithdrawOrder flt ctx req s =
     (case (case req of None \<Rightarrow> None | Some i \<Rightarrow> if i = 0 then None else Some i) of
        None \<Rightarrow> (Inl (InvalidArgument, ''order_id is required''), s)
      | Some orderId \<Rightarrow>
     (case RequireEndUserOrAdmin ctx of
        Inl e \<Rightarrow> (Inl e, s)
      | Inr p \<Rightarrow>
     (case resolveCurrentUser flt s p of
        Inl e \<Rightarrow> (Inl e, s)
      | Inr u \<Rightarrow>
     (case db_query flt At_GetOrder (Orders_GetByID s orderId) of
        Inl e \<Rightarrow> (Inl (Internal, ''get order''), s)
      | Inr None \<Rightarrow> (Inl (NotFound, ''order not found''), s)
      | Inr (Some ord) \<Rightarrow>
          if SubmittedBy ord \<noteq> uID u
            then (Inl (PermissionDenied, ''cannot withdraw another user's order''), s)
          else
            (case db_exec flt At_UpdateOrderStatus (Orders_Withdraw orderId) s of
               (Some e, s1) \<Rightarrow> (Inl (Internal, ''withdraw''), s1)
             | (None, s1) \<Rightarrow>
                 (case db_query flt At_GetOrderAgain (Orders_GetByID s1 orderId) of
                    Inl e \<Rightarrow> (Inl (Internal, ''get order''), s1)
                  | Inr again \<Rightarrow> (Inr (toProtoOrder again), s1)))))))"

subsection \<open>Admin mutations\<close>

record UpdateOrderLocationRequest =
  LocOrderId :: int
  LocOrigin :: "(float64 \<times> float64) option"
  LocDestination :: "(float64 \<times> float64) option"

definition UpdateOrderLocation ::
  "faults \<Rightarrow> Principal option \<Rightarrow> UpdateOrderLocationRequest option \<Rightarrow> store
     \<Rightarrow> (rpc_error + ProtoOrder option) \<times> store" where
  "UpdateOrderLocation flt ctx req s =
     (case RequireAdmin flt ctx (Some s) of
        Inl e \<Rightarrow> (Inl e, s)
      | Inr p \<Rightarrow>
     (case (case req of
              None \<Rightarrow> None
            | Some r \<Rightarrow>
                (case (LocOrderId r = 0, LocOrigin r, LocDestination r) of
                   (False, Some origin, Some dest) \<Rightarrow> Some (LocOrderId r, origin, dest)
                 | _ \<Rightarrow> None)) of
        None \<Rightarrow> (Inl (InvalidArgument, ''order_id, origin and destination are required''), s)
      | Some (orderId, origin, dest) \<Rightarrow>
          (case db_exec flt At_UpdateLocations
                  (Orders_UpdateLocations orderId (fst origin) (snd origin) (fst dest) (snd dest)) s of
             (Some e, s1) \<Rightarrow>
               (if e = ErrNoRows then (Inl (NotFound, ''order not found''), s1)
                else (Inl (Internal, ''update order''), s1))
           | (None, s1) \<Rightarrow>
               (case db_query flt At_GetOrder (Orders_GetByID s1 orderId) of
                  Inl e \<Rightarrow> (Inl (Internal, ''get order''), s1)
                | Inr None \<Rightarrow> (Inl (NotFound, ''order not found''), s1)
                | Inr (Some ord) \<Rightarrow> (Inr (toProtoOrder (Some ord)), s1)))))"

datatype AdminDroneStatus =
  DRONE_STATUS_UNSPECIFIED | DRONE_STATUS_FIXED | DRONE_STATUS_BROKEN

record UpdateDroneStatusRequest =
  ReqDroneId :: int
  ReqStatus :: AdminDroneStatus

definition UpdateDroneStatus ::
  "faults \<Rightarrow> Principal option \<Rightarrow> UpdateDroneStatusRequest option \<Rightarrow> store
     \<Rightarrow> (rpc_error + Drone) \<times> store" where
  "UpdateDroneStatus flt ctx req s =
     (case RequireAdmin flt ctx (Some s) of
        Inl e \<Rightarrow> (Inl e, s)
      | Inr p \<Rightarrow>
     (case (case req of None \<Rightarrow> None | Some r \<Rightarrow> if ReqDroneId r = 0 then None else Some r) of
        None \<Rightarrow> (Inl (InvalidArgument, ''drone_id is required''), s)
      | Some r \<Rightarrow>
     (case (case ReqStatus r of
              DRONE_STATUS_FIXED \<Rightarrow> Some DroneStatusFixed
            | DRONE_STATUS_BROKEN \<Rightarrow> Some DroneStatusBroken
            | DRONE_STATUS_UNSPECIFIED \<Rightarrow> None) of
        None \<Rightarrow> (Inl (InvalidArgument, ''status must be FIXED or BROKEN''), s)
      | Some st \<Rightarrow>
          (case db_exec flt At_UpdateDroneStatus (Drones_UpdateStatus (ReqDroneId r) st) s of
             (Some e, s1) \<Rightarrow>
               (if e = ErrNoRows then (Inl (NotFound, ''drone not found''), s1)
                else (Inl (Internal, ''update status''), s1))
           | (None, s1) \<Rightarrow>
               (case db_query flt At_GetDrone (Drones_GetByID s1 (ReqDroneId r)) of
                  Inl e \<Rightarrow> (Inl (Internal, ''get drone''), s1)
                | Inr None \<Rightarrow> (Inl (NotFound, ''drone not found''), s1)
                | Inr (Some d) \<Rightarrow> (Inr d, s1))))))"

subsection \<open>The service as a transition system\<close>

text \<open>
  The requests that can write to the store, and \<^verbatim>\<open>GetAssignedOrder\<close>. The three listing
  operations (\<^verbatim>\<open>ListOrders\<close>, \<^verbatim>\<open>GetOrders\<close>, \<^verbatim>\<open>GetDrones\<close>) issue SELECT statements only
  and are left out. \<open>ReqSetOrder\<close> carries the CURRENT_TIMESTAMP of its insert.
\<close>

datatype request =
  ReqReserveOrder
  | ReqGrabOrder
  | ReqCompleteOrder bool
  | ReqMarkBroken
  | ReqHeartbeat "HeartbeatRequest option"
  | ReqGetAssignedOrder
  | ReqSetOrder string "SetOrderRequest option"
  | ReqWithdrawOrder "int option"
  | ReqUpdateOrderLocation "UpdateOrderLocationRequest option"
  | ReqUpdateDroneStatus "UpdateDroneStatusRequest option"

datatype response =
  RespOrder "ProtoOrder option"
  | RespEta "ProtoOrder option" float64
  | RespEmpty
  | RespDrone Drone

definition serve ::
  "faults \<Rightarrow> Principal option \<Rightarrow> request \<Rightarrow> store \<Rightarrow> (rpc_error + response) \<times> store" where
  "serve flt ctx req s =
     (case req of
        ReqReserveOrder \<Rightarrow> apfst (map_sum id RespOrder) (ReserveOrder flt ctx s)
      | ReqGrabOrder \<Rightarrow> apfst (map_sum id RespOrder) (GrabOrder flt ctx s)
      | ReqCompleteOrder delivered \<Rightarrow>
          apfst (map_sum id RespOrder) (CompleteOrder flt ctx delivered s)
      | ReqMarkBroken \<Rightarrow> apfst (map_sum id RespOrder) (MarkBroken flt ctx s)
      | ReqHeartbeat r \<Rightarrow> apfst (map_sum id (\<lambda>_. RespEmpty)) (Heartbeat flt ctx r s)
      | ReqGetAssignedOrder \<Rightarrow>
          (map_sum id (\<lambda>(ord, eta). RespEta ord eta) (GetAssignedOrder flt ctx s), s)
      | ReqSetOrder now r \<Rightarrow> apfst (map_sum id RespOrder) (SetOrder flt now ctx r s)
      | ReqWithdrawOrder r \<Rightarrow> apfst (map_sum id RespOrder) (WithdrawOrder flt ctx r s)
      | ReqUpdateOrderLocation r \<Rightarrow>
          apfst (map_sum id RespOrder) (UpdateOrderLocation flt ctx r s)
      | ReqUpdateDroneStatus r \<Rightarrow> apfst (map_sum id RespDrone) (UpdateDroneStatus flt ctx r s))"

text \<open>
  The stores the service can reach from \<open>s0\<close>: by serving a request, or by the writes of a
  reservation whose drone row and order were read in an earlier store.
\<close>

inductive reachable :: "store \<Rightarrow> store \<Rightarrow> bool" for s0 :: store where
  reach_init: "reachable s0 s0"
| reach_serve: "reachable s0 s \<Longrightarrow> reachable s0 (snd (serve flt ctx req s))"
| reach_race: "reachable s0 s \<Longrightarrow> reachable s0 (snd (ReserveOrder_assign flt dr ord s))"

text \<open>
  The constraints of table \<^verbatim>\<open>drones\<close>: the primary key, and UNIQUE on \<^verbatim>\<open>assigned_job\<close>
  (the non-NULL values of the column are pairwise different).
\<close>

definition unique_assigned_job :: "Drone list \<Rightarrow> bool" where
  "unique_assigned_job ds = distinct (List.map_filter AssignedJob ds)"

definition drones_constraints :: "store \<Rightarrow> bool" where
  "drones_constraints s = (distinct (map dID (drones s)) \<and> unique_assigned_job (drones s))"

definition terminal :: "OrderStatus \<Rightarrow> bool" where
  "terminal st = (st = OrderStatusDelivered \<or> st = OrderStatusFailed \<or> st = OrderStatusWithdrawn)"

definition status_of :: "store \<Rightarrow> int \<Rightarrow> OrderStatus option" where
  "status_of s i = map_option oStatus (Orders_GetByID s i)"

text \<open>
  The pickup target as the specification words it: the origin, or the pickup coordinates when
  the order is to be picked up and both are set.
\<close>

definition pickup_point :: "Order \<Rightarrow> float64 \<times> float64" where
  "pickup_point ord =
     (if oStatus ord = OrderStatusToPickUp \<and> PickupLat ord \<noteq> None \<and> PickupLng ord \<noteq> None
      then (the (PickupLat ord), the (PickupLng ord))
      else (OriginLat ord, OriginLng ord))"

section \<open>Sample data\<close>

text \<open>Small stores on which the theorems below are instantiated.\<close>

definition demo_order :: "int \<Rightarrow> OrderStatus \<Rightarrow> string \<Rightarrow> string option \<Rightarrow> Order" where
  "demo_order i st placed dp =
     \<lparr>oID = i, OriginLat = 0, OriginLng = 0, DestLat = 1, DestLng = 1, SubmittedBy = 1,
      oStatus = st, PlacementAt = placed, PickupLat = None, PickupLng = None, DronePath = dp\<rparr>"

definition demo_drone :: "int \<Rightarrow> string \<Rightarrow> int option \<Rightarrow> Drone" where
  "demo_drone i serial job =
     \<lparr>dID = i, dName = serial, SerialNumber = serial, Lat = 0, Lng = 0, SpeedMPH = Fin 10,
      AssignedJob = job, dStatus = DroneStatusFixed\<rparr>"

definition demo_users :: "User list" where
  "demo_users = [\<lparr>uID = 1, Username = ''alice'', Role = ''end user''\<rparr>,
                 \<lparr>uID = 2, Username = ''root'', Role = ''admin''\<rparr>]"

text \<open>
  The priority scenario of the repository test: an older placed order, a handed-off order,
  and a placed order that drone 1 has already carried; three free drones.
\<close>

definition demo_store :: store where
  "demo_store =
     \<lparr>users = demo_users,
      orders = [demo_order 1 OrderStatusPlaced ''2024-01-01 10:00:00'' None,
                demo_order 2 OrderStatusToPickUp ''2024-01-01 10:00:01'' None,
                demo_order 3 OrderStatusPlaced ''2024-01-01 10:00:02'' (Some ''1'')],
      drones = [demo_drone 1 ''d1'' None, demo_drone 2 ''d2'' None, demo_drone 3 ''d3'' None],
      order_seq = 3\<rparr>"

definition no_faults :: faults where
  "no_faults = (\<lambda>c. False)"

definition drone_ctx :: "string \<Rightarrow> Principal option" where
  "drone_ctx name = Some \<lparr>pName = name, pKind = ''drone''\<rparr>"

definition demo_pickup :: store where
  "demo_pickup =
     \<lparr>users = demo_users,
      orders = [demo_order 1 OrderStatusPlaced ''2024-01-01 10:00:00'' (Some ''1'')],
      drones = [demo_drone 1 ''d1'' (Some 1), demo_drone 2 ''d2'' None],
      order_seq = 1\<rparr>"

definition demo_flight :: store where
  "demo_flight =
     \<lparr>users = demo_users,
      orders = [demo_order 1 OrderStatusEnRoute ''2024-01-01 10:00:00'' (Some ''1'')],
      drones = [demo_drone 1 ''d1'' (Some 1), demo_drone 2 ''d2'' None],
      order_seq = 1\<rparr>"

definition admin_ctx :: "string \<Rightarrow> Principal option" where
  "admin_ctx name = Some \<lparr>pName = name, pKind = ''admin''\<rparr>"

definition handoff_write_fails :: faults where
  "handoff_write_fails = (\<lambda>c. c = At_UpdateOrderStatus)"

definition unassign_fails :: faults where
  "unassign_fails = (\<lambda>c. c = At_UnassignJob)"

text \<open>An end-user principal, and a store whose only order has been delivered.\<close>

definition enduser_ctx :: "string \<Rightarrow> Principal option" where
  "enduser_ctx name = Some \<lparr>pName = name, pKind = ''enduser''\<rparr>"

definition demo_done :: store where
  "demo_done =
     \<lparr>users = demo_users,
      orders = [demo_order 1 OrderStatusDelivered ''2024-01-01 10:00:00'' (Some ''1'')],
      drones = [demo_drone 1 ''d1'' None],
      order_seq = 1\<rparr>"

text \<open>
  A heartbeat that reports latitude \<open>+Inf\<close>, and the store after drone \<open>d1\<close> has sent it
  while holding the placed order 1.
\<close>

definition heartbeat_inf :: HeartbeatRequest where
  "heartbeat_inf = \<lparr>Location = Some (PosInf, 0), SpeedMph = Fin 10\<rparr>"

definition demo_adrift :: store where
  "demo_adrift = snd (Heartbeat no_faults (drone_ctx ''d1'') (Some heartbeat_inf) demo_pickup)"

text \<open>
  A withdrawn order that drone \<open>d1\<close> still holds, the drone being at the destination.
\<close>

definition demo_withdrawn :: store where
  "demo_withdrawn =
     \<lparr>users = demo_users,
      orders = [demo_order 1 OrderStatusWithdrawn ''2024-01-01 10:00:00'' (Some ''1'')],
      drones = [\<lparr>dID = 1, dName = ''d1'', SerialNumber = ''d1'', Lat = 1, Lng = 1, SpeedMPH = Fin 10,
                 AssignedJob = Some 1, dStatus = DroneStatusFixed\<rparr>],
      order_seq = 1\<rparr>"

text \<open>The sample store after drone \<open>d1\<close> has reserved an order.\<close>

definition demo_reserved :: store where
  "demo_reserved = snd (serve no_faults (drone_ctx ''d1'') ReqReserveOrder demo_store)"

section \<open>Lemmas on strings\<close>

lemma instr_from_pos: "0 < i \<Longrightarrow> (instr_from i h n = 0) = (\<not> sublist n h)"
proof (induction h arbitrary: i)
  case Nil
  then show ?case by auto
next
  case (Cons a h)
  then show ?case by (simp add: sublist_Cons_right)
qed

lemma instr_zero: "(instr h n = 0) = (\<not> sublist n h)"
  by (simp add: instr_def instr_from_pos)

lemma split_on_ne: "split_on c p \<noteq> []"
  by (induction p) auto

lemma prefix_field: "c \<notin> set X \<Longrightarrow> prefix (X @ [c]) (P @ [c]) = (X = hd (split_on c P))"
proof (induction P arbitrary: X)
  case Nil
  then show ?case by (cases X) auto
next
  case (Cons x xs)
  show ?case
  proof (cases X)
    case Nil
    then show ?thesis by auto
  next
    case (Cons y ys)
    with Cons.prems Cons.IH[of ys] show ?thesis by auto
  qed
qed

lemma sublist_field:
  "c \<notin> set X \<Longrightarrow> sublist (c # X @ [c]) (P @ [c]) = (X \<in> set (tl (split_on c P)))"
proof (induction P)
  case Nil
  then show ?case by (auto simp: sublist_Cons_right)
next
  case (Cons x xs)
  have ne: "split_on c xs \<noteq> []" by (rule split_on_ne)
  show ?case
  proof (cases "x = c")
    case True
    have "sublist (c # X @ [c]) ((x # xs) @ [c]) =
          (prefix (X @ [c]) (xs @ [c]) \<or> sublist (c # X @ [c]) (xs @ [c]))"
      using True by (simp add: sublist_Cons_right)
    also have "\<dots> = (X = hd (split_on c xs) \<or> X \<in> set (tl (split_on c xs)))"
      using Cons prefix_field[of c X xs] by simp
    also have "\<dots> = (X \<in> set (split_on c xs))"
      using ne by (cases "split_on c xs") auto
    finally show ?thesis using True by simp
  next
    case False
    then show ?thesis using Cons by (simp add: sublist_Cons_right)
  qed
qed

lemma padded_sublist_iff:
  assumes "c \<notin> set X"
  shows "sublist (c # X @ [c]) (c # P @ [c]) = (X \<in> set (split_on c P))"
proof -
  have "sublist (c # X @ [c]) (c # P @ [c]) =
        (prefix (X @ [c]) (P @ [c]) \<or> sublist (c # X @ [c]) (P @ [c]))"
    by (simp add: sublist_Cons_right)
  also have "\<dots> = (X = hd (split_on c P) \<or> X \<in> set (tl (split_on c P)))"
    using assms prefix_field[of c X P] sublist_field[of c X P] by simp
  also have "\<dots> = (X \<in> set (split_on c P))"
    using split_on_ne[of c P] by (cases "split_on c P") auto
  finally show ?thesis .
qed

lemma digit_char_cases: "d < 10 \<Longrightarrow> digit_char d \<in> set ''0123456789''"
  unfolding digit_char_def by (rule nth_mem) simp

lemma dec_nat_digits: "set (dec_nat n) \<subseteq> set ''0123456789''"
proof (induction n rule: dec_nat.induct)
  case (1 n)
  show ?case
  proof (cases "n < 10")
    case True
    then show ?thesis using digit_char_cases[of n] by (subst dec_nat.simps) simp
  next
    case False
    have "n mod 10 < 10" by simp
    then have "digit_char (n mod 10) \<in> set ''0123456789''" by (rule digit_char_cases)
    then show ?thesis using False 1 by (subst dec_nat.simps) simp
  qed
qed

lemma dec_nat_avoids: "c \<notin> set ''0123456789'' \<Longrightarrow> c \<notin> set (dec_nat n)"
  using dec_nat_digits[of n] by blast

lemma dec_nat_ne: "dec_nat n \<noteq> []"
  by (subst dec_nat.simps) simp

lemma FormatInt_no_comma: "CHR '','' \<notin> set (FormatInt i)"
proof -
  have "CHR '','' \<notin> set ''0123456789''" by simp
  then have "CHR '','' \<notin> set (dec_nat n)" for n by (rule dec_nat_avoids)
  then show ?thesis by (simp add: FormatInt_def)
qed

lemma FormatInt_ne: "FormatInt i \<noteq> []"
  by (simp add: FormatInt_def dec_nat_ne)

section \<open>The reservation query meets the selection policy\<close>

lemma path_clause_iff: "path_clause d (DronePath ord) = (\<not> in_dronePath d ord)"
proof (cases "DronePath ord")
  case None
  then show ?thesis using FormatInt_ne[of d] by (auto simp: path_clause_def in_dronePath_def)
next
  case (Some p)
  have "sublist (CHR '','' # FormatInt d @ [CHR '','']) (CHR '','' # p @ [CHR '',''])
        = (FormatInt d \<in> set (split_on CHR '','' p))"
    by (rule padded_sublist_iff) (rule FormatInt_no_comma)
  then show ?thesis using Some by (simp add: path_clause_def in_dronePath_def instr_zero)
qed

lemma filter_left_join:
  "filter (where_clause d) (left_join_drones os ds) =
   map (\<lambda>ord. (ord, None))
     (filter (\<lambda>ord. \<not> list_ex (\<lambda>dr. AssignedJob dr = Some (oID ord)) ds
                \<and> (oStatus ord = OrderStatusToPickUp \<or> oStatus ord = OrderStatusPlaced)
                \<and> path_clause d (DronePath ord)) os)"
proof (induction os)
  case Nil
  then show ?case by (simp add: left_join_drones_def)
next
  case (Cons a os)
  note IH = Cons.IH
  have step: "left_join_drones (a # os) ds =
        (case filter (\<lambda>dr. AssignedJob dr = Some (oID a)) ds of
           [] \<Rightarrow> [(a, None)] | m # ms \<Rightarrow> map (\<lambda>dr. (a, Some dr)) (m # ms))
        @ left_join_drones os ds"
    by (simp add: left_join_drones_def)
  show ?case
  proof (cases "filter (\<lambda>dr. AssignedJob dr = Some (oID a)) ds")
    case Nil
    then have "\<not> list_ex (\<lambda>dr. AssignedJob dr = Some (oID a)) ds"
      by (simp add: list_ex_iff filter_empty_conv)
    then show ?thesis using Nil IH step by (simp add: where_clause_def)
  next
    case (Cons m ms)
    then have "m \<in> set (filter (\<lambda>dr. AssignedJob dr = Some (oID a)) ds)" by simp
    then have ex: "list_ex (\<lambda>dr. AssignedJob dr = Some (oID a)) ds"
      by (auto simp: list_ex_iff)
    have "filter (where_clause d) (map (\<lambda>dr. (a, Some dr)) (m # ms)) = []"
      by (simp add: filter_empty_conv where_clause_def)
    then have "filter (where_clause d) (left_join_drones (a # os) ds) =
               filter (where_clause d) (left_join_drones os ds)"
      unfolding step Cons by (simp only: list.case filter_append append_Nil)
    then show ?thesis using IH ex by simp
  qed
qed

lemma candidates_eq:
  "filter (where_clause d) (left_join_drones (orders s) (drones s)) =
   map (\<lambda>ord. (ord, None)) (filter (satisfies_filters s d) (orders s))"
proof -
  have "satisfies_filters s d =
        (\<lambda>ord. \<not> list_ex (\<lambda>dr. AssignedJob dr = Some (oID ord)) (drones s)
                \<and> (oStatus ord = OrderStatusToPickUp \<or> oStatus ord = OrderStatusPlaced)
                \<and> path_clause d (DronePath ord))"
    by (rule ext) (simp add: satisfies_filters_def currently_assigned_def path_clause_iff)
  then show ?thesis by (simp add: filter_left_join)
qed

lemma sort_key_head:
  assumes "sort_key f xs = y # ys"
  shows "y \<in> set xs \<and> (\<forall>x \<in> set xs. f y \<le> f x)"
proof -
  have "set (sort_key f xs) = set xs" by simp
  then have mem: "set xs = insert y (set ys)" using assms by simp
  have "sorted (map f (sort_key f xs))" by (rule sorted_sort_key)
  then have "\<forall>x \<in> set ys. f y \<le> f x" using assms by simp
  then show ?thesis using mem by auto
qed

lemma key_less_iff:
  assumes "oStatus a = OrderStatusToPickUp \<or> oStatus a = OrderStatusPlaced"
    and "oStatus b = OrderStatusToPickUp \<or> oStatus b = OrderStatusPlaced"
  shows "(order_by_key a < order_by_key b) = comes_before a b"
  using assms by (auto simp: order_by_key_def comes_before_def less_prod_def)

text \<open>
  Claim C1. Provided the ids of table \<^verbatim>\<open>orders\<close> are a primary key,
  \<open>FindNextAvailableForReservation\<close> returns an order exactly when that order is in the table,
  satisfies the three filter predicates (no drone row holds it in \<^verbatim>\<open>assigned_job\<close>, its status
  is to-pick-up or placed, the drone id is not a comma-delimited element of its drone path) and
  comes before every other order satisfying them, where to-pick-up comes before placed, then
  the earlier placement date, then the smaller id; and it returns no order exactly when no
  order satisfies the filters.
\<close>

theorem find_next_policy:
  assumes pk: "primary_key_orders s"
  shows "(FindNextAvailableForReservation s d = Some ord \<longleftrightarrow>
            ord \<in> set (orders s) \<and> satisfies_filters s d ord
            \<and> (\<forall>other \<in> set (orders s).
                  satisfies_filters s d other \<and> other \<noteq> ord \<longrightarrow> comes_before ord other))
         \<and> (FindNextAvailableForReservation s d = None \<longleftrightarrow>
            \<not> (\<exists>other \<in> set (orders s). satisfies_filters s d other))"
proof -
  let ?cs = "filter (satisfies_filters s d) (orders s)"
  let ?rows = "map (\<lambda>ord. (ord, None :: Drone option)) ?cs"
  let ?sorted = "sort_key (\<lambda>row. order_by_key (fst row)) ?rows"
  have find: "FindNextAvailableForReservation s d =
        (case ?sorted of [] \<Rightarrow> None | row # _ \<Rightarrow> Some (fst row))"
    by (simp add: FindNextAvailableForReservation_def candidates_eq)
  have inj: "inj_on oID (set (orders s))"
    using pk by (simp add: primary_key_orders_def distinct_map)
  have stat: "oStatus x = OrderStatusToPickUp \<or> oStatus x = OrderStatusPlaced"
    if "satisfies_filters s d x" for x
    using that by (simp add: satisfies_filters_def)
  have key_ne: "order_by_key x \<noteq> order_by_key y"
    if "x \<in> set (orders s)" "y \<in> set (orders s)" "x \<noteq> y" for x y
  proof
    assume "order_by_key x = order_by_key y"
    then have "oID x = oID y" by (simp add: order_by_key_def)
    with inj that show False by (auto dest: inj_onD)
  qed
  have none: "(FindNextAvailableForReservation s d = None) =
        (\<not> (\<exists>other \<in> set (orders s). satisfies_filters s d other))"
  proof -
    have "(?sorted = []) = (?cs = [])"
      by (metis (no_types, lifting) length_sort length_map length_0_conv)
    moreover have "(FindNextAvailableForReservation s d = None) = (?sorted = [])"
      unfolding find by (cases ?sorted) auto
    ultimately show ?thesis by (auto simp: filter_empty_conv)
  qed
  have some: "(FindNextAvailableForReservation s d = Some ord) =
        (ord \<in> set (orders s) \<and> satisfies_filters s d ord
         \<and> (\<forall>other \<in> set (orders s).
               satisfies_filters s d other \<and> other \<noteq> ord \<longrightarrow> comes_before ord other))"
  proof
    assume "FindNextAvailableForReservation s d = Some ord"
    then obtain row rest where srt: "?sorted = row # rest" and r: "fst row = ord"
      unfolding find by (cases ?sorted) auto
    from sort_key_head[OF srt]
    have rin: "row \<in> set ?rows"
      and rmin: "\<forall>x \<in> set ?rows. order_by_key (fst row) \<le> order_by_key (fst x)"
      by auto
    from rin r have oin: "ord \<in> set (orders s)" and osat: "satisfies_filters s d ord"
      by auto
    have "comes_before ord other"
      if "other \<in> set (orders s)" "satisfies_filters s d other" "other \<noteq> ord" for other
    proof -
      have "(other, None) \<in> set ?rows" using that by auto
      with rmin r have "order_by_key ord \<le> order_by_key other" by fastforce
      moreover have "order_by_key ord \<noteq> order_by_key other"
        using key_ne[OF oin that(1)] that(3) by auto
      ultimately have "order_by_key ord < order_by_key other" by simp
      then show ?thesis using key_less_iff[OF stat[OF osat] stat[OF that(2)]] by simp
    qed
    with oin osat show "ord \<in> set (orders s) \<and> satisfies_filters s d ord
         \<and> (\<forall>other \<in> set (orders s).
               satisfies_filters s d other \<and> other \<noteq> ord \<longrightarrow> comes_before ord other)"
      by blast
  next
    assume rhs: "ord \<in> set (orders s) \<and> satisfies_filters s d ord
         \<and> (\<forall>other \<in> set (orders s).
               satisfies_filters s d other \<and> other \<noteq> ord \<longrightarrow> comes_before ord other)"
    then have oin: "ord \<in> set (orders s)" and osat: "satisfies_filters s d ord" by auto
    have "FindNextAvailableForReservation s d \<noteq> None"
      using none oin osat by blast
    then obtain row rest where srt: "?sorted = row # rest"
      unfolding find by (cases ?sorted) auto
    from sort_key_head[OF srt]
    have rin: "row \<in> set ?rows"
      and rmin: "\<forall>x \<in> set ?rows. order_by_key (fst row) \<le> order_by_key (fst x)"
      by auto
    from rin have fin: "fst row \<in> set (orders s)" and fsat: "satisfies_filters s d (fst row)"
      by auto
    have "fst row = ord"
    proof (rule ccontr)
      assume ne: "fst row \<noteq> ord"
      with rhs fin fsat have "comes_before ord (fst row)" by blast
      then have "order_by_key ord < order_by_key (fst row)"
        using key_less_iff[OF stat[OF osat] stat[OF fsat]] by simp
      moreover have "(ord, None) \<in> set ?rows" using oin osat by auto
      with rmin have "order_by_key (fst row) \<le> order_by_key ord" by fastforce
      ultimately show False by simp
    qed
    then show "FindNextAvailableForReservation s d = Some ord"
      unfolding find using srt by simp
  qed
  from some none show ?thesis by blast
qed


theorem find_next_policy_witness:
  "primary_key_orders demo_store
   \<and> FindNextAvailableForReservation demo_store 1
       = Some (demo_order 2 OrderStatusToPickUp ''2024-01-01 10:00:01'' None)
   \<and> satisfies_filters demo_store 1 (demo_order 2 OrderStatusToPickUp ''2024-01-01 10:00:01'' None)
   \<and> \<not> satisfies_filters demo_store 1 (demo_order 3 OrderStatusPlaced ''2024-01-01 10:00:02'' (Some ''1''))"
proof -
  have pk: "primary_key_orders demo_store"
    by (simp add: primary_key_orders_def demo_store_def demo_order_def)
  have run: "FindNextAvailableForReservation demo_store 1
             = Some (demo_order 2 OrderStatusToPickUp ''2024-01-01 10:00:01'' None)"
    by (simp add: FindNextAvailableForReservation_def demo_store_def demo_order_def demo_drone_def
        left_join_drones_def where_clause_def path_clause_def order_by_key_def instr_def
        FormatInt_def dec_nat.simps digit_char_def)
  have third: "\<not> satisfies_filters demo_store 1
                   (demo_order 3 OrderStatusPlaced ''2024-01-01 10:00:02'' (Some ''1''))"
    by (simp add: satisfies_filters_def in_dronePath_def demo_order_def FormatInt_def
        dec_nat.simps digit_char_def)
  from find_next_policy[OF pk, of 1 "demo_order 2 OrderStatusToPickUp ''2024-01-01 10:00:01'' None"]
    run
  have "satisfies_filters demo_store 1 (demo_order 2 OrderStatusToPickUp ''2024-01-01 10:00:01'' None)"
    by blast
  with pk run third show ?thesis by blast
qed

section \<open>Drone and admin operations\<close>

lemma pickup_point_case:
  "(case (oStatus ord = OrderStatusToPickUp, PickupLat ord, PickupLng ord) of
      (True, Some plat, Some plng) \<Rightarrow> (plat, plng)
    | _ \<Rightarrow> (OriginLat ord, OriginLng ord)) = pickup_point ord"
  by (auto simp: pickup_point_def split: option.splits bool.splits)

lemma ToLower_drone: "ToLower ''drone'' = ''drone''"
  by (simp add: ToLower_def)

lemma ToLower_admin: "ToLower ''admin'' = ''admin''"
  by (simp add: ToLower_def)

lemma RequireDrone_ctx: "RequireDrone (drone_ctx n) = Inr \<lparr>pName = n, pKind = ''drone''\<rparr>"
  by (simp add: RequireDrone_def RequireKind_def RequirePrincipal_def drone_ctx_def ToLower_drone)

lemmas float64_ops = zero_float64_def one_float64_def uminus_float64_def plus_float64_def
  minus_float64_def times_float64_def divide_float64_def less_eq_float64_def less_float64_def

lemma Haversine_same: "HaversineMiles (Fin a) (Fin b) (Fin a) (Fin b) = Fin 0"
  by (simp add: HaversineMiles_def atan2_def Let_def float64_ops EarthRadiusMiles_def)

lemma Haversine_same_0: "HaversineMiles 0 0 0 0 = 0" "HaversineMiles 1 1 1 1 = 0"
  using Haversine_same[of 0 0] Haversine_same[of 1 1]
  by (simp_all add: zero_float64_def one_float64_def)

lemma zero_plus_float64: "(0::float64) + b = b"
  by (cases b) (simp_all add: float64_ops)

text \<open>
  Claim C6. For a drone that resolves to row \<open>dr\<close> with an assigned order that the store
  returns as \<open>ord\<close>, \<open>GetAssignedOrder\<close> returns the order with an ETA that is 0 when the
  speed is at most 0; otherwise (whenever that comparison is false) the distance from the
  drone to the start plus the distance from the start to the destination, over the speed,
  times 3600, when the status is placed or to-pick-up (the start being \<open>pickup_point\<close>); the
  distance from the drone to the destination over the speed times 3600 when en route; and 0
  for the terminal statuses.
\<close>

theorem get_assigned_order_eta:
  assumes "RequireDrone ctx = Inr p"
    and "resolveDrone flt s (pName p) = Inr dr"
    and "AssignedJob dr = Some job"
    and "\<not> flt At_GetOrder"
    and "Orders_GetByID s job = Some ord"
  shows "(\<exists>eta. GetAssignedOrder flt ctx s = Inr (toProtoOrder (Some ord), eta)
           \<and> (SpeedMPH dr \<le> 0 \<longrightarrow> eta = 0)
           \<and> (\<not> SpeedMPH dr \<le> 0
                \<and> (oStatus ord = OrderStatusPlaced \<or> oStatus ord = OrderStatusToPickUp)
                \<longrightarrow> eta = (HaversineMiles (Lat dr) (Lng dr) (fst (pickup_point ord)) (snd (pickup_point ord))
                            + HaversineMiles (fst (pickup_point ord)) (snd (pickup_point ord))
                                (DestLat ord) (DestLng ord))
                           / SpeedMPH dr * Fin 3600)
           \<and> (\<not> SpeedMPH dr \<le> 0 \<and> oStatus ord = OrderStatusEnRoute
                \<longrightarrow> eta = HaversineMiles (Lat dr) (Lng dr) (DestLat ord) (DestLng ord)
                           / SpeedMPH dr * Fin 3600)
           \<and> (\<not> SpeedMPH dr \<le> 0 \<and> terminal (oStatus ord) \<longrightarrow> eta = 0))"
proof -
  have run: "GetAssignedOrder flt ctx s = Inr (toProtoOrder (Some ord), calculateETA ord dr)"
    using assms by (simp add: GetAssignedOrder_def db_query_def)
  have "SpeedMPH dr \<le> 0 \<longrightarrow> calculateETA ord dr = 0"
    by (simp add: calculateETA_def)
  moreover have "\<not> SpeedMPH dr \<le> 0
      \<and> (oStatus ord = OrderStatusPlaced \<or> oStatus ord = OrderStatusToPickUp)
      \<longrightarrow> calculateETA ord dr =
          (HaversineMiles (Lat dr) (Lng dr) (fst (pickup_point ord)) (snd (pickup_point ord))
           + HaversineMiles (fst (pickup_point ord)) (snd (pickup_point ord)) (DestLat ord) (DestLng ord))
          / SpeedMPH dr * Fin 3600"
    unfolding calculateETA_def pickup_point_case by (auto simp: case_prod_beta)
  moreover have "\<not> SpeedMPH dr \<le> 0 \<and> oStatus ord = OrderStatusEnRoute
      \<longrightarrow> calculateETA ord dr =
          HaversineMiles (Lat dr) (Lng dr) (DestLat ord) (DestLng ord) / SpeedMPH dr * Fin 3600"
    by (simp add: calculateETA_def)
  moreover have "\<not> SpeedMPH dr \<le> 0 \<and> terminal (oStatus ord) \<longrightarrow> calculateETA ord dr = 0"
    by (auto simp: calculateETA_def terminal_def)
  ultimately show ?thesis using run by blast
qed

lemma resolve_d1_pickup: "resolveDrone no_faults demo_pickup ''d1'' = Inr (demo_drone 1 ''d1'' (Some 1))"
  by (simp add: resolveDrone_def db_query_def no_faults_def Drones_GetBySerial_def demo_pickup_def
      demo_drone_def)

theorem get_assigned_order_eta_witness:
  "RequireDrone (drone_ctx ''d1'') = Inr \<lparr>pName = ''d1'', pKind = ''drone''\<rparr>
   \<and> resolveDrone no_faults demo_pickup ''d1'' = Inr (demo_drone 1 ''d1'' (Some 1))
   \<and> Orders_GetByID demo_pickup 1
       = Some (demo_order 1 OrderStatusPlaced ''2024-01-01 10:00:00'' (Some ''1''))
   \<and> (\<exists>eta. GetAssignedOrder no_faults (drone_ctx ''d1'') demo_pickup
          = Inr (toProtoOrder (Some (demo_order 1 OrderStatusPlaced ''2024-01-01 10:00:00'' (Some ''1''))), eta)
        \<and> eta = HaversineMiles 0 0 1 1 / Fin 10 * Fin 3600)"
proof -
  let ?ord = "demo_order 1 OrderStatusPlaced ''2024-01-01 10:00:00'' (Some ''1'')"
  let ?dr = "demo_drone 1 ''d1'' (Some 1)"
  have a: "RequireDrone (drone_ctx ''d1'') = Inr \<lparr>pName = ''d1'', pKind = ''drone''\<rparr>"
    by (rule RequireDrone_ctx)
  have b: "resolveDrone no_faults demo_pickup (pName \<lparr>pName = ''d1'', pKind = ''drone''\<rparr>) = Inr ?dr"
    by (simp add: resolve_d1_pickup)
  have c: "AssignedJob ?dr = Some 1" by (simp add: demo_drone_def)
  have d: "\<not> no_faults At_GetOrder" by (simp add: no_faults_def)
  have e: "Orders_GetByID demo_pickup 1 = Some ?ord"
    by (simp add: Orders_GetByID_def demo_pickup_def demo_order_def)
  have pp: "pickup_point ?ord = (0, 0)" by (simp add: pickup_point_def demo_order_def)
  from get_assigned_order_eta[OF a b c d e] obtain eta where
    r: "GetAssignedOrder no_faults (drone_ctx ''d1'') demo_pickup = Inr (toProtoOrder (Some ?ord), eta)"
    and v: "\<not> SpeedMPH ?dr \<le> 0
       \<and> (oStatus ?ord = OrderStatusPlaced \<or> oStatus ?ord = OrderStatusToPickUp)
       \<longrightarrow> eta = (HaversineMiles (Lat ?dr) (Lng ?dr) (fst (pickup_point ?ord)) (snd (pickup_point ?ord))
                            + HaversineMiles (fst (pickup_point ?ord)) (snd (pickup_point ?ord))
                                (DestLat ?ord) (DestLng ?ord))
                           / SpeedMPH ?dr * Fin 3600"
    by blast
  have slow: "\<not> SpeedMPH ?dr \<le> 0" by (simp add: demo_drone_def float64_ops)
  have flds: "Lat ?dr = 0" "Lng ?dr = 0" "SpeedMPH ?dr = Fin 10" "DestLat ?ord = 1" "DestLng ?ord = 1"
    "oStatus ?ord = OrderStatusPlaced"
    by (simp_all add: demo_order_def demo_drone_def)
  from v slow flds(6)
  have "eta = (HaversineMiles (Lat ?dr) (Lng ?dr) (fst (pickup_point ?ord)) (snd (pickup_point ?ord))
                            + HaversineMiles (fst (pickup_point ?ord)) (snd (pickup_point ?ord))
                                (DestLat ?ord) (DestLng ?ord))
                           / SpeedMPH ?dr * Fin 3600"
    by blast
  then have "eta = HaversineMiles 0 0 1 1 / Fin 10 * Fin 3600"
    unfolding pp flds fst_conv snd_conv by (simp add: Haversine_same_0 zero_plus_float64)
  with a b e r show ?thesis by (simp add: resolve_d1_pickup)
qed



lemma trim_admin: "ToLower (TrimSpace ''admin'') = ''admin''"
  by (simp add: ToLower_def TrimSpace_def is_space_def)


text \<open>
  Claim C7. When the drone carries an en-route order and the write that sets the order to
  to-pick-up fails, \<open>MarkBroken\<close> returns an Internal error and leaves the store, hence the
  drone's status, as it was.
\<close>

theorem mark_broken_handoff_write_fails:
  assumes "RequireDrone ctx = Inr p"
    and "resolveDrone flt s (pName p) = Inr dr"
    and "AssignedJob dr = Some job"
    and "\<not> flt At_GetOrder"
    and "Orders_GetByID s job = Some ord"
    and "oStatus ord = OrderStatusEnRoute"
    and "flt At_UpdateOrderStatus"
  shows "MarkBroken flt ctx s = (Inl (Internal, ''update status''), s)
         \<and> Drones_GetByID (snd (MarkBroken flt ctx s)) (dID dr) = Drones_GetByID s (dID dr)"
  using assms by (simp add: MarkBroken_def MarkBroken_handoff_def db_query_def db_exec_def)

lemma resolve_d1_flight:
  "resolveDrone handoff_write_fails demo_flight ''d1'' = Inr (demo_drone 1 ''d1'' (Some 1))"
  by (simp add: resolveDrone_def db_query_def handoff_write_fails_def Drones_GetBySerial_def
      demo_flight_def demo_drone_def)

theorem mark_broken_handoff_write_fails_witness:
  "RequireDrone (drone_ctx ''d1'') = Inr \<lparr>pName = ''d1'', pKind = ''drone''\<rparr>
   \<and> resolveDrone handoff_write_fails demo_flight ''d1'' = Inr (demo_drone 1 ''d1'' (Some 1))
   \<and> Orders_GetByID demo_flight 1
       = Some (demo_order 1 OrderStatusEnRoute ''2024-01-01 10:00:00'' (Some ''1''))
   \<and> MarkBroken handoff_write_fails (drone_ctx ''d1'') demo_flight
       = (Inl (Internal, ''update status''), demo_flight)
   \<and> map_option dStatus (Drones_GetByID demo_flight 1) = Some DroneStatusFixed"
proof -
  let ?ord = "demo_order 1 OrderStatusEnRoute ''2024-01-01 10:00:00'' (Some ''1'')"
  let ?dr = "demo_drone 1 ''d1'' (Some 1)"
  have a: "RequireDrone (drone_ctx ''d1'') = Inr \<lparr>pName = ''d1'', pKind = ''drone''\<rparr>"
    by (rule RequireDrone_ctx)
  have b: "resolveDrone handoff_write_fails demo_flight (pName \<lparr>pName = ''d1'', pKind = ''drone''\<rparr>)
           = Inr ?dr"
    by (simp add: resolve_d1_flight)
  have c: "AssignedJob ?dr = Some 1" by (simp add: demo_drone_def)
  have d: "\<not> handoff_write_fails At_GetOrder" by (simp add: handoff_write_fails_def)
  have e: "Orders_GetByID demo_flight 1 = Some ?ord"
    by (simp add: Orders_GetByID_def demo_flight_def demo_order_def)
  have f: "oStatus ?ord = OrderStatusEnRoute" by (simp add: demo_order_def)
  have g: "handoff_write_fails At_UpdateOrderStatus" by (simp add: handoff_write_fails_def)
  have h: "map_option dStatus (Drones_GetByID demo_flight 1) = Some DroneStatusFixed"
    by (simp add: Drones_GetByID_def demo_flight_def demo_drone_def)
  from mark_broken_handoff_write_fails[OF a b c d e f g] a e h show ?thesis
    by (simp add: resolve_d1_flight)
qed

lemma find_id_map:
  assumes "\<And>x. oID (f x) = oID x"
  shows "find (\<lambda>x. oID x = i) (map f xs) = map_option f (find (\<lambda>x. oID x = i) xs)"
  using assms by (induction xs) auto

lemma GetByID_id: "Orders_GetByID s i = Some ord \<Longrightarrow> oID ord = i"
  by (auto simp: Orders_GetByID_def find_Some_iff)

lemma GetByID_mem: "Orders_GetByID s i = Some ord \<Longrightarrow> ord \<in> set (orders s)"
  by (auto simp: Orders_GetByID_def find_Some_iff)

lemma within_radius_iff:
  assumes "HaversineMiles a b c d \<noteq> NaN"
  shows "IsWithinRadius a b c d RadiusFeet = (\<not> HaversineMiles a b c d > FeetToMiles RadiusFeet)"
  using assms
  by (cases "HaversineMiles a b c d")
     (simp_all add: IsWithinRadius_def FeetToMiles_def FeetPerMile_def RadiusFeet_def float64_ops
        field_simps not_less)

lemma nan_distance:
  assumes "HaversineMiles a b c d = NaN"
  shows "\<not> IsWithinRadius a b c d RadiusFeet" and "\<not> HaversineMiles a b c d > FeetToMiles RadiusFeet"
  using assms
  by (simp_all add: IsWithinRadius_def FeetToMiles_def FeetPerMile_def RadiusFeet_def float64_ops)

text \<open>
  What \<open>GrabOrder\<close> does when the distance to the pickup target is a number (not NaN), for a
  drone whose assigned order the store returns as \<open>ord\<close>: unless the status is placed or
  to-pick-up and the drone is within 100 feet of the pickup target, it fails with
  FailedPrecondition and changes nothing; when it succeeds, both conditions held and the
  order's row now has status en-route; and it does succeed under the two conditions when the
  status write goes through.
\<close>

theorem grab_order_preconditions:
  assumes "RequireDrone ctx = Inr p"
    and "resolveDrone flt s (pName p) = Inr dr"
    and "AssignedJob dr = Some job"
    and "\<not> flt At_GetOrder"
    and "Orders_GetByID s job = Some ord"
    and number: "HaversineMiles (Lat dr) (Lng dr) (fst (pickup_point ord)) (snd (pickup_point ord))
                 \<noteq> NaN"
  shows "(\<not> ((oStatus ord = OrderStatusPlaced \<or> oStatus ord = OrderStatusToPickUp)
             \<and> IsWithinRadius (Lat dr) (Lng dr) (fst (pickup_point ord)) (snd (pickup_point ord))
                  RadiusFeet)
          \<longrightarrow> (\<exists>msg. GrabOrder flt ctx s = (Inl (FailedPrecondition, msg), s)))
       \<and> (\<forall>resp s'. GrabOrder flt ctx s = (Inr resp, s')
            \<longrightarrow> (oStatus ord = OrderStatusPlaced \<or> oStatus ord = OrderStatusToPickUp)
                \<and> IsWithinRadius (Lat dr) (Lng dr) (fst (pickup_point ord)) (snd (pickup_point ord))
                     RadiusFeet
                \<and> Orders_GetByID s' (oID ord) = Some (ord\<lparr>oStatus := OrderStatusEnRoute\<rparr>))
       \<and> ((oStatus ord = OrderStatusPlaced \<or> oStatus ord = OrderStatusToPickUp)
           \<and> IsWithinRadius (Lat dr) (Lng dr) (fst (pickup_point ord)) (snd (pickup_point ord))
                RadiusFeet
           \<and> \<not> flt At_UpdateOrderStatus
          \<longrightarrow> (\<exists>resp s'. GrabOrder flt ctx s = (Inr resp, s')))"
proof -
  let ?grabbable = "oStatus ord = OrderStatusPlaced \<or> oStatus ord = OrderStatusToPickUp"
  let ?near = "IsWithinRadius (Lat dr) (Lng dr) (fst (pickup_point ord)) (snd (pickup_point ord))
                 RadiusFeet"
  let ?s1 = "s\<lparr>orders := map (\<lambda>x. if oID x = oID ord then x\<lparr>oStatus := OrderStatusEnRoute\<rparr> else x)
                            (orders s)\<rparr>"
  have id: "oID ord = job" using assms(5) by (rule GetByID_id)
  have after: "Orders_GetByID ?s1 (oID ord) = Some (ord\<lparr>oStatus := OrderStatusEnRoute\<rparr>)"
    using assms(5) id by (simp add: Orders_GetByID_def find_id_map)
  have unfold: "GrabOrder flt ctx s =
      (if \<not> ?grabbable then (Inl (FailedPrecondition, ''cannot grab order with status''), s)
       else if \<not> ?near then (Inl (FailedPrecondition, ''not within pickup radius''), s)
       else if flt At_UpdateOrderStatus then (Inl (Internal, ''set en route''), s)
       else (Inr (toProtoOrder (case db_query flt At_GetOrderAgain (Orders_GetByID ?s1 (oID ord)) of
                                  Inl e \<Rightarrow> None | Inr again \<Rightarrow> again)), ?s1))"
    unfolding GrabOrder_def pickup_point_case within_radius_iff[OF number] using assms(1-5)
    by (simp add: db_query_def db_exec_def Orders_UpdateStatus_def case_prod_beta)
  have fail: "\<not> (?grabbable \<and> ?near) \<longrightarrow> (\<exists>msg. GrabOrder flt ctx s = (Inl (FailedPrecondition, msg), s))"
    unfolding unfold by auto
  have succ: "\<forall>resp s'. GrabOrder flt ctx s = (Inr resp, s')
            \<longrightarrow> ?grabbable \<and> ?near
                \<and> Orders_GetByID s' (oID ord) = Some (ord\<lparr>oStatus := OrderStatusEnRoute\<rparr>)"
    unfolding unfold using after by (auto split: if_splits)
  have live: "?grabbable \<and> ?near \<and> \<not> flt At_UpdateOrderStatus
          \<longrightarrow> (\<exists>resp s'. GrabOrder flt ctx s = (Inr resp, s'))"
    unfolding unfold by auto
  from fail succ live show ?thesis by blast
qed

theorem grab_order_preconditions_witness:
  "RequireDrone (drone_ctx ''d1'') = Inr \<lparr>pName = ''d1'', pKind = ''drone''\<rparr>
   \<and> resolveDrone no_faults demo_pickup ''d1'' = Inr (demo_drone 1 ''d1'' (Some 1))
   \<and> Orders_GetByID demo_pickup 1
       = Some (demo_order 1 OrderStatusPlaced ''2024-01-01 10:00:00'' (Some ''1''))
   \<and> IsWithinRadius 0 0 0 0 RadiusFeet
   \<and> (\<exists>resp s'. GrabOrder no_faults (drone_ctx ''d1'') demo_pickup = (Inr resp, s')
         \<and> Orders_GetByID s' 1
             = Some (demo_order 1 OrderStatusEnRoute ''2024-01-01 10:00:00'' (Some ''1'')))"
proof -
  let ?ord = "demo_order 1 OrderStatusPlaced ''2024-01-01 10:00:00'' (Some ''1'')"
  let ?dr = "demo_drone 1 ''d1'' (Some 1)"
  have a: "RequireDrone (drone_ctx ''d1'') = Inr \<lparr>pName = ''d1'', pKind = ''drone''\<rparr>"
    by (rule RequireDrone_ctx)
  have b: "resolveDrone no_faults demo_pickup (pName \<lparr>pName = ''d1'', pKind = ''drone''\<rparr>) = Inr ?dr"
    by (simp add: resolve_d1_pickup)
  have c: "AssignedJob ?dr = Some 1" by (simp add: demo_drone_def)
  have d: "\<not> no_faults At_GetOrder" by (simp add: no_faults_def)
  have e: "Orders_GetByID demo_pickup 1 = Some ?ord"
    by (simp add: Orders_GetByID_def demo_pickup_def demo_order_def)
  have near0: "IsWithinRadius 0 0 0 0 RadiusFeet"
    by (simp add: IsWithinRadius_def Haversine_same RadiusFeet_def FeetPerMile_def float64_ops)
  have number: "HaversineMiles (Lat ?dr) (Lng ?dr) (fst (pickup_point ?ord)) (snd (pickup_point ?ord))
                \<noteq> NaN"
    by (simp add: pickup_point_def demo_order_def demo_drone_def Haversine_same zero_float64_def)
  have near: "IsWithinRadius (Lat ?dr) (Lng ?dr) (fst (pickup_point ?ord)) (snd (pickup_point ?ord))
                RadiusFeet"
    using near0 by (simp add: pickup_point_def demo_order_def demo_drone_def)
  have st: "oStatus ?ord = OrderStatusPlaced" by (simp add: demo_order_def)
  have nf: "\<not> no_faults At_UpdateOrderStatus" by (simp add: no_faults_def)
  note grab = grab_order_preconditions[OF a b c d e number]
  from grab st near nf obtain resp s' where
    run: "GrabOrder no_faults (drone_ctx ''d1'') demo_pickup = (Inr resp, s')" by blast
  with grab have "Orders_GetByID s' (oID ?ord) = Some (?ord\<lparr>oStatus := OrderStatusEnRoute\<rparr>)"
    by blast
  then have "Orders_GetByID s' 1
             = Some (demo_order 1 OrderStatusEnRoute ''2024-01-01 10:00:00'' (Some ''1''))"
    by (simp add: demo_order_def)
  with run a e near0 show ?thesis by (simp add: resolve_d1_pickup)
qed

lemma heartbeat_inf_run:
  "Heartbeat no_faults (drone_ctx ''d1'') (Some heartbeat_inf) demo_pickup
   = (Inr (), demo_pickup\<lparr>drones := [(demo_drone 1 ''d1'' (Some 1))\<lparr>Lat := PosInf\<rparr>,
                                      demo_drone 2 ''d2'' None]\<rparr>)"
proof -
  have nf: "\<And>c. no_faults c = False" by (simp add: no_faults_def)
  show ?thesis
    apply (simp add: Heartbeat_def RequireDrone_ctx heartbeat_inf_def resolve_d1_pickup)
    apply (simp add: db_exec_def nf Drones_UpdateLocationAndSpeed_def sql_real_def demo_pickup_def
        demo_drone_def zero_float64_def)
    done
qed

lemma Haversine_inf: "HaversineMiles PosInf (Fin b) (Fin c) (Fin d) = NaN"
  by (simp add: HaversineMiles_def Let_def float64_ops EarthRadiusMiles_def)


text \<open>
  Claim C5 at a failing input. \<open>Heartbeat\<close> stores the coordinates it receives; drone
  \<open>d1\<close>, holding the placed order 1 whose origin is (0, 0), has reported latitude \<open>+Inf\<close>.
  The Haversine distance to the origin is then NaN, the comparison
  \<^verbatim>\<open>distance > geo.FeetToMiles(geo.RadiusFeet)\<close> of line 132 is false, and \<open>GrabOrder\<close>
  succeeds and sets the order en route, although the drone is not within 100 feet of the
  pickup target: \<^verbatim>\<open>geo.IsWithinRadius\<close>, which compares with \<^verbatim>\<open><=\<close>, says so.
\<close>

theorem grab_order_nan_distance:
  "Heartbeat no_faults (drone_ctx ''d1'') (Some heartbeat_inf) demo_pickup = (Inr (), demo_adrift)
   \<and> drones demo_adrift
       = [(demo_drone 1 ''d1'' (Some 1))\<lparr>Lat := PosInf\<rparr>, demo_drone 2 ''d2'' None]
   \<and> orders demo_adrift = [demo_order 1 OrderStatusPlaced ''2024-01-01 10:00:00'' (Some ''1'')]
   \<and> HaversineMiles PosInf 0 0 0 = NaN
   \<and> \<not> IsWithinRadius PosInf 0 0 0 RadiusFeet
   \<and> fst (GrabOrder no_faults (drone_ctx ''d1'') demo_adrift)
       = Inr (Some \<lparr>Id = 1, Origin = (0, 0), Destination = (1, 1), Status = Status_EN_ROUTE,
                    ProtoSubmittedBy = 1, PlacementDate = ''2024-01-01 10:00:00''\<rparr>)
   \<and> status_of (snd (GrabOrder no_faults (drone_ctx ''d1'') demo_adrift)) 1
       = Some OrderStatusEnRoute"
proof -
  let ?dr = "(demo_drone 1 ''d1'' (Some 1))\<lparr>Lat := PosInf\<rparr>"
  let ?ord = "demo_order 1 OrderStatusPlaced ''2024-01-01 10:00:00'' (Some ''1'')"
  have nf: "\<And>c. no_faults c = False" by (simp add: no_faults_def)
  have ad: "demo_adrift = demo_pickup\<lparr>drones := [?dr, demo_drone 2 ''d2'' None]\<rparr>"
    by (simp add: demo_adrift_def heartbeat_inf_run)
  have hb: "Heartbeat no_faults (drone_ctx ''d1'') (Some heartbeat_inf) demo_pickup
            = (Inr (), demo_adrift)"
    by (simp add: ad heartbeat_inf_run)
  have dr: "drones demo_adrift = [?dr, demo_drone 2 ''d2'' None]" by (simp add: ad)
  have os: "orders demo_adrift = [?ord]" by (simp add: ad demo_pickup_def)
  have nan: "HaversineMiles PosInf 0 0 0 = NaN"
    using Haversine_inf[of 0 0 0] by (simp add: zero_float64_def)
  have far: "\<not> IsWithinRadius PosInf 0 0 0 RadiusFeet"
    by (rule nan_distance(1)[OF nan])
  have pass: "\<not> HaversineMiles PosInf 0 0 0 > FeetToMiles RadiusFeet"
    by (rule nan_distance(2)[OF nan])
  have res: "resolveDrone no_faults demo_adrift ''d1'' = Inr ?dr"
    by (simp add: resolveDrone_def db_query_def nf Drones_GetBySerial_def dr demo_drone_def)
  have g: "Orders_GetByID demo_adrift 1 = Some ?ord"
    by (simp add: Orders_GetByID_def os demo_order_def)
  have flds: "AssignedJob ?dr = Some 1" "Lat ?dr = PosInf" "Lng ?dr = 0"
    "oStatus ?ord = OrderStatusPlaced" "OriginLat ?ord = 0" "OriginLng ?ord = 0" "oID ?ord = 1"
    by (simp_all add: demo_drone_def demo_order_def)
  have run: "GrabOrder no_faults (drone_ctx ''d1'') demo_adrift
        = (Inr (Some \<lparr>Id = 1, Origin = (0, 0), Destination = (1, 1), Status = Status_EN_ROUTE,
                    ProtoSubmittedBy = 1, PlacementDate = ''2024-01-01 10:00:00''\<rparr>),
           demo_adrift\<lparr>orders := [demo_order 1 OrderStatusEnRoute ''2024-01-01 10:00:00'' (Some ''1'')]\<rparr>)"
    apply (simp add: GrabOrder_def RequireDrone_ctx res g flds pass db_query_def nf)
    apply (simp add: db_exec_def db_query_def nf Orders_UpdateStatus_def Orders_GetByID_def os
        toProtoOrder_def toProtoStatus_def demo_order_def)
    done
  have st: "status_of (snd (GrabOrder no_faults (drone_ctx ''d1'') demo_adrift)) 1
       = Some OrderStatusEnRoute"
    unfolding run by (simp add: status_of_def Orders_GetByID_def demo_order_def)
  from hb dr os nan far st show ?thesis by (simp add: run)
qed

text \<open>
  Claim C10. A successful \<open>UpdateOrderLocation\<close> is on an existing order, rewrites the four
  coordinates of the rows with that id and nothing else: ids, statuses, placement dates,
  submitters, pickup coordinates and drone paths of all orders are as before, whatever the
  status, and the drones and users tables are unchanged.
\<close>

theorem update_order_location_frame:
  assumes "UpdateOrderLocation flt ctx req s = (Inr resp, s')"
  shows "\<exists>r origin dest.
           req = Some r \<and> LocOrigin r = Some origin \<and> LocDestination r = Some dest
           \<and> Orders_GetByID s (LocOrderId r) \<noteq> None
           \<and> orders s' = map (\<lambda>x. if oID x = LocOrderId r
                                   then x\<lparr>OriginLat := fst origin, OriginLng := snd origin,
                                          DestLat := fst dest, DestLng := snd dest\<rparr>
                                   else x) (orders s)
           \<and> map oID (orders s') = map oID (orders s)
           \<and> map oStatus (orders s') = map oStatus (orders s)
           \<and> map PlacementAt (orders s') = map PlacementAt (orders s)
           \<and> map SubmittedBy (orders s') = map SubmittedBy (orders s)
           \<and> map PickupLat (orders s') = map PickupLat (orders s)
           \<and> map PickupLng (orders s') = map PickupLng (orders s)
           \<and> map DronePath (orders s') = map DronePath (orders s)
           \<and> drones s' = drones s \<and> users s' = users s"
proof -
  from assms obtain r origin dest where
    req: "req = Some r" "LocOrigin r = Some origin" "LocDestination r = Some dest"
      "LocOrderId r \<noteq> 0"
    by (auto simp: UpdateOrderLocation_def split: sum.splits option.splits bool.splits if_splits)
  let ?f = "\<lambda>x. if oID x = LocOrderId r
                 then x\<lparr>OriginLat := fst origin, OriginLng := snd origin,
                        DestLat := fst dest, DestLng := snd dest\<rparr>
                 else x"
  from assms req have ex: "list_ex (\<lambda>x. oID x = LocOrderId r) (orders s)"
    and s': "s' = s\<lparr>orders := map ?f (orders s)\<rparr>"
    by (auto simp: UpdateOrderLocation_def db_exec_def Orders_UpdateLocations_def
        split: sum.splits option.splits if_splits)
  from ex have found: "Orders_GetByID s (LocOrderId r) \<noteq> None"
    by (auto simp: Orders_GetByID_def list_ex_iff find_None_iff)
  have os: "orders s' = map ?f (orders s)" and ds: "drones s' = drones s"
    and us: "users s' = users s"
    using s' by simp_all
  have m1: "map oID (orders s') = map oID (orders s)"
    and m2: "map oStatus (orders s') = map oStatus (orders s)"
    and m3: "map PlacementAt (orders s') = map PlacementAt (orders s)"
    and m4: "map SubmittedBy (orders s') = map SubmittedBy (orders s)"
    and m5: "map PickupLat (orders s') = map PickupLat (orders s)"
    and m6: "map PickupLng (orders s') = map PickupLng (orders s)"
    and m7: "map DronePath (orders s') = map DronePath (orders s)"
    unfolding os by (simp_all add: comp_def)
  from req(1-3) found os m1 m2 m3 m4 m5 m6 m7 ds us show ?thesis by blast
qed

lemma find_did_map:
  assumes "\<And>x. dID (f x) = dID x"
  shows "find (\<lambda>x. dID x = i) (map f xs) = map_option f (find (\<lambda>x. dID x = i) xs)"
  using assms by (induction xs) auto

lemma resolveDrone_mem: "resolveDrone flt s n = Inr dr \<Longrightarrow> dr \<in> set (drones s)"
  by (auto simp: resolveDrone_def db_query_def Drones_GetBySerial_def Drones_GetByName_def
      find_Some_iff split: if_splits option.splits)

theorem update_order_location_frame_witness:
  "\<exists>resp s'. UpdateOrderLocation no_faults (admin_ctx ''root'')
       (Some \<lparr>LocOrderId = 1, LocOrigin = Some (Fin 2, Fin 3), LocDestination = Some (Fin 4, Fin 5)\<rparr>) demo_flight
       = (Inr resp, s')
     \<and> orders s' = [(demo_order 1 OrderStatusEnRoute ''2024-01-01 10:00:00'' (Some ''1''))
                       \<lparr>OriginLat := Fin 2, OriginLng := Fin 3, DestLat := Fin 4, DestLng := Fin 5\<rparr>]
     \<and> map oStatus (orders s') = [OrderStatusEnRoute]
     \<and> drones s' = drones demo_flight"
proof -
  let ?req = "Some \<lparr>LocOrderId = 1, LocOrigin = Some (Fin 2, Fin 3), LocDestination = Some (Fin 4, Fin 5)\<rparr>"
  have adm: "RequireAdmin no_faults (admin_ctx ''root'') (Some demo_flight)
             = Inr \<lparr>pName = ''root'', pKind = ''admin''\<rparr>"
    by (simp add: RequireAdmin_def RequireKind_def RequirePrincipal_def db_query_def ToLower_admin
        admin_ctx_def no_faults_def Users_GetByUsername_def demo_flight_def demo_users_def trim_admin)
  have "\<exists>resp s'. UpdateOrderLocation no_faults (admin_ctx ''root'') ?req demo_flight = (Inr resp, s')"
    unfolding UpdateOrderLocation_def adm
    by (simp add: db_exec_def db_query_def no_faults_def sql_real_def
        Orders_UpdateLocations_def Orders_GetByID_def demo_flight_def demo_order_def)
  then obtain resp s' where
    run: "UpdateOrderLocation no_faults (admin_ctx ''root'') ?req demo_flight = (Inr resp, s')"
    by blast
  from update_order_location_frame[OF run]
  have "orders s' = [(demo_order 1 OrderStatusEnRoute ''2024-01-01 10:00:00'' (Some ''1''))
                       \<lparr>OriginLat := Fin 2, OriginLng := Fin 3, DestLat := Fin 4, DestLng := Fin 5\<rparr>]"
    and "map oStatus (orders s') = [OrderStatusEnRoute]"
    and "drones s' = drones demo_flight"
    by (auto simp: demo_flight_def demo_order_def)
  with run show ?thesis by (intro exI[of _ resp] exI[of _ s']) simp
qed

text \<open>
  Claim C4 at a failing input. Drone \<open>d1\<close> carries the en-route order 1 and the statement of
  \<^verbatim>\<open>UnassignJob\<close> fails. \<open>MarkBroken\<close> discards that error (line 225), where
  \<open>CompleteOrder\<close> (line 187) propagates the error of the same statement: the call succeeds,
  returns the handed-off order and marks the drone broken, and the drone row still holds the
  order, where the claim has the assignment cleared after a successful call.
\<close>

theorem mark_broken_unassign_error_discarded:
  "fst (MarkBroken unassign_fails (drone_ctx ''d1'') demo_flight)
     = Inr (Some \<lparr>Id = 1, Origin = (0, 0), Destination = (1, 1), Status = Status_TO_PICK_UP,
                  ProtoSubmittedBy = 1, PlacementDate = ''2024-01-01 10:00:00''\<rparr>)
   \<and> drones (snd (MarkBroken unassign_fails (drone_ctx ''d1'') demo_flight))
     = [(demo_drone 1 ''d1'' (Some 1))\<lparr>dStatus := DroneStatusBroken\<rparr>, demo_drone 2 ''d2'' None]
   \<and> AssignedJob ((demo_drone 1 ''d1'' (Some 1))\<lparr>dStatus := DroneStatusBroken\<rparr>) = Some 1"
  by (simp add: MarkBroken_def MarkBroken_handoff_def RequireDrone_ctx resolveDrone_def db_query_def
      db_exec_def unassign_fails_def Drones_GetBySerial_def Orders_GetByID_def
      Orders_UpdateStatus_def Orders_UpdatePickupLocation_def Drones_UpdateStatus_def
      Drones_UnassignJob_def toProtoOrder_def toProtoStatus_def demo_flight_def demo_drone_def
      demo_order_def)

lemma handoff_result:
  assumes "MarkBroken_handoff flt dr s = (Inr affected, s1)"
  shows "drones s1 = (if AssignedJob dr \<noteq> None \<and> \<not> flt At_UnassignJob
                       then map (\<lambda>d. if dID d = dID dr then d\<lparr>AssignedJob := None\<rparr> else d) (drones s)
                       else drones s)
       \<and> users s1 = users s
       \<and> (case AssignedJob dr of
            None \<Rightarrow> affected = None \<and> orders s1 = orders s
          | Some job \<Rightarrow>
              \<not> flt At_GetOrder
              \<and> (case Orders_GetByID s job of
                    None \<Rightarrow> affected = None \<and> orders s1 = orders s
                  | Some ord \<Rightarrow>
                      if oStatus ord = OrderStatusEnRoute
                      then affected = Some ord \<and> \<not> flt At_UpdateOrderStatus
                           \<and> \<not> flt At_UpdatePickupLocation
                           \<and> orders s1 =
                               map (\<lambda>x. if oID x = oID ord
                                         then x\<lparr>oStatus := OrderStatusToPickUp,
                                                PickupLat := sql_real (Lat dr), PickupLng := sql_real (Lng dr)\<rparr>
                                         else x) (orders s)
                      else affected = None \<and> orders s1 = orders s))"
  using assms
  by (auto simp: MarkBroken_handoff_def db_query_def db_exec_def Orders_UpdateStatus_def
      Orders_UpdatePickupLocation_def Drones_UnassignJob_def comp_def
      split: option.splits if_splits sum.splits prod.splits
      intro!: map_cong)

lemma mark_broken_success:
  assumes "RequireDrone ctx = Inr p" and "resolveDrone flt s (pName p) = Inr dr"
    and "MarkBroken flt ctx s = (Inr resp, s')"
  shows "\<exists>affected s1. MarkBroken_handoff flt dr s = (Inr affected, s1)
           \<and> \<not> flt At_UpdateDroneStatus
           \<and> s' = s1\<lparr>drones := map (\<lambda>d. if dID d = dID dr then d\<lparr>dStatus := DroneStatusBroken\<rparr>
                                        else d) (drones s1)\<rparr>
           \<and> resp = toProtoOrder
                      (case affected of
                         None \<Rightarrow> None
                       | Some a \<Rightarrow>
                           (case db_query flt At_GetOrderAgain (Orders_GetByID s' (oID a)) of
                              Inl e \<Rightarrow> None | Inr again \<Rightarrow> again))"
  using assms
  by (auto simp: MarkBroken_def db_exec_def Drones_UpdateStatus_def
      split: prod.splits sum.splits if_splits)

text \<open>
  The effect of a successful \<open>MarkBroken\<close> by the drone row \<open>dr\<close>, whatever statements fail:
  the drone's status is broken; its assignment is cleared provided it had one and the
  unassignment statement did not fail; if its order was en route, the order's row has status
  to-pick-up and the drone's coordinates as pickup coordinates, and that row is the order
  returned provided the final re-read does not fail; if it had no order, or one that does not
  exist or is not en route, no order is changed and none is returned. The call succeeds
  whenever the statements whose errors it propagates go through.
\<close>

theorem mark_broken_effect:
  assumes "RequireDrone ctx = Inr p" and "resolveDrone flt s (pName p) = Inr dr"
  shows "(\<forall>resp s'. MarkBroken flt ctx s = (Inr resp, s') \<longrightarrow>
            (\<exists>d \<in> set (drones s'). dID d = dID dr)
          \<and> (\<forall>d \<in> set (drones s'). dID d = dID dr \<longrightarrow> dStatus d = DroneStatusBroken)
          \<and> (AssignedJob dr \<noteq> None \<and> \<not> flt At_UnassignJob
               \<longrightarrow> (\<forall>d \<in> set (drones s'). dID d = dID dr \<longrightarrow> AssignedJob d = None))
          \<and> (\<forall>job ord. AssignedJob dr = Some job \<and> Orders_GetByID s job = Some ord
                   \<and> oStatus ord = OrderStatusEnRoute
               \<longrightarrow> Orders_GetByID s' job
                     = Some (ord\<lparr>oStatus := OrderStatusToPickUp,
                                 PickupLat := sql_real (Lat dr), PickupLng := sql_real (Lng dr)\<rparr>)
                   \<and> (\<not> flt At_GetOrderAgain
                        \<longrightarrow> resp = toProtoOrder
                               (Some (ord\<lparr>oStatus := OrderStatusToPickUp,
                                           PickupLat := sql_real (Lat dr), PickupLng := sql_real (Lng dr)\<rparr>))))
          \<and> (AssignedJob dr = None
               \<or> (\<forall>job ord. AssignedJob dr = Some job \<and> Orders_GetByID s job = Some ord
                      \<longrightarrow> oStatus ord \<noteq> OrderStatusEnRoute)
               \<longrightarrow> orders s' = orders s \<and> resp = None))
       \<and> (\<not> flt At_GetOrder \<and> \<not> flt At_UpdateOrderStatus \<and> \<not> flt At_UpdatePickupLocation
            \<and> \<not> flt At_UpdateDroneStatus
           \<longrightarrow> (\<exists>resp s'. MarkBroken flt ctx s = (Inr resp, s')))"
proof -
  have mem: "dr \<in> set (drones s)" using assms(2) by (rule resolveDrone_mem)
  have post: "(\<exists>d \<in> set (drones s'). dID d = dID dr)
          \<and> (\<forall>d \<in> set (drones s'). dID d = dID dr \<longrightarrow> dStatus d = DroneStatusBroken)
          \<and> (AssignedJob dr \<noteq> None \<and> \<not> flt At_UnassignJob
               \<longrightarrow> (\<forall>d \<in> set (drones s'). dID d = dID dr \<longrightarrow> AssignedJob d = None))
          \<and> (\<forall>job ord. AssignedJob dr = Some job \<and> Orders_GetByID s job = Some ord
                   \<and> oStatus ord = OrderStatusEnRoute
               \<longrightarrow> Orders_GetByID s' job
                     = Some (ord\<lparr>oStatus := OrderStatusToPickUp,
                                 PickupLat := sql_real (Lat dr), PickupLng := sql_real (Lng dr)\<rparr>)
                   \<and> (\<not> flt At_GetOrderAgain
                        \<longrightarrow> resp = toProtoOrder
                               (Some (ord\<lparr>oStatus := OrderStatusToPickUp,
                                           PickupLat := sql_real (Lat dr), PickupLng := sql_real (Lng dr)\<rparr>))))
          \<and> (AssignedJob dr = None
               \<or> (\<forall>job ord. AssignedJob dr = Some job \<and> Orders_GetByID s job = Some ord
                      \<longrightarrow> oStatus ord \<noteq> OrderStatusEnRoute)
               \<longrightarrow> orders s' = orders s \<and> resp = None)"
    if run: "MarkBroken flt ctx s = (Inr resp, s')" for resp s'
  proof -
    from mark_broken_success[OF assms run] obtain affected s1 where
      h: "MarkBroken_handoff flt dr s = (Inr affected, s1)"
      and s': "s' = s1\<lparr>drones := map (\<lambda>d. if dID d = dID dr then d\<lparr>dStatus := DroneStatusBroken\<rparr>
                                          else d) (drones s1)\<rparr>"
      and resp: "resp = toProtoOrder
                      (case affected of
                         None \<Rightarrow> None
                       | Some a \<Rightarrow>
                           (case db_query flt At_GetOrderAgain (Orders_GetByID s' (oID a)) of
                              Inl e \<Rightarrow> None | Inr again \<Rightarrow> again))"
      by blast
    note hr = handoff_result[OF h]
    from hr have d1: "drones s1 = (if AssignedJob dr \<noteq> None \<and> \<not> flt At_UnassignJob
                       then map (\<lambda>d. if dID d = dID dr then d\<lparr>AssignedJob := None\<rparr> else d) (drones s)
                       else drones s)"
      by blast
    have os: "orders s' = orders s1" using s' by simp
    have "map dID (drones s') = map dID (drones s)"
      unfolding s' d1 by (auto intro: map_idI)
    then have "set (map dID (drones s')) = set (map dID (drones s))" by simp
    then have "dID dr \<in> set (map dID (drones s'))" using mem by simp
    then have ex: "\<exists>d \<in> set (drones s'). dID d = dID dr" by auto
    have br: "\<forall>d \<in> set (drones s'). dID d = dID dr \<longrightarrow> dStatus d = DroneStatusBroken"
      unfolding s' by auto
    have un: "AssignedJob dr \<noteq> None \<and> \<not> flt At_UnassignJob
               \<longrightarrow> (\<forall>d \<in> set (drones s'). dID d = dID dr \<longrightarrow> AssignedJob d = None)"
      unfolding s' d1 by auto
    have hand: "Orders_GetByID s' job
                     = Some (ord\<lparr>oStatus := OrderStatusToPickUp,
                                 PickupLat := sql_real (Lat dr), PickupLng := sql_real (Lng dr)\<rparr>)
                   \<and> (\<not> flt At_GetOrderAgain
                        \<longrightarrow> resp = toProtoOrder
                               (Some (ord\<lparr>oStatus := OrderStatusToPickUp,
                                           PickupLat := sql_real (Lat dr), PickupLng := sql_real (Lng dr)\<rparr>)))"
      if c: "AssignedJob dr = Some job" "Orders_GetByID s job = Some ord"
        "oStatus ord = OrderStatusEnRoute" for job ord
    proof -
      have id: "oID ord = job" using c(2) by (rule GetByID_id)
      from hr c have aff: "affected = Some ord"
        and o1: "orders s1 = map (\<lambda>x. if oID x = oID ord
                                         then x\<lparr>oStatus := OrderStatusToPickUp,
                                                PickupLat := sql_real (Lat dr), PickupLng := sql_real (Lng dr)\<rparr>
                                         else x) (orders s)"
        by auto
      have g: "Orders_GetByID s' job
                 = Some (ord\<lparr>oStatus := OrderStatusToPickUp,
                             PickupLat := sql_real (Lat dr), PickupLng := sql_real (Lng dr)\<rparr>)"
        using c(2) id unfolding Orders_GetByID_def os o1 by (simp add: find_id_map)
      then show ?thesis using resp aff id by (simp add: db_query_def)
    qed
    have nohand: "orders s' = orders s \<and> resp = None"
      if c: "AssignedJob dr = None
               \<or> (\<forall>job ord. AssignedJob dr = Some job \<and> Orders_GetByID s job = Some ord
                      \<longrightarrow> oStatus ord \<noteq> OrderStatusEnRoute)"
    proof -
      from hr c have "affected = None \<and> orders s1 = orders s"
        by (auto split: option.splits if_splits)
      then show ?thesis using resp os by (simp add: toProtoOrder_def)
    qed
    from ex br un hand nohand show ?thesis by blast
  qed
  have live: "\<exists>resp s'. MarkBroken flt ctx s = (Inr resp, s')"
    if "\<not> flt At_GetOrder" "\<not> flt At_UpdateOrderStatus" "\<not> flt At_UpdatePickupLocation"
      "\<not> flt At_UpdateDroneStatus"
    using assms that
    by (auto simp: MarkBroken_def MarkBroken_handoff_def db_query_def db_exec_def
        Orders_UpdateStatus_def Orders_UpdatePickupLocation_def Drones_UnassignJob_def
        Drones_UpdateStatus_def split: option.splits)
  from post live show ?thesis by blast
qed

lemma resolve_d1_flight_nf:
  "resolveDrone no_faults demo_flight ''d1'' = Inr (demo_drone 1 ''d1'' (Some 1))"
  by (simp add: resolveDrone_def db_query_def no_faults_def Drones_GetBySerial_def
      demo_flight_def demo_drone_def)

theorem mark_broken_effect_witness:
  "RequireDrone (drone_ctx ''d1'') = Inr \<lparr>pName = ''d1'', pKind = ''drone''\<rparr>
   \<and> resolveDrone no_faults demo_flight ''d1'' = Inr (demo_drone 1 ''d1'' (Some 1))
   \<and> Orders_GetByID demo_flight 1
       = Some (demo_order 1 OrderStatusEnRoute ''2024-01-01 10:00:00'' (Some ''1''))
   \<and> (\<exists>resp s'. MarkBroken no_faults (drone_ctx ''d1'') demo_flight = (Inr resp, s')
        \<and> Orders_GetByID s' 1
            = Some ((demo_order 1 OrderStatusToPickUp ''2024-01-01 10:00:00'' (Some ''1''))
                      \<lparr>PickupLat := Some 0, PickupLng := Some 0\<rparr>)
        \<and> list_all (\<lambda>d. dID d = 1 \<longrightarrow> dStatus d = DroneStatusBroken \<and> AssignedJob d = None) (drones s')
        \<and> list_ex (\<lambda>d. dID d = 1) (drones s'))"
proof -
  let ?ord = "demo_order 1 OrderStatusEnRoute ''2024-01-01 10:00:00'' (Some ''1'')"
  let ?dr = "demo_drone 1 ''d1'' (Some 1)"
  have a: "RequireDrone (drone_ctx ''d1'') = Inr \<lparr>pName = ''d1'', pKind = ''drone''\<rparr>"
    by (rule RequireDrone_ctx)
  have b: "resolveDrone no_faults demo_flight (pName \<lparr>pName = ''d1'', pKind = ''drone''\<rparr>) = Inr ?dr"
    by (simp add: resolve_d1_flight_nf)
  have c: "AssignedJob ?dr = Some 1" by (simp add: demo_drone_def)
  have e: "Orders_GetByID demo_flight 1 = Some ?ord"
    by (simp add: Orders_GetByID_def demo_flight_def demo_order_def)
  have f: "oStatus ?ord = OrderStatusEnRoute" by (simp add: demo_order_def)
  have nf: "\<not> no_faults c" for c by (simp add: no_faults_def)
  note eff = mark_broken_effect[OF a b]
  from eff nf obtain resp s' where
    run: "MarkBroken no_faults (drone_ctx ''d1'') demo_flight = (Inr resp, s')" by blast
  from eff run c e f nf have
    o: "Orders_GetByID s' 1 = Some (?ord\<lparr>oStatus := OrderStatusToPickUp,
                                 PickupLat := sql_real (Lat ?dr), PickupLng := sql_real (Lng ?dr)\<rparr>)"
    and d: "\<forall>d \<in> set (drones s'). dID d = dID ?dr \<longrightarrow> dStatus d = DroneStatusBroken"
    and u: "\<forall>d \<in> set (drones s'). dID d = dID ?dr \<longrightarrow> AssignedJob d = None"
    and x: "\<exists>d \<in> set (drones s'). dID d = dID ?dr"
    by blast+
  from o have o': "Orders_GetByID s' 1
            = Some ((demo_order 1 OrderStatusToPickUp ''2024-01-01 10:00:00'' (Some ''1''))
                      \<lparr>PickupLat := Some 0, PickupLng := Some 0\<rparr>)"
    by (simp add: demo_order_def demo_drone_def sql_real_def zero_float64_def)
  from d u have la: "list_all (\<lambda>d. dID d = 1 \<longrightarrow> dStatus d = DroneStatusBroken \<and> AssignedJob d = None)
                      (drones s')"
    by (simp add: list_all_iff demo_drone_def)
  from x have le: "list_ex (\<lambda>d. dID d = 1) (drones s')"
    by (simp add: list_ex_iff demo_drone_def)
  from a e run o' la le show ?thesis
    by (simp add: resolve_d1_flight_nf)
qed


section \<open>Order statuses and table constraints under each statement\<close>

text \<open>
  What each statement of the repositories does to the status column of \<^verbatim>\<open>orders\<close> and to
  the primary key and the unique column of \<^verbatim>\<open>drones\<close>.
\<close>

lemma status_of_alt: "status_of s i = map_option oStatus (find (\<lambda>x. oID x = i) (orders s))"
  by (simp add: status_of_def Orders_GetByID_def)

lemma find_app:
  "find P (xs @ ys) = (case find P xs of None \<Rightarrow> find P ys | Some x \<Rightarrow> Some x)"
  by (induction xs) auto

lemma lookup_columns:
  assumes "\<And>x. oID (f x) = oID x" and "\<And>x. oStatus (f x) = oStatus x"
  shows "map_option oStatus (find (\<lambda>x. oID x = i) (map f os))
         = map_option oStatus (find (\<lambda>x. oID x = i) os)"
  using assms by (simp add: find_id_map option.map_comp comp_def)

lemma lookup_set_status:
  "map_option oStatus
     (find (\<lambda>x. oID x = i) (map (\<lambda>x. if oID x = j then x\<lparr>oStatus := st\<rparr> else x) os))
   = (if i = j then map_option (\<lambda>_. st) (find (\<lambda>x. oID x = i) os)
      else map_option oStatus (find (\<lambda>x. oID x = i) os))"
proof (cases "find (\<lambda>x. oID x = i) os")
  case None
  then show ?thesis by (auto simp: find_id_map)
next
  case (Some a)
  then have "oID a = i" by (auto simp: find_Some_iff)
  then show ?thesis using Some by (auto simp: find_id_map)
qed

lemma lookup_set_pickup:
  "map_option oStatus
     (find (\<lambda>x. oID x = i)
        (map (\<lambda>x. if oID x = j then x\<lparr>PickupLat := a, PickupLng := b\<rparr> else x) os))
   = map_option oStatus (find (\<lambda>x. oID x = i) os)"
  by (rule lookup_columns) auto

lemma lookup_set_path:
  "map_option oStatus
     (find (\<lambda>x. oID x = i) (map (\<lambda>x. if oID x = j then x\<lparr>DronePath := g x\<rparr> else x) os))
   = map_option oStatus (find (\<lambda>x. oID x = i) os)"
  by (rule lookup_columns) auto

lemma lookup_set_locations:
  "map_option oStatus
     (find (\<lambda>x. oID x = i)
        (map (\<lambda>x. if oID x = j
                  then x\<lparr>OriginLat := a, OriginLng := b, DestLat := c, DestLng := d\<rparr>
                  else x) os))
   = map_option oStatus (find (\<lambda>x. oID x = i) os)"
  by (rule lookup_columns) auto

lemma lookup_insert:
  "find (\<lambda>x. oID x = i) os = Some a \<Longrightarrow> find (\<lambda>x. oID x = i) (os @ [n]) = Some a"
  by (simp add: find_app)

lemmas status_frames = status_of_alt lookup_set_status lookup_set_pickup lookup_set_path
  lookup_set_locations lookup_insert Orders_GetByID_def

lemma ReserveOrder_assign_status:
  "status_of (snd (ReserveOrder_assign flt dr ord s)) i = status_of s i"
  by (auto simp: ReserveOrder_assign_def db_exec_def Drones_AssignJob_def
      Orders_AppendDronePath_def status_frames split: prod.splits if_splits sum.splits)

lemma ReserveOrder_status: "status_of (snd (ReserveOrder flt ctx s)) i = status_of s i"
  by (auto simp: ReserveOrder_def ReserveOrder_assign_status split: sum.splits option.splits)

lemma found_id: "find (\<lambda>x. oID x = j) os = Some a \<Longrightarrow> oID a = j"
  by (auto simp: find_Some_iff)

lemma exec_status_drones:
  "status_of (snd (db_exec flt c (Drones_UnassignJob j) s)) i = status_of s i"
  "status_of (snd (db_exec flt c (Drones_UpdateStatus j b) s)) i = status_of s i"
  "status_of (snd (db_exec flt c (Drones_UpdateLocationAndSpeed j y1 y2 y3) s)) i = status_of s i"
  "status_of (snd (db_exec flt c (Drones_AssignJob j k) s)) i = status_of s i"
  by (simp_all add: db_exec_def Drones_UnassignJob_def Drones_UpdateStatus_def
      Drones_UpdateLocationAndSpeed_def Drones_AssignJob_def status_of_alt)

lemma exec_status_columns:
  "status_of (snd (db_exec flt c (Orders_UpdatePickupLocation j y1 y2) s)) i = status_of s i"
  "status_of (snd (db_exec flt c (Orders_AppendDronePath j k) s)) i = status_of s i"
  "status_of (snd (db_exec flt c (Orders_UpdateLocations j x1 x2 x3 x4) s)) i = status_of s i"
  by (simp_all add: db_exec_def Orders_UpdatePickupLocation_def Orders_AppendDronePath_def
      Orders_UpdateLocations_def status_frames)

lemma exec_status_other:
  assumes "status_of s i = Some st" and "Orders_GetByID s (oID ord) = Some ord"
    and "oStatus ord \<noteq> st"
  shows "status_of (snd (db_exec flt c (Orders_UpdateStatus (oID ord) st') s)) i = Some st"
proof -
  have "i \<noteq> oID ord" using assms by (auto simp: status_of_def)
  then show ?thesis using assms(1)
    unfolding status_of_alt db_exec_def Orders_UpdateStatus_def
    by (simp add: lookup_set_status del: map_option_eq_Some)
qed

lemma GetByID_self: "Orders_GetByID s j = Some ord \<Longrightarrow> Orders_GetByID s (oID ord) = Some ord"
  using GetByID_id[of s j ord] by simp

lemma exec_status_terminal:
  assumes "status_of s i = Some st" and "terminal st" and "terminal st'"
  shows "\<exists>st''. status_of (snd (db_exec flt c (Orders_UpdateStatus j st') s)) i = Some st''
               \<and> terminal st''"
proof (cases "i = j \<and> \<not> flt c")
  case True
  then show ?thesis using assms
    by (simp add: db_exec_def Orders_UpdateStatus_def status_of_alt lookup_set_status) blast
next
  case False
  then show ?thesis using assms
    by (auto simp: db_exec_def Orders_UpdateStatus_def status_of_alt lookup_set_status
        simp del: map_option_eq_Some)
qed

lemmas exec_status = exec_status_drones exec_status_columns

lemma jobs_map_frame:
  assumes "\<And>d. AssignedJob (f d) = AssignedJob d"
  shows "List.map_filter AssignedJob (map f ds) = List.map_filter AssignedJob ds"
  using assms by (induction ds) (auto simp: map_filter_simps split: option.splits)

lemma ids_map_frame:
  assumes "\<And>d. dID (f d) = dID d"
  shows "map dID (map f ds) = map dID ds"
  using assms by (induction ds) auto

lemma table_frame:
  assumes "\<And>d. AssignedJob (f d) = AssignedJob d" and "\<And>d. dID (f d) = dID d"
    and "distinct (map dID ds) \<and> unique_assigned_job ds"
  shows "distinct (map dID (map f ds)) \<and> unique_assigned_job (map f ds)"
  using assms(3) unfolding unique_assigned_job_def
  by (simp only: jobs_map_frame[of f, OF assms(1)] ids_map_frame[of f, OF assms(2)])

lemma jobs_unassign_subset:
  "set (List.map_filter AssignedJob
          (map (\<lambda>d. if dID d = k then d\<lparr>AssignedJob := None\<rparr> else d) ds))
   \<subseteq> set (List.map_filter AssignedJob ds)"
  by (induction ds) (auto simp: map_filter_simps split: option.splits)

lemma unique_unassign:
  "unique_assigned_job ds
   \<Longrightarrow> unique_assigned_job (map (\<lambda>d. if dID d = k then d\<lparr>AssignedJob := None\<rparr> else d) ds)"
proof (induction ds)
  case Nil
  then show ?case by (simp add: unique_assigned_job_def)
next
  case (Cons a ds)
  let ?f = "\<lambda>d. if dID d = k then d\<lparr>AssignedJob := None\<rparr> else d"
  from Cons have IH: "distinct (List.map_filter AssignedJob (map ?f ds))"
    by (auto simp: unique_assigned_job_def map_filter_simps split: option.splits)
  show ?case
  proof (cases "AssignedJob (?f a)")
    case None
    then show ?thesis using IH by (simp add: unique_assigned_job_def map_filter_simps)
  next
    case (Some j)
    then have a: "AssignedJob a = Some j" and fa: "?f a = a" by (auto split: if_splits)
    from Cons.prems a have "j \<notin> set (List.map_filter AssignedJob ds)"
      by (simp add: unique_assigned_job_def map_filter_simps)
    then have "j \<notin> set (List.map_filter AssignedJob (map ?f ds))"
      using jobs_unassign_subset[of k ds] by blast
    then show ?thesis using IH Some
      by (simp add: unique_assigned_job_def map_filter_simps)
  qed
qed

lemma jobs_assign_subset:
  "set (List.map_filter AssignedJob
          (map (\<lambda>d. if dID d = k then d\<lparr>AssignedJob := Some j\<rparr> else d) ds))
   \<subseteq> insert j (set (List.map_filter AssignedJob ds))"
  by (induction ds) (auto simp: map_filter_simps split: option.splits)

lemma jobs_mem: "(j \<in> set (List.map_filter AssignedJob ds)) = (\<exists>d \<in> set ds. AssignedJob d = Some j)"
  by (induction ds) (auto simp: map_filter_simps split: option.splits)

lemma unique_assign:
  assumes "distinct (map dID ds)" and "unique_assigned_job ds"
    and "\<forall>d \<in> set ds. dID d \<noteq> k \<longrightarrow> AssignedJob d \<noteq> Some j"
  shows "unique_assigned_job (map (\<lambda>d. if dID d = k then d\<lparr>AssignedJob := Some j\<rparr> else d) ds)"
  using assms
proof (induction ds)
  case Nil
  then show ?case by (simp add: unique_assigned_job_def)
next
  case (Cons a ds)
  let ?f = "\<lambda>d. if dID d = k then d\<lparr>AssignedJob := Some j\<rparr> else d"
  have tl_unique: "unique_assigned_job ds"
    using Cons.prems(2) by (auto simp: unique_assigned_job_def map_filter_simps split: option.splits)
  with Cons have IH: "distinct (List.map_filter AssignedJob (map ?f ds))"
    by (simp add: unique_assigned_job_def)
  show ?case
  proof (cases "dID a = k")
    case True
    have "dID a \<notin> dID ` set ds" using Cons.prems(1) by simp
    then have nk: "\<forall>d \<in> set ds. dID d \<noteq> k" using True by blast
    then have same: "map ?f ds = ds" by (induction ds) auto
    have "j \<notin> set (List.map_filter AssignedJob ds)"
      using Cons.prems(3) nk by (auto simp: jobs_mem)
    then show ?thesis using True same tl_unique
      by (simp add: unique_assigned_job_def map_filter_simps)
  next
    case False
    then have nj: "AssignedJob a \<noteq> Some j" using Cons.prems(3) by simp
    show ?thesis
    proof (cases "AssignedJob a")
      case None
      then show ?thesis using False IH by (simp add: unique_assigned_job_def map_filter_simps)
    next
      case (Some i)
      then have "i \<noteq> j" using nj by simp
      moreover have "i \<notin> set (List.map_filter AssignedJob ds)"
        using Cons.prems(2) Some by (simp add: unique_assigned_job_def map_filter_simps)
      ultimately have "i \<notin> set (List.map_filter AssignedJob (map ?f ds))"
        using jobs_assign_subset[of k j ds] by blast
      then show ?thesis using False Some IH
        by (simp add: unique_assigned_job_def map_filter_simps)
    qed
  qed
qed

lemma dc_drones_eq: "drones s' = drones s \<Longrightarrow> drones_constraints s' = drones_constraints s"
  by (simp add: drones_constraints_def)

lemma exec_drones_orders:
  "drones (snd (db_exec flt c (Orders_UpdateStatus j st) s)) = drones s"
  "drones (snd (db_exec flt c (Orders_UpdatePickupLocation j y1 y2) s)) = drones s"
  "drones (snd (db_exec flt c (Orders_UpdateLocations j x1 x2 x3 x4) s)) = drones s"
  "drones (snd (db_exec flt c (Orders_AppendDronePath j k) s)) = drones s"
  by (simp_all add: db_exec_def Orders_UpdateStatus_def Orders_UpdatePickupLocation_def
      Orders_UpdateLocations_def Orders_AppendDronePath_def)

lemma dc_orders:
  "drones_constraints (snd (db_exec flt c (Orders_UpdateStatus j st) s)) = drones_constraints s"
  "drones_constraints (snd (db_exec flt c (Orders_UpdatePickupLocation j y1 y2) s))
   = drones_constraints s"
  "drones_constraints (snd (db_exec flt c (Orders_UpdateLocations j x1 x2 x3 x4) s))
   = drones_constraints s"
  "drones_constraints (snd (db_exec flt c (Orders_AppendDronePath j k) s)) = drones_constraints s"
  unfolding drones_constraints_def by (simp_all only: exec_drones_orders)

lemma dc_unassign:
  assumes "drones_constraints s"
  shows "drones_constraints (snd (db_exec flt c (Drones_UnassignJob k) s))"
proof -
  let ?f = "\<lambda>d. if dID d = k then d\<lparr>AssignedJob := None\<rparr> else d"
  have "map dID (map ?f (drones s)) = map dID (drones s)" by (rule ids_map_frame) simp
  moreover have "unique_assigned_job (map ?f (drones s))"
    using assms by (simp add: drones_constraints_def unique_unassign)
  ultimately have "drones_constraints (s\<lparr>drones := map ?f (drones s)\<rparr>)"
    using assms unfolding drones_constraints_def by (simp del: map_map)
  moreover have "snd (db_exec flt c (Drones_UnassignJob k) s)
                 = (if flt c then s else s\<lparr>drones := map ?f (drones s)\<rparr>)"
    by (simp add: db_exec_def Drones_UnassignJob_def)
  ultimately show ?thesis using assms by (cases "flt c") (simp_all only: if_True if_False)
qed

lemma dc_status:
  assumes "drones_constraints s"
  shows "drones_constraints (snd (db_exec flt c (Drones_UpdateStatus k b) s))"
proof -
  let ?f = "\<lambda>d. if dID d = k then d\<lparr>dStatus := b\<rparr> else d"
  have "distinct (map dID (map ?f (drones s))) \<and> unique_assigned_job (map ?f (drones s))"
    using assms by (intro table_frame) (simp_all add: drones_constraints_def)
  then have "drones_constraints (s\<lparr>drones := map ?f (drones s)\<rparr>)"
    unfolding drones_constraints_def by (simp del: map_map)
  moreover have "snd (db_exec flt c (Drones_UpdateStatus k b) s)
                 = (if flt c then s else s\<lparr>drones := map ?f (drones s)\<rparr>)"
    by (simp add: db_exec_def Drones_UpdateStatus_def)
  ultimately show ?thesis using assms by (cases "flt c") (simp_all only: if_True if_False)
qed

lemma dc_location:
  assumes "drones_constraints s"
  shows "drones_constraints (snd (db_exec flt c (Drones_UpdateLocationAndSpeed k y1 y2 y3) s))"
proof -
  let ?f = "\<lambda>d. if dID d = k then d\<lparr>Lat := y1, Lng := y2, SpeedMPH := y3\<rparr> else d"
  have "distinct (map dID (map ?f (drones s))) \<and> unique_assigned_job (map ?f (drones s))"
    using assms by (intro table_frame) (simp_all add: drones_constraints_def)
  then have "drones_constraints (s\<lparr>drones := map ?f (drones s)\<rparr>)"
    unfolding drones_constraints_def by (simp del: map_map)
  moreover have "snd (db_exec flt c (Drones_UpdateLocationAndSpeed k y1 y2 y3) s) = s
                 \<or> snd (db_exec flt c (Drones_UpdateLocationAndSpeed k y1 y2 y3) s)
                    = s\<lparr>drones := map ?f (drones s)\<rparr>"
    by (simp add: db_exec_def Drones_UpdateLocationAndSpeed_def)
  ultimately show ?thesis using assms by (elim disjE) (simp_all only:)
qed

lemma dc_assign:
  assumes "drones_constraints s"
  shows "drones_constraints (snd (db_exec flt c (Drones_AssignJob k j) s))"
proof (cases "Drones_AssignJob k j s")
  case (Inl e)
  then show ?thesis using assms by (simp add: db_exec_def)
next
  case (Inr s')
  let ?f = "\<lambda>d. if dID d = k then d\<lparr>AssignedJob := Some j\<rparr> else d"
  show ?thesis
  proof (cases "s' = s")
    case True
    then show ?thesis using assms Inr by (simp add: db_exec_def)
  next
    case False
    with Inr have free: "\<not> list_ex (\<lambda>d. dID d \<noteq> k \<and> AssignedJob d = Some j) (drones s)"
      and s': "s' = s\<lparr>drones := map ?f (drones s)\<rparr>"
      by (auto simp: Drones_AssignJob_def split: if_splits)
    from free have "\<forall>d \<in> set (drones s). dID d \<noteq> k \<longrightarrow> AssignedJob d \<noteq> Some j"
      by (auto simp: list_ex_iff)
    with assms have "unique_assigned_job (map ?f (drones s))"
      by (intro unique_assign) (simp_all add: drones_constraints_def)
    moreover have "map dID (map ?f (drones s)) = map dID (drones s)"
      by (rule ids_map_frame) simp
    ultimately have "drones_constraints s'"
      using assms unfolding s' by (simp add: drones_constraints_def del: map_map)
    moreover have "snd (db_exec flt c (Drones_AssignJob k j) s) = (if flt c then s else s')"
      using Inr by (simp add: db_exec_def)
    ultimately show ?thesis using assms by (cases "flt c") (simp_all only: if_True if_False)
  qed
qed


section \<open>Order statuses and table constraints under each handler\<close>

text \<open>
  For each handler: the stores it can return, then the status of an order that was terminal
  and the constraints of \<^verbatim>\<open>drones\<close> in those stores.
\<close>

lemma GrabOrder_store:
  "snd (GrabOrder flt ctx s) = s
   \<or> (\<exists>k. snd (GrabOrder flt ctx s) = snd (db_exec flt At_UnassignJob (Drones_UnassignJob k) s))
   \<or> (\<exists>ord. Orders_GetByID s (oID ord) = Some ord
          \<and> (oStatus ord = OrderStatusPlaced \<or> oStatus ord = OrderStatusToPickUp)
          \<and> snd (GrabOrder flt ctx s)
              = snd (db_exec flt At_UpdateOrderStatus
                      (Orders_UpdateStatus (oID ord) OrderStatusEnRoute) s))"
proof (cases "RequireDrone ctx")
  case (Inl e)
  then show ?thesis by (simp add: GrabOrder_def)
next
  case p: (Inr p)
  show ?thesis
  proof (cases "resolveDrone flt s (pName p)")
    case (Inl e)
    then show ?thesis using p by (simp add: GrabOrder_def)
  next
    case dr: (Inr dr)
    show ?thesis
    proof (cases "AssignedJob dr")
      case None
      then show ?thesis using p dr by (simp add: GrabOrder_def)
    next
      case (Some job)
      show ?thesis
      proof (cases "db_query flt At_GetOrder (Orders_GetByID s job)")
        case (Inl e)
        then show ?thesis using p dr Some by (simp add: GrabOrder_def)
      next
        case q: (Inr found)
        show ?thesis
        proof (cases found)
          case None
          then have "snd (GrabOrder flt ctx s)
                     = snd (db_exec flt At_UnassignJob (Drones_UnassignJob (dID dr)) s)"
            using p dr Some q by (simp add: GrabOrder_def)
          then show ?thesis by blast
        next
          case ord: (Some ord)
          from q ord have g: "Orders_GetByID s job = Some ord"
            by (simp add: db_query_def split: if_splits)
          then have self: "Orders_GetByID s (oID ord) = Some ord" by (rule GetByID_self)
          have "snd (GrabOrder flt ctx s) = s
                \<or> ((oStatus ord = OrderStatusPlaced \<or> oStatus ord = OrderStatusToPickUp)
                    \<and> snd (GrabOrder flt ctx s)
                        = snd (db_exec flt At_UpdateOrderStatus
                                (Orders_UpdateStatus (oID ord) OrderStatusEnRoute) s))"
            unfolding GrabOrder_def pickup_point_case using p dr Some q ord
            by (simp add: case_prod_beta split: option.splits)
          with self show ?thesis by blast
        qed
      qed
    qed
  qed
qed

lemma GrabOrder_status:
  assumes "status_of s i = Some st" and "terminal st"
  shows "status_of (snd (GrabOrder flt ctx s)) i = Some st"
proof -
  from GrabOrder_store[of flt ctx s] show ?thesis
  proof (elim disjE)
    assume "snd (GrabOrder flt ctx s) = s"
    then show ?thesis using assms by simp
  next
    assume "\<exists>k. snd (GrabOrder flt ctx s) = snd (db_exec flt At_UnassignJob (Drones_UnassignJob k) s)"
    then show ?thesis using assms by (auto simp: exec_status)
  next
    assume "\<exists>ord. Orders_GetByID s (oID ord) = Some ord
          \<and> (oStatus ord = OrderStatusPlaced \<or> oStatus ord = OrderStatusToPickUp)
          \<and> snd (GrabOrder flt ctx s)
              = snd (db_exec flt At_UpdateOrderStatus
                      (Orders_UpdateStatus (oID ord) OrderStatusEnRoute) s)"
    then obtain ord where g: "Orders_GetByID s (oID ord) = Some ord"
      and st: "oStatus ord = OrderStatusPlaced \<or> oStatus ord = OrderStatusToPickUp"
      and e: "snd (GrabOrder flt ctx s)
              = snd (db_exec flt At_UpdateOrderStatus
                      (Orders_UpdateStatus (oID ord) OrderStatusEnRoute) s)"
      by blast
    from st assms(2) have "oStatus ord \<noteq> st" by (auto simp: terminal_def)
    from exec_status_other[OF assms(1) g this] e show ?thesis by simp
  qed
qed


lemma MarkBroken_handoff_store:
  "snd (MarkBroken_handoff flt dr s) = s
   \<or> snd (MarkBroken_handoff flt dr s)
       = snd (db_exec flt At_UnassignJob (Drones_UnassignJob (dID dr)) s)
   \<or> (\<exists>ord. Orders_GetByID s (oID ord) = Some ord \<and> oStatus ord = OrderStatusEnRoute
          \<and> (snd (MarkBroken_handoff flt dr s)
                = snd (db_exec flt At_UpdateOrderStatus
                        (Orders_UpdateStatus (oID ord) OrderStatusToPickUp) s)
             \<or> snd (MarkBroken_handoff flt dr s)
                = snd (db_exec flt At_UpdatePickupLocation
                        (Orders_UpdatePickupLocation (oID ord) (Lat dr) (Lng dr))
                        (snd (db_exec flt At_UpdateOrderStatus
                               (Orders_UpdateStatus (oID ord) OrderStatusToPickUp) s)))
             \<or> snd (MarkBroken_handoff flt dr s)
                = snd (db_exec flt At_UnassignJob (Drones_UnassignJob (dID dr))
                        (snd (db_exec flt At_UpdatePickupLocation
                               (Orders_UpdatePickupLocation (oID ord) (Lat dr) (Lng dr))
                               (snd (db_exec flt At_UpdateOrderStatus
                                      (Orders_UpdateStatus (oID ord) OrderStatusToPickUp) s)))))))"
proof (cases "AssignedJob dr")
  case None
  then show ?thesis by (simp add: MarkBroken_handoff_def)
next
  case (Some job)
  show ?thesis
  proof (cases "db_query flt At_GetOrder (Orders_GetByID s job)")
    case (Inl e)
    then show ?thesis using Some by (simp add: MarkBroken_handoff_def)
  next
    case q: (Inr found)
    show ?thesis
    proof (cases found)
      case None
      then show ?thesis using Some q by (simp add: MarkBroken_handoff_def)
    next
      case ord: (Some ord)
      from q ord have "Orders_GetByID s job = Some ord"
        by (simp add: db_query_def split: if_splits)
      then have self: "Orders_GetByID s (oID ord) = Some ord" by (rule GetByID_self)
      show ?thesis
      proof (cases "oStatus ord = OrderStatusEnRoute")
        case False
        then show ?thesis using Some q ord by (simp add: MarkBroken_handoff_def)
      next
        case True
        have "snd (MarkBroken_handoff flt dr s)
                = snd (db_exec flt At_UpdateOrderStatus
                        (Orders_UpdateStatus (oID ord) OrderStatusToPickUp) s)
             \<or> snd (MarkBroken_handoff flt dr s)
                = snd (db_exec flt At_UpdatePickupLocation
                        (Orders_UpdatePickupLocation (oID ord) (Lat dr) (Lng dr))
                        (snd (db_exec flt At_UpdateOrderStatus
                               (Orders_UpdateStatus (oID ord) OrderStatusToPickUp) s)))
             \<or> snd (MarkBroken_handoff flt dr s)
                = snd (db_exec flt At_UnassignJob (Drones_UnassignJob (dID dr))
                        (snd (db_exec flt At_UpdatePickupLocation
                               (Orders_UpdatePickupLocation (oID ord) (Lat dr) (Lng dr))
                               (snd (db_exec flt At_UpdateOrderStatus
                                      (Orders_UpdateStatus (oID ord) OrderStatusToPickUp) s)))))"
          using Some q ord True
          by (simp add: MarkBroken_handoff_def case_prod_beta split: option.splits)
        with self True show ?thesis by blast
      qed
    qed
  qed
qed

lemma MarkBroken_handoff_status:
  assumes "status_of s i = Some st" and "terminal st"
  shows "status_of (snd (MarkBroken_handoff flt dr s)) i = Some st"
proof -
  have w: "status_of (snd (db_exec flt c (Orders_UpdateStatus (oID ord) st') s)) i = Some st"
    if "Orders_GetByID s (oID ord) = Some ord" "oStatus ord = OrderStatusEnRoute" for ord c st'
  proof -
    from that(2) assms(2) have "oStatus ord \<noteq> st" by (auto simp: terminal_def)
    from exec_status_other[OF assms(1) that(1) this] show ?thesis .
  qed
  from MarkBroken_handoff_store[of flt dr s] show ?thesis
    using assms(1) w by (elim disjE exE conjE) (simp_all add: exec_status)
qed

lemma MarkBroken_handoff_dc:
  assumes "drones_constraints s"
  shows "drones_constraints (snd (MarkBroken_handoff flt dr s))"
  using MarkBroken_handoff_store[of flt dr s] assms
  by (elim disjE exE conjE) (simp_all add: dc_orders dc_unassign)

lemma MarkBroken_store:
  "snd (MarkBroken flt ctx s) = s
   \<or> (\<exists>dr. snd (MarkBroken flt ctx s) = snd (MarkBroken_handoff flt dr s)
           \<or> snd (MarkBroken flt ctx s)
              = snd (db_exec flt At_UpdateDroneStatus
                      (Drones_UpdateStatus (dID dr) DroneStatusBroken)
                      (snd (MarkBroken_handoff flt dr s))))"
  by (simp add: MarkBroken_def case_prod_beta split: sum.splits option.splits) blast

lemma MarkBroken_status:
  assumes "status_of s i = Some st" and "terminal st"
  shows "status_of (snd (MarkBroken flt ctx s)) i = Some st"
  using MarkBroken_store[of flt ctx s] assms(1) MarkBroken_handoff_status[OF assms, of flt]
  by (elim disjE exE) (simp_all add: exec_status)

lemma MarkBroken_dc:
  assumes "drones_constraints s"
  shows "drones_constraints (snd (MarkBroken flt ctx s))"
  using MarkBroken_store[of flt ctx s] assms MarkBroken_handoff_dc[OF assms, of flt]
  by (elim disjE exE) (simp_all add: dc_status)

lemma Heartbeat_status: "status_of (snd (Heartbeat flt ctx req s)) i = status_of s i"
  by (auto simp: Heartbeat_def case_prod_beta exec_status split: sum.splits option.splits)

lemma SetOrder_status:
  assumes "status_of s i = Some st"
  shows "status_of (snd (SetOrder flt now ctx req s)) i = Some st"
  using assms
  by (auto simp: SetOrder_def Orders_Create_def Orders_Insert_def Let_def db_query_def status_frames
      split: sum.splits option.splits prod.splits if_splits)

lemma UpdateOrderLocation_status:
  "status_of (snd (UpdateOrderLocation flt ctx req s)) i = status_of s i"
  by (auto simp: UpdateOrderLocation_def case_prod_beta exec_status
      split: sum.splits option.splits if_splits bool.splits)

lemma UpdateDroneStatus_status:
  "status_of (snd (UpdateDroneStatus flt ctx req s)) i = status_of s i"
  by (auto simp: UpdateDroneStatus_def case_prod_beta exec_status
      split: sum.splits option.splits if_splits AdminDroneStatus.splits)

lemma Orders_Withdraw_eq: "Orders_Withdraw j = Orders_UpdateStatus j OrderStatusWithdrawn"
  by (rule ext) (simp add: Orders_Withdraw_def)

lemma WithdrawOrder_store:
  "snd (WithdrawOrder flt ctx req s) = s
   \<or> (\<exists>j. snd (WithdrawOrder flt ctx req s)
          = snd (db_exec flt At_UpdateOrderStatus (Orders_UpdateStatus j OrderStatusWithdrawn) s))"
  by (auto simp: WithdrawOrder_def Orders_Withdraw_eq case_prod_beta
      split: sum.splits option.splits)

lemma WithdrawOrder_status:
  assumes "status_of s i = Some st" and "terminal st"
  shows "\<exists>st'. status_of (snd (WithdrawOrder flt ctx req s)) i = Some st' \<and> terminal st'"
proof -
  have w: "terminal OrderStatusWithdrawn" by (simp add: terminal_def)
  from WithdrawOrder_store[of flt ctx req s] show ?thesis
  proof
    assume "snd (WithdrawOrder flt ctx req s) = s"
    then show ?thesis using assms by simp
  next
    assume "\<exists>j. snd (WithdrawOrder flt ctx req s)
          = snd (db_exec flt At_UpdateOrderStatus (Orders_UpdateStatus j OrderStatusWithdrawn) s)"
    then obtain j where "snd (WithdrawOrder flt ctx req s)
          = snd (db_exec flt At_UpdateOrderStatus (Orders_UpdateStatus j OrderStatusWithdrawn) s)"
      by blast
    then show ?thesis using exec_status_terminal[OF assms w, of flt At_UpdateOrderStatus j]
      by simp
  qed
qed

lemma CompleteOrder_store:
  "\<exists>j k st'. terminal st'
     \<and> (snd (CompleteOrder flt ctx delivered s) = s
        \<or> snd (CompleteOrder flt ctx delivered s)
            = snd (db_exec flt At_UnassignJob (Drones_UnassignJob k) s)
        \<or> snd (CompleteOrder flt ctx delivered s)
            = snd (db_exec flt At_UpdateOrderStatus (Orders_UpdateStatus j st') s)
        \<or> snd (CompleteOrder flt ctx delivered s)
            = snd (db_exec flt At_UnassignJob (Drones_UnassignJob k)
                    (snd (db_exec flt At_UpdateOrderStatus (Orders_UpdateStatus j st') s))))"
proof (cases "RequireDrone ctx")
  case (Inl e)
  then have "snd (CompleteOrder flt ctx delivered s) = s" by (simp add: CompleteOrder_def)
  then show ?thesis by (auto simp: terminal_def)
next
  case p: (Inr p)
  show ?thesis
  proof (cases "resolveDrone flt s (pName p)")
    case (Inl e)
    then have "snd (CompleteOrder flt ctx delivered s) = s" using p by (simp add: CompleteOrder_def)
    then show ?thesis by (auto simp: terminal_def)
  next
    case dr: (Inr dr)
    show ?thesis
    proof (cases "AssignedJob dr")
      case None
      then have "snd (CompleteOrder flt ctx delivered s) = s"
        using p dr by (simp add: CompleteOrder_def)
      then show ?thesis by (auto simp: terminal_def)
    next
      case (Some job)
      show ?thesis
      proof (cases "db_query flt At_GetOrder (Orders_GetByID s job)")
        case (Inl e)
        then have "snd (CompleteOrder flt ctx delivered s) = s"
          using p dr Some by (simp add: CompleteOrder_def)
        then show ?thesis by (auto simp: terminal_def)
      next
        case q: (Inr found)
        show ?thesis
        proof (cases found)
          case None
          then have "snd (CompleteOrder flt ctx delivered s)
                     = snd (db_exec flt At_UnassignJob (Drones_UnassignJob (dID dr)) s)"
            using p dr Some q by (simp add: CompleteOrder_def)
          then show ?thesis by (auto simp: terminal_def)
        next
          case ord: (Some ord)
          let ?st = "if delivered then OrderStatusDelivered else OrderStatusFailed"
          let ?w = "snd (db_exec flt At_UpdateOrderStatus (Orders_UpdateStatus (oID ord) ?st) s)"
          have t: "terminal ?st" by (simp add: terminal_def)
          have "snd (CompleteOrder flt ctx delivered s) = s
                \<or> snd (CompleteOrder flt ctx delivered s) = ?w
                \<or> snd (CompleteOrder flt ctx delivered s)
                    = snd (db_exec flt At_UnassignJob (Drones_UnassignJob (dID dr)) ?w)"
            using p dr Some q ord
            by (simp add: CompleteOrder_def case_prod_beta split: option.splits)
          with t show ?thesis by blast
        qed
      qed
    qed
  qed
qed

lemma CompleteOrder_status:
  assumes "status_of s i = Some st" and "terminal st"
  shows "\<exists>st'. status_of (snd (CompleteOrder flt ctx delivered s)) i = Some st' \<and> terminal st'"
proof -
  from CompleteOrder_store[of flt ctx delivered s] obtain j k st' where
    t: "terminal st'" and
    c: "snd (CompleteOrder flt ctx delivered s) = s
        \<or> snd (CompleteOrder flt ctx delivered s)
            = snd (db_exec flt At_UnassignJob (Drones_UnassignJob k) s)
        \<or> snd (CompleteOrder flt ctx delivered s)
            = snd (db_exec flt At_UpdateOrderStatus (Orders_UpdateStatus j st') s)
        \<or> snd (CompleteOrder flt ctx delivered s)
            = snd (db_exec flt At_UnassignJob (Drones_UnassignJob k)
                    (snd (db_exec flt At_UpdateOrderStatus (Orders_UpdateStatus j st') s)))"
    by blast
  note w = exec_status_terminal[OF assms t, of flt At_UpdateOrderStatus j]
  from c show ?thesis
  proof (elim disjE)
    assume "snd (CompleteOrder flt ctx delivered s) = s"
    then show ?thesis using assms by simp
  next
    assume "snd (CompleteOrder flt ctx delivered s)
            = snd (db_exec flt At_UnassignJob (Drones_UnassignJob k) s)"
    then show ?thesis using assms by (simp add: exec_status)
  next
    assume "snd (CompleteOrder flt ctx delivered s)
            = snd (db_exec flt At_UpdateOrderStatus (Orders_UpdateStatus j st') s)"
    then show ?thesis using w by simp
  next
    assume "snd (CompleteOrder flt ctx delivered s)
            = snd (db_exec flt At_UnassignJob (Drones_UnassignJob k)
                    (snd (db_exec flt At_UpdateOrderStatus (Orders_UpdateStatus j st') s)))"
    then show ?thesis using w by (simp add: exec_status)
  qed
qed

lemma GrabOrder_dc:
  assumes "drones_constraints s"
  shows "drones_constraints (snd (GrabOrder flt ctx s))"
  using GrabOrder_store[of flt ctx s] assms
  by (elim disjE exE conjE) (simp_all add: dc_orders dc_unassign)

lemma WithdrawOrder_dc:
  assumes "drones_constraints s"
  shows "drones_constraints (snd (WithdrawOrder flt ctx req s))"
  using WithdrawOrder_store[of flt ctx req s] assms
  by (elim disjE exE) (simp_all add: dc_orders)

lemma CompleteOrder_dc:
  assumes "drones_constraints s"
  shows "drones_constraints (snd (CompleteOrder flt ctx delivered s))"
proof -
  from CompleteOrder_store[of flt ctx delivered s] obtain j k st' where
    "snd (CompleteOrder flt ctx delivered s) = s
        \<or> snd (CompleteOrder flt ctx delivered s)
            = snd (db_exec flt At_UnassignJob (Drones_UnassignJob k) s)
        \<or> snd (CompleteOrder flt ctx delivered s)
            = snd (db_exec flt At_UpdateOrderStatus (Orders_UpdateStatus j st') s)
        \<or> snd (CompleteOrder flt ctx delivered s)
            = snd (db_exec flt At_UnassignJob (Drones_UnassignJob k)
                    (snd (db_exec flt At_UpdateOrderStatus (Orders_UpdateStatus j st') s)))"
    by blast
  then show ?thesis using assms
    by (elim disjE) (simp_all add: dc_orders dc_unassign)
qed

lemma ReserveOrder_assign_dc:
  assumes "drones_constraints s"
  shows "drones_constraints (snd (ReserveOrder_assign flt dr ord s))"
proof -
  have "snd (ReserveOrder_assign flt dr ord s)
          = snd (db_exec flt At_AssignJob (Drones_AssignJob (dID dr) (oID ord)) s)
        \<or> snd (ReserveOrder_assign flt dr ord s)
          = snd (db_exec flt At_AppendDronePath (Orders_AppendDronePath (oID ord) (dID dr))
                  (snd (db_exec flt At_AssignJob (Drones_AssignJob (dID dr) (oID ord)) s)))"
    by (simp add: ReserveOrder_assign_def case_prod_beta split: option.splits)
  then show ?thesis using assms by (elim disjE) (simp_all add: dc_orders dc_assign)
qed

lemma ReserveOrder_dc:
  assumes "drones_constraints s"
  shows "drones_constraints (snd (ReserveOrder flt ctx s))"
proof -
  have "snd (ReserveOrder flt ctx s) = s
        \<or> (\<exists>dr ord. snd (ReserveOrder flt ctx s) = snd (ReserveOrder_assign flt dr ord s))"
    by (simp add: ReserveOrder_def split: sum.splits option.splits) blast
  then show ?thesis using assms ReserveOrder_assign_dc[OF assms, of flt]
    by (elim disjE exE) simp_all
qed

lemma Heartbeat_dc:
  assumes "drones_constraints s"
  shows "drones_constraints (snd (Heartbeat flt ctx req s))"
proof -
  have "snd (Heartbeat flt ctx req s) = s
        \<or> (\<exists>k y1 y2 y3. snd (Heartbeat flt ctx req s)
              = snd (db_exec flt At_UpdateLocationAndSpeed
                      (Drones_UpdateLocationAndSpeed k y1 y2 y3) s))"
    by (simp add: Heartbeat_def case_prod_beta split: sum.splits option.splits prod.splits) blast
  then show ?thesis using assms by (elim disjE exE) (simp_all add: dc_location)
qed

lemma SetOrder_drones: "drones (snd (SetOrder flt now ctx req s)) = drones s"
  by (auto simp: SetOrder_def Orders_Create_def Orders_Insert_def Let_def
      split: sum.splits option.splits prod.splits if_splits)

lemma SetOrder_dc:
  "drones_constraints s \<Longrightarrow> drones_constraints (snd (SetOrder flt now ctx req s))"
  by (simp add: drones_constraints_def SetOrder_drones)

lemma UpdateOrderLocation_dc:
  assumes "drones_constraints s"
  shows "drones_constraints (snd (UpdateOrderLocation flt ctx req s))"
proof -
  have "snd (UpdateOrderLocation flt ctx req s) = s
        \<or> (\<exists>j x1 x2 x3 x4. snd (UpdateOrderLocation flt ctx req s)
              = snd (db_exec flt At_UpdateLocations (Orders_UpdateLocations j x1 x2 x3 x4) s))"
    by (simp add: UpdateOrderLocation_def case_prod_beta
        split: sum.splits option.splits prod.splits bool.splits) blast
  then show ?thesis using assms by (elim disjE exE) (simp_all add: dc_orders)
qed

lemma UpdateDroneStatus_dc:
  assumes "drones_constraints s"
  shows "drones_constraints (snd (UpdateDroneStatus flt ctx req s))"
proof -
  have "snd (UpdateDroneStatus flt ctx req s) = s
        \<or> (\<exists>k b. snd (UpdateDroneStatus flt ctx req s)
              = snd (db_exec flt At_UpdateDroneStatus (Drones_UpdateStatus k b) s))"
    by (simp add: UpdateDroneStatus_def case_prod_beta
        split: sum.splits option.splits AdminDroneStatus.splits) blast
  then show ?thesis using assms by (elim disjE exE) (simp_all add: dc_status)
qed


section \<open>Terminal statuses and the assignment invariant\<close>

lemma serve_status:
  assumes "status_of s i = Some st" and "terminal st"
  shows "(\<exists>st'. status_of (snd (serve flt ctx req s)) i = Some st' \<and> terminal st')
       \<and> ((\<forall>r. req \<noteq> ReqWithdrawOrder r) \<and> (\<forall>b. req \<noteq> ReqCompleteOrder b)
            \<longrightarrow> status_of (snd (serve flt ctx req s)) i = Some st)"
proof (cases req)
  case ReqReserveOrder
  then show ?thesis using assms by (simp add: serve_def ReserveOrder_status)
next
  case ReqGrabOrder
  then show ?thesis using assms GrabOrder_status[OF assms, of flt ctx] by (simp add: serve_def)
next
  case (ReqCompleteOrder b)
  then have "\<not> (\<forall>b. req \<noteq> ReqCompleteOrder b)" by blast
  moreover have "\<exists>st'. status_of (snd (serve flt ctx req s)) i = Some st' \<and> terminal st'"
    using ReqCompleteOrder CompleteOrder_status[OF assms, of flt ctx b] by (simp add: serve_def)
  ultimately show ?thesis by blast
next
  case ReqMarkBroken
  then show ?thesis using assms MarkBroken_status[OF assms, of flt ctx] by (simp add: serve_def)
next
  case (ReqHeartbeat h)
  then show ?thesis using assms by (simp add: serve_def Heartbeat_status)
next
  case ReqGetAssignedOrder
  then show ?thesis using assms by (simp add: serve_def)
next
  case (ReqSetOrder now r)
  then show ?thesis using assms SetOrder_status[OF assms(1), of flt now ctx r]
    by (simp add: serve_def)
next
  case (ReqWithdrawOrder r)
  then have "\<not> (\<forall>r. req \<noteq> ReqWithdrawOrder r)" by blast
  moreover have "\<exists>st'. status_of (snd (serve flt ctx req s)) i = Some st' \<and> terminal st'"
    using ReqWithdrawOrder WithdrawOrder_status[OF assms, of flt ctx r] by (simp add: serve_def)
  ultimately show ?thesis by blast
next
  case (ReqUpdateOrderLocation r)
  then show ?thesis using assms by (simp add: serve_def UpdateOrderLocation_status)
next
  case (ReqUpdateDroneStatus r)
  then show ?thesis using assms by (simp add: serve_def UpdateDroneStatus_status)
qed

lemma exec_status_write:
  "status_of (snd (db_exec flt c (Orders_UpdateStatus j st') s)) i
   = (if i = j \<and> \<not> flt c then map_option (\<lambda>_. st') (status_of s i) else status_of s i)"
  by (simp add: db_exec_def Orders_UpdateStatus_def status_of_alt lookup_set_status
      option.map_comp comp_def)

lemma exec_status_some:
  assumes "status_of s i = Some st"
  shows "status_of (snd (db_exec flt c (Orders_UpdateStatus j st') s)) i
         = Some (if i = j \<and> \<not> flt c then st' else st)"
proof (cases "i = j \<and> \<not> flt c")
  case True
  then show ?thesis using assms by (simp add: exec_status_write)
next
  case False
  then show ?thesis using assms by (auto simp: exec_status_write)
qed

lemma WithdrawOrder_writes:
  "snd (WithdrawOrder flt ctx req s) = s
   \<or> (\<exists>j. req = Some j
          \<and> snd (WithdrawOrder flt ctx req s)
              = snd (db_exec flt At_UpdateOrderStatus (Orders_UpdateStatus j OrderStatusWithdrawn) s))"
  by (auto simp: WithdrawOrder_def Orders_Withdraw_eq case_prod_beta
      split: sum.splits option.splits if_splits)

lemma WithdrawOrder_success:
  assumes "fst (WithdrawOrder flt ctx (Some j) s) = Inr resp"
  shows "\<not> flt At_UpdateOrderStatus \<and> Orders_GetByID s j \<noteq> None
         \<and> snd (WithdrawOrder flt ctx (Some j) s)
             = snd (db_exec flt At_UpdateOrderStatus (Orders_UpdateStatus j OrderStatusWithdrawn) s)"
proof -
  from assms have nz: "j \<noteq> 0" by (auto simp: WithdrawOrder_def)
  from assms nz obtain p where p: "RequireEndUserOrAdmin ctx = Inr p"
    by (cases "RequireEndUserOrAdmin ctx") (auto simp: WithdrawOrder_def)
  from assms nz p obtain u where u: "resolveCurrentUser flt s p = Inr u"
    by (cases "resolveCurrentUser flt s p") (auto simp: WithdrawOrder_def)
  from assms nz p u obtain found where q: "db_query flt At_GetOrder (Orders_GetByID s j) = Inr found"
    by (cases "db_query flt At_GetOrder (Orders_GetByID s j)") (auto simp: WithdrawOrder_def)
  from assms nz p u q obtain ord where ord: "found = Some ord"
    by (cases found) (auto simp: WithdrawOrder_def)
  from q ord have g: "Orders_GetByID s j = Some ord"
    by (auto simp: db_query_def split: if_splits)
  from assms nz p u q ord have sub: "SubmittedBy ord = uID u"
    by (auto simp: WithdrawOrder_def split: if_splits)
  have nf: "\<not> flt At_UpdateOrderStatus"
  proof
    assume "flt At_UpdateOrderStatus"
    then have "fst (WithdrawOrder flt ctx (Some j) s) = Inl (Internal, ''withdraw'')"
      using nz p u q ord sub by (simp add: WithdrawOrder_def db_exec_def)
    with assms show False by simp
  qed
  have "snd (WithdrawOrder flt ctx (Some j) s)
        = snd (db_exec flt At_UpdateOrderStatus (Orders_UpdateStatus j OrderStatusWithdrawn) s)"
    using nz p u q ord sub
    by (simp add: WithdrawOrder_def Orders_Withdraw_eq case_prod_beta split: option.splits sum.splits)
  with nf g show ?thesis by simp
qed

lemma CompleteOrder_writes:
  "snd (CompleteOrder flt ctx delivered s) = s
   \<or> (\<exists>k. snd (CompleteOrder flt ctx delivered s)
            = snd (db_exec flt At_UnassignJob (Drones_UnassignJob k) s))
   \<or> (\<exists>j. snd (CompleteOrder flt ctx delivered s)
            = snd (db_exec flt At_UpdateOrderStatus
                     (Orders_UpdateStatus j
                        (if delivered then OrderStatusDelivered else OrderStatusFailed)) s))
   \<or> (\<exists>j k. snd (CompleteOrder flt ctx delivered s)
            = snd (db_exec flt At_UnassignJob (Drones_UnassignJob k)
                    (snd (db_exec flt At_UpdateOrderStatus
                            (Orders_UpdateStatus j
                               (if delivered then OrderStatusDelivered else OrderStatusFailed)) s))))"
proof (cases "RequireDrone ctx")
  case (Inl e)
  then show ?thesis by (simp add: CompleteOrder_def)
next
  case p: (Inr p)
  show ?thesis
  proof (cases "resolveDrone flt s (pName p)")
    case (Inl e)
    then show ?thesis using p by (simp add: CompleteOrder_def)
  next
    case dr: (Inr dr)
    show ?thesis
    proof (cases "AssignedJob dr")
      case None
      then show ?thesis using p dr by (simp add: CompleteOrder_def)
    next
      case (Some job)
      show ?thesis
      proof (cases "db_query flt At_GetOrder (Orders_GetByID s job)")
        case (Inl e)
        then show ?thesis using p dr Some by (simp add: CompleteOrder_def)
      next
        case q: (Inr found)
        show ?thesis
        proof (cases found)
          case None
          then have "snd (CompleteOrder flt ctx delivered s)
                     = snd (db_exec flt At_UnassignJob (Drones_UnassignJob (dID dr)) s)"
            using p dr Some q by (simp add: CompleteOrder_def)
          then show ?thesis by blast
        next
          case ord: (Some ord)
          let ?st = "if delivered then OrderStatusDelivered else OrderStatusFailed"
          let ?w = "snd (db_exec flt At_UpdateOrderStatus (Orders_UpdateStatus (oID ord) ?st) s)"
          have "snd (CompleteOrder flt ctx delivered s) = s
                \<or> snd (CompleteOrder flt ctx delivered s) = ?w
                \<or> snd (CompleteOrder flt ctx delivered s)
                    = snd (db_exec flt At_UnassignJob (Drones_UnassignJob (dID dr)) ?w)"
            using p dr Some q ord
            by (simp add: CompleteOrder_def case_prod_beta split: option.splits)
          then show ?thesis by blast
        qed
      qed
    qed
  qed
qed

lemma CompleteOrder_success:
  assumes p: "RequireDrone ctx = Inr p" and dr: "resolveDrone flt s (pName p) = Inr dr"
    and job: "AssignedJob dr = Some j"
    and ok: "fst (CompleteOrder flt ctx delivered s) = Inr resp"
  shows "\<not> flt At_UpdateOrderStatus \<and> Orders_GetByID s j \<noteq> None
         \<and> snd (CompleteOrder flt ctx delivered s)
             = snd (db_exec flt At_UnassignJob (Drones_UnassignJob (dID dr))
                     (snd (db_exec flt At_UpdateOrderStatus
                             (Orders_UpdateStatus j
                                (if delivered then OrderStatusDelivered else OrderStatusFailed)) s)))"
proof -
  let ?st = "if delivered then OrderStatusDelivered else OrderStatusFailed"
  from ok p dr job obtain found where q: "db_query flt At_GetOrder (Orders_GetByID s j) = Inr found"
    by (cases "db_query flt At_GetOrder (Orders_GetByID s j)") (auto simp: CompleteOrder_def)
  from ok p dr job q obtain ord where ord: "found = Some ord"
    by (cases found) (auto simp: CompleteOrder_def)
  from q ord have g: "Orders_GetByID s j = Some ord"
    by (auto simp: db_query_def split: if_splits)
  then have id: "oID ord = j" by (rule GetByID_id)
  from ok p dr job q ord
  have near: "\<not> HaversineMiles (Lat dr) (Lng dr) (DestLat ord) (DestLng ord) > FeetToMiles RadiusFeet"
    by (auto simp: CompleteOrder_def split: if_splits)
  have nf: "\<not> flt At_UpdateOrderStatus"
  proof
    assume "flt At_UpdateOrderStatus"
    then have "fst (CompleteOrder flt ctx delivered s) = Inl (Internal, ''update status'')"
      using p dr job q ord near by (simp add: CompleteOrder_def db_exec_def)
    with ok show False by simp
  qed
  let ?w = "snd (db_exec flt At_UpdateOrderStatus (Orders_UpdateStatus j ?st) s)"
  have w: "fst (db_exec flt At_UpdateOrderStatus (Orders_UpdateStatus j st') s) = None" for st'
    using nf by (simp add: db_exec_def Orders_UpdateStatus_def)
  have u: "fst (db_exec flt At_UnassignJob (Drones_UnassignJob (dID dr)) ?w) = None"
  proof (cases "fst (db_exec flt At_UnassignJob (Drones_UnassignJob (dID dr)) ?w)")
    case None
    then show ?thesis .
  next
    case (Some e)
    then have "fst (CompleteOrder flt ctx delivered s) = Inl (Internal, ''unassign'')"
      using p dr job q ord near id w
      by (cases delivered) (simp_all add: CompleteOrder_def case_prod_beta)
    with ok show ?thesis by simp
  qed
  have "snd (CompleteOrder flt ctx delivered s)
        = snd (db_exec flt At_UnassignJob (Drones_UnassignJob (dID dr)) ?w)"
    using p dr job q ord near id w u
    by (cases delivered) (simp_all add: CompleteOrder_def case_prod_beta)
  with nf g show ?thesis by simp
qed

lemma withdraw_status_cases:
  assumes "status_of s i = Some st"
  shows "status_of (snd (WithdrawOrder flt ctx r s)) i = Some st
         \<or> (r = Some i \<and> status_of (snd (WithdrawOrder flt ctx r s)) i = Some OrderStatusWithdrawn)"
  using WithdrawOrder_writes[of flt ctx r s]
proof
  assume "snd (WithdrawOrder flt ctx r s) = s"
  then show ?thesis using assms by simp
next
  assume "\<exists>j. r = Some j
          \<and> snd (WithdrawOrder flt ctx r s)
              = snd (db_exec flt At_UpdateOrderStatus (Orders_UpdateStatus j OrderStatusWithdrawn) s)"
  then obtain j where r: "r = Some j"
    and e: "snd (WithdrawOrder flt ctx r s)
              = snd (db_exec flt At_UpdateOrderStatus (Orders_UpdateStatus j OrderStatusWithdrawn) s)"
    by blast
  show ?thesis
    unfolding e exec_status_some[OF assms] using r
    by (cases "i = j \<and> \<not> flt At_UpdateOrderStatus") simp_all
qed

lemma withdraw_status_success:
  assumes "status_of s i = Some st"
    and "fst (WithdrawOrder flt ctx (Some i) s) = Inr resp"
  shows "status_of (snd (WithdrawOrder flt ctx (Some i) s)) i = Some OrderStatusWithdrawn"
proof -
  from WithdrawOrder_success[OF assms(2)]
  have nf: "\<not> flt At_UpdateOrderStatus"
    and e: "snd (WithdrawOrder flt ctx (Some i) s)
             = snd (db_exec flt At_UpdateOrderStatus (Orders_UpdateStatus i OrderStatusWithdrawn) s)"
    by simp_all
  show ?thesis unfolding e exec_status_some[OF assms(1)] using nf by simp
qed

lemma complete_status_cases:
  assumes "status_of s i = Some st"
  shows "status_of (snd (CompleteOrder flt ctx b s)) i = Some st
         \<or> status_of (snd (CompleteOrder flt ctx b s)) i
            = Some (if b then OrderStatusDelivered else OrderStatusFailed)"
proof -
  let ?st = "if b then OrderStatusDelivered else OrderStatusFailed"
  have w: "status_of (snd (db_exec flt At_UpdateOrderStatus (Orders_UpdateStatus j ?st) s)) i = Some st
           \<or> status_of (snd (db_exec flt At_UpdateOrderStatus (Orders_UpdateStatus j ?st) s)) i
              = Some ?st" for j
    unfolding exec_status_some[OF assms]
    by (cases "i = j \<and> \<not> flt At_UpdateOrderStatus") simp_all
  from CompleteOrder_writes[of flt ctx b s] show ?thesis
  proof (elim disjE exE)
    assume "snd (CompleteOrder flt ctx b s) = s"
    then show ?thesis using assms by simp
  next
    fix k
    assume "snd (CompleteOrder flt ctx b s)
            = snd (db_exec flt At_UnassignJob (Drones_UnassignJob k) s)"
    then show ?thesis using assms by (simp add: exec_status_drones)
  next
    fix j
    assume "snd (CompleteOrder flt ctx b s)
            = snd (db_exec flt At_UpdateOrderStatus (Orders_UpdateStatus j ?st) s)"
    then show ?thesis using w[of j] by simp
  next
    fix j k
    assume "snd (CompleteOrder flt ctx b s)
            = snd (db_exec flt At_UnassignJob (Drones_UnassignJob k)
                    (snd (db_exec flt At_UpdateOrderStatus (Orders_UpdateStatus j ?st) s)))"
    then show ?thesis using w[of j] by (simp add: exec_status_drones)
  qed
qed

lemma complete_status_success:
  assumes "status_of s i = Some st"
    and "RequireDrone ctx = Inr p" and "resolveDrone flt s (pName p) = Inr d"
    and "AssignedJob d = Some i"
    and "fst (CompleteOrder flt ctx b s) = Inr resp"
  shows "status_of (snd (CompleteOrder flt ctx b s)) i
         = Some (if b then OrderStatusDelivered else OrderStatusFailed)"
proof -
  let ?st = "if b then OrderStatusDelivered else OrderStatusFailed"
  from CompleteOrder_success[OF assms(2-5)]
  have nf: "\<not> flt At_UpdateOrderStatus"
    and e: "snd (CompleteOrder flt ctx b s)
             = snd (db_exec flt At_UnassignJob (Drones_UnassignJob (dID d))
                     (snd (db_exec flt At_UpdateOrderStatus (Orders_UpdateStatus i ?st) s)))"
    by simp_all
  show ?thesis unfolding e exec_status_drones exec_status_some[OF assms(1)] using nf by simp
qed


text \<open>
  Claim C3, amended. Requests are served one at a time. For an order whose status is terminal:
  after any request the order still has a terminal status; after any request other than
  \<open>WithdrawOrder\<close> and \<open>CompleteOrder\<close> it has the same status, and the writes of a
  reservation leave it the same; after a \<open>WithdrawOrder\<close> it has the same status or, when
  the request names it, is withdrawn, and it is withdrawn when a request naming it succeeds;
  after a \<open>CompleteOrder\<close> it has the same status or the requested outcome (delivered or
  failed), and it has the requested outcome when the request succeeds for a drone to which
  the order is assigned.
\<close>

theorem terminal_status_effects:
  assumes "status_of s i = Some st" and "terminal st"
  shows "(\<exists>st'. status_of (snd (serve flt ctx req s)) i = Some st' \<and> terminal st')
       \<and> ((\<forall>r. req \<noteq> ReqWithdrawOrder r) \<and> (\<forall>b. req \<noteq> ReqCompleteOrder b)
            \<longrightarrow> status_of (snd (serve flt ctx req s)) i = Some st)
       \<and> status_of (snd (ReserveOrder_assign flt dr ord s)) i = Some st
       \<and> (\<forall>r. req = ReqWithdrawOrder r
            \<longrightarrow> status_of (snd (serve flt ctx req s)) i = Some st
                \<or> (r = Some i
                    \<and> status_of (snd (serve flt ctx req s)) i = Some OrderStatusWithdrawn))
       \<and> (\<forall>resp. req = ReqWithdrawOrder (Some i) \<and> fst (serve flt ctx req s) = Inr resp
            \<longrightarrow> status_of (snd (serve flt ctx req s)) i = Some OrderStatusWithdrawn)
       \<and> (\<forall>b. req = ReqCompleteOrder b
            \<longrightarrow> status_of (snd (serve flt ctx req s)) i = Some st
                \<or> status_of (snd (serve flt ctx req s)) i
                   = Some (if b then OrderStatusDelivered else OrderStatusFailed))
       \<and> (\<forall>b p d resp. req = ReqCompleteOrder b \<and> RequireDrone ctx = Inr p
              \<and> resolveDrone flt s (pName p) = Inr d \<and> AssignedJob d = Some i
              \<and> fst (serve flt ctx req s) = Inr resp
            \<longrightarrow> status_of (snd (serve flt ctx req s)) i
                = Some (if b then OrderStatusDelivered else OrderStatusFailed))"
proof -
  note a = serve_status[OF assms, of flt ctx req]
  have c: "status_of (snd (ReserveOrder_assign flt dr ord s)) i = Some st"
    using assms(1) by (simp add: ReserveOrder_assign_status)
  have w1: "\<forall>r. req = ReqWithdrawOrder r
            \<longrightarrow> status_of (snd (serve flt ctx req s)) i = Some st
                \<or> (r = Some i
                    \<and> status_of (snd (serve flt ctx req s)) i = Some OrderStatusWithdrawn)"
    using withdraw_status_cases[OF assms(1), of flt ctx] by (simp add: serve_def)
  have w2: "\<forall>resp. req = ReqWithdrawOrder (Some i) \<and> fst (serve flt ctx req s) = Inr resp
            \<longrightarrow> status_of (snd (serve flt ctx req s)) i = Some OrderStatusWithdrawn"
  proof (intro allI impI)
    fix resp
    assume h: "req = ReqWithdrawOrder (Some i) \<and> fst (serve flt ctx req s) = Inr resp"
    then obtain r' where "fst (WithdrawOrder flt ctx (Some i) s) = Inr r'"
      by (cases "fst (WithdrawOrder flt ctx (Some i) s)") (auto simp: serve_def)
    from withdraw_status_success[OF assms(1) this] h
    show "status_of (snd (serve flt ctx req s)) i = Some OrderStatusWithdrawn"
      by (simp add: serve_def)
  qed
  have c1: "\<forall>b. req = ReqCompleteOrder b
            \<longrightarrow> status_of (snd (serve flt ctx req s)) i = Some st
                \<or> status_of (snd (serve flt ctx req s)) i
                   = Some (if b then OrderStatusDelivered else OrderStatusFailed)"
    using complete_status_cases[OF assms(1), of flt ctx] by (simp add: serve_def)
  have c2: "\<forall>b p d resp. req = ReqCompleteOrder b \<and> RequireDrone ctx = Inr p
              \<and> resolveDrone flt s (pName p) = Inr d \<and> AssignedJob d = Some i
              \<and> fst (serve flt ctx req s) = Inr resp
            \<longrightarrow> status_of (snd (serve flt ctx req s)) i
                = Some (if b then OrderStatusDelivered else OrderStatusFailed)"
  proof (intro allI impI)
    fix b p d resp
    assume h: "req = ReqCompleteOrder b \<and> RequireDrone ctx = Inr p
              \<and> resolveDrone flt s (pName p) = Inr d \<and> AssignedJob d = Some i
              \<and> fst (serve flt ctx req s) = Inr resp"
    then obtain r' where "fst (CompleteOrder flt ctx b s) = Inr r'"
      by (cases "fst (CompleteOrder flt ctx b s)") (auto simp: serve_def)
    from complete_status_success[OF assms(1) _ _ _ this, of p d] h
    show "status_of (snd (serve flt ctx req s)) i
          = Some (if b then OrderStatusDelivered else OrderStatusFailed)"
      by (simp add: serve_def)
  qed
  from a c w1 w2 c1 c2 show ?thesis by blast
qed

lemma resolve_d1_withdrawn:
  "resolveDrone no_faults demo_withdrawn ''d1''
   = Inr \<lparr>dID = 1, dName = ''d1'', SerialNumber = ''d1'', Lat = 1, Lng = 1, SpeedMPH = Fin 10,
          AssignedJob = Some 1, dStatus = DroneStatusFixed\<rparr>"
  by (simp add: resolveDrone_def db_query_def no_faults_def Drones_GetBySerial_def
      demo_withdrawn_def)

lemma complete_withdrawn_run:
  "serve no_faults (drone_ctx ''d1'') (ReqCompleteOrder True) demo_withdrawn
     = (Inr (RespOrder (Some \<lparr>Id = 1, Origin = (0, 0), Destination = (1, 1),
                              Status = Status_DELIVERED, ProtoSubmittedBy = 1,
                              PlacementDate = ''2024-01-01 10:00:00''\<rparr>)),
        demo_withdrawn
          \<lparr>orders := [demo_order 1 OrderStatusDelivered ''2024-01-01 10:00:00'' (Some ''1'')],
           drones := [\<lparr>dID = 1, dName = ''d1'', SerialNumber = ''d1'', Lat = 1, Lng = 1,
                        SpeedMPH = Fin 10, AssignedJob = None, dStatus = DroneStatusFixed\<rparr>]\<rparr>)"
proof -
  have nf: "\<And>c. no_faults c = False" by (simp add: no_faults_def)
  have g: "Orders_GetByID demo_withdrawn 1
           = Some (demo_order 1 OrderStatusWithdrawn ''2024-01-01 10:00:00'' (Some ''1''))"
    by (simp add: Orders_GetByID_def demo_withdrawn_def demo_order_def)
  have dest: "DestLat (demo_order 1 OrderStatusWithdrawn ''2024-01-01 10:00:00'' (Some ''1'')) = 1"
    "DestLng (demo_order 1 OrderStatusWithdrawn ''2024-01-01 10:00:00'' (Some ''1'')) = 1"
    "oID (demo_order 1 OrderStatusWithdrawn ''2024-01-01 10:00:00'' (Some ''1'')) = 1"
    by (simp_all add: demo_order_def)
  have near: "\<not> HaversineMiles 1 1 1 1 > FeetToMiles RadiusFeet"
    by (simp add: Haversine_same FeetToMiles_def RadiusFeet_def FeetPerMile_def float64_ops)
  show ?thesis
    apply (simp add: serve_def CompleteOrder_def RequireDrone_ctx resolve_d1_withdrawn g dest near
        db_query_def nf)
    apply (simp add: db_exec_def db_query_def nf Orders_GetByID_def Orders_UpdateStatus_def
        Drones_UnassignJob_def toProtoOrder_def toProtoStatus_def demo_withdrawn_def
        demo_order_def)
    done
qed

lemma withdraw_run:
  assumes "orders s = [demo_order 1 st ''2024-01-01 10:00:00'' (Some ''1'')]"
    and "users s = demo_users"
  shows "serve no_faults (enduser_ctx ''alice'') (ReqWithdrawOrder (Some 1)) s
         = (Inr (RespOrder (Some \<lparr>Id = 1, Origin = (0, 0), Destination = (1, 1),
                               Status = Status_WITHDRAWN, ProtoSubmittedBy = 1,
                               PlacementDate = ''2024-01-01 10:00:00''\<rparr>)),
            s\<lparr>orders := [demo_order 1 OrderStatusWithdrawn ''2024-01-01 10:00:00'' (Some ''1'')]\<rparr>)"
  using assms
  by (simp add: serve_def WithdrawOrder_def RequireEndUserOrAdmin_def RequirePrincipal_def
      resolveCurrentUser_def db_query_def db_exec_def no_faults_def enduser_ctx_def
      Users_GetByUsername_def Orders_GetByID_def Orders_Withdraw_def Orders_UpdateStatus_def
      toProtoOrder_def toProtoStatus_def demo_users_def demo_order_def)

lemma status_single:
  "orders s = [demo_order 1 st placed dp] \<Longrightarrow> status_of s 1 = Some st"
  by (simp add: status_of_def Orders_GetByID_def demo_order_def)


text \<open>
  Claim C3, as stated, fails: no handler reads the current status before it writes one. The
  submitter withdraws a delivered order; the drone still holding a withdrawn order, at its
  destination, completes it as delivered; and the status write of \<open>GrabOrder\<close> (line 137),
  issued for an order that was placed when the handler read it, makes the order en route
  after a withdrawal served in between.
\<close>

theorem terminal_status_overwritten:
  "status_of demo_done 1 = Some OrderStatusDelivered
   \<and> fst (serve no_faults (enduser_ctx ''alice'') (ReqWithdrawOrder (Some 1)) demo_done)
       = Inr (RespOrder (Some \<lparr>Id = 1, Origin = (0, 0), Destination = (1, 1),
                               Status = Status_WITHDRAWN, ProtoSubmittedBy = 1,
                               PlacementDate = ''2024-01-01 10:00:00''\<rparr>))
   \<and> status_of (snd (serve no_faults (enduser_ctx ''alice'') (ReqWithdrawOrder (Some 1)) demo_done)) 1
       = Some OrderStatusWithdrawn
   \<and> status_of demo_withdrawn 1 = Some OrderStatusWithdrawn
   \<and> fst (serve no_faults (drone_ctx ''d1'') (ReqCompleteOrder True) demo_withdrawn)
       = Inr (RespOrder (Some \<lparr>Id = 1, Origin = (0, 0), Destination = (1, 1),
                               Status = Status_DELIVERED, ProtoSubmittedBy = 1,
                               PlacementDate = ''2024-01-01 10:00:00''\<rparr>))
   \<and> status_of (snd (serve no_faults (drone_ctx ''d1'') (ReqCompleteOrder True) demo_withdrawn)) 1
       = Some OrderStatusDelivered
   \<and> status_of (snd (serve no_faults (enduser_ctx ''alice'') (ReqWithdrawOrder (Some 1)) demo_pickup)) 1
       = Some OrderStatusWithdrawn
   \<and> status_of
        (snd (db_exec no_faults At_UpdateOrderStatus (Orders_UpdateStatus 1 OrderStatusEnRoute)
               (snd (serve no_faults (enduser_ctx ''alice'') (ReqWithdrawOrder (Some 1))
                      demo_pickup)))) 1
       = Some OrderStatusEnRoute"
proof -
  have nf: "\<And>c. no_faults c = False" by (simp add: no_faults_def)
  have od: "orders demo_done = [demo_order 1 OrderStatusDelivered ''2024-01-01 10:00:00'' (Some ''1'')]"
    "users demo_done = demo_users" by (simp_all add: demo_done_def)
  have op: "orders demo_pickup = [demo_order 1 OrderStatusPlaced ''2024-01-01 10:00:00'' (Some ''1'')]"
    "users demo_pickup = demo_users" by (simp_all add: demo_pickup_def)
  have ow: "orders demo_withdrawn = [demo_order 1 OrderStatusWithdrawn ''2024-01-01 10:00:00'' (Some ''1'')]"
    by (simp add: demo_withdrawn_def)
  note w = withdraw_run[OF od]
  note p = withdraw_run[OF op]
  have e: "status_of
        (snd (db_exec no_faults At_UpdateOrderStatus (Orders_UpdateStatus 1 OrderStatusEnRoute)
               (snd (serve no_faults (enduser_ctx ''alice'') (ReqWithdrawOrder (Some 1))
                      demo_pickup)))) 1
       = Some OrderStatusEnRoute"
    unfolding p
    by (simp add: status_of_def Orders_GetByID_def db_exec_def nf Orders_UpdateStatus_def
        demo_order_def)
  show ?thesis
    unfolding w p complete_withdrawn_run
    using e[unfolded p] by (simp add: status_single od ow)
qed


theorem terminal_status_effects_witness:
  "status_of demo_done 1 = Some OrderStatusDelivered
   \<and> terminal OrderStatusDelivered
   \<and> status_of (snd (serve no_faults (drone_ctx ''d1'') ReqMarkBroken demo_done)) 1
       = Some OrderStatusDelivered
   \<and> status_of (snd (serve no_faults (enduser_ctx ''alice'') (ReqWithdrawOrder (Some 1))
                       demo_done)) 1 = Some OrderStatusWithdrawn
   \<and> status_of demo_withdrawn 1 = Some OrderStatusWithdrawn
   \<and> terminal OrderStatusWithdrawn
   \<and> resolveDrone no_faults demo_withdrawn ''d1''
       = Inr \<lparr>dID = 1, dName = ''d1'', SerialNumber = ''d1'', Lat = 1, Lng = 1, SpeedMPH = Fin 10,
              AssignedJob = Some 1, dStatus = DroneStatusFixed\<rparr>
   \<and> status_of (snd (serve no_faults (drone_ctx ''d1'') (ReqCompleteOrder True)
                       demo_withdrawn)) 1 = Some OrderStatusDelivered"
proof -
  let ?dr = "\<lparr>dID = 1, dName = ''d1'', SerialNumber = ''d1'', Lat = 1, Lng = 1, SpeedMPH = Fin 10,
              AssignedJob = Some 1, dStatus = DroneStatusFixed\<rparr>"
  have od: "orders demo_done = [demo_order 1 OrderStatusDelivered ''2024-01-01 10:00:00'' (Some ''1'')]"
    "users demo_done = demo_users" by (simp_all add: demo_done_def)
  have ow: "orders demo_withdrawn = [demo_order 1 OrderStatusWithdrawn ''2024-01-01 10:00:00'' (Some ''1'')]"
    by (simp add: demo_withdrawn_def)
  have a: "status_of demo_done 1 = Some OrderStatusDelivered" by (rule status_single[OF od(1)])
  have b: "terminal OrderStatusDelivered" by (simp add: terminal_def)
  note t = terminal_status_effects[OF a b]
  from t[of no_faults "drone_ctx ''d1''" ReqMarkBroken]
  have c: "status_of (snd (serve no_faults (drone_ctx ''d1'') ReqMarkBroken demo_done)) 1
       = Some OrderStatusDelivered" by simp
  have run: "fst (serve no_faults (enduser_ctx ''alice'') (ReqWithdrawOrder (Some 1)) demo_done)
       = Inr (RespOrder (Some \<lparr>Id = 1, Origin = (0, 0), Destination = (1, 1),
                               Status = Status_WITHDRAWN, ProtoSubmittedBy = 1,
                               PlacementDate = ''2024-01-01 10:00:00''\<rparr>))"
    by (simp add: withdraw_run[OF od])
  note w2 = t[of no_faults "enduser_ctx ''alice''" "ReqWithdrawOrder (Some 1)",
      THEN conjunct2, THEN conjunct2, THEN conjunct2, THEN conjunct2, THEN conjunct1, rule_format]
  from w2 run
  have d: "status_of (snd (serve no_faults (enduser_ctx ''alice'') (ReqWithdrawOrder (Some 1))
                       demo_done)) 1 = Some OrderStatusWithdrawn" by simp
  have a': "status_of demo_withdrawn 1 = Some OrderStatusWithdrawn" by (rule status_single[OF ow])
  have b': "terminal OrderStatusWithdrawn" by (simp add: terminal_def)
  have res: "resolveDrone no_faults demo_withdrawn (pName \<lparr>pName = ''d1'', pKind = ''drone''\<rparr>) = Inr ?dr"
    by (simp add: resolve_d1_withdrawn)
  have job: "AssignedJob ?dr = Some 1" by simp
  have run': "fst (serve no_faults (drone_ctx ''d1'') (ReqCompleteOrder True) demo_withdrawn)
     = Inr (RespOrder (Some \<lparr>Id = 1, Origin = (0, 0), Destination = (1, 1),
                              Status = Status_DELIVERED, ProtoSubmittedBy = 1,
                              PlacementDate = ''2024-01-01 10:00:00''\<rparr>))"
    by (simp add: complete_withdrawn_run)
  note c2 = terminal_status_effects[OF a' b', of no_faults "drone_ctx ''d1''" "ReqCompleteOrder True",
      THEN conjunct2, THEN conjunct2, THEN conjunct2, THEN conjunct2, THEN conjunct2,
      THEN conjunct2, rule_format]
  from c2[of True "\<lparr>pName = ''d1'', pKind = ''drone''\<rparr>" ?dr]
    RequireDrone_ctx[of "''d1''"] res job run'
  have e: "status_of (snd (serve no_faults (drone_ctx ''d1'') (ReqCompleteOrder True)
                       demo_withdrawn)) 1 = Some OrderStatusDelivered"
    by simp
  from a b c d a' b' resolve_d1_withdrawn e show ?thesis by (intro conjI)
qed

lemma serve_dc:
  assumes "drones_constraints s"
  shows "drones_constraints (snd (serve flt ctx req s))"
  using assms
  by (cases req)
     (simp_all add: serve_def ReserveOrder_dc GrabOrder_dc CompleteOrder_dc MarkBroken_dc
       Heartbeat_dc SetOrder_dc WithdrawOrder_dc UpdateOrderLocation_dc UpdateDroneStatus_dc)

lemma reachable_dc:
  assumes "reachable s0 s" and "drones_constraints s0"
  shows "drones_constraints s"
  using assms
  by (induction rule: reachable.induct) (simp_all add: serve_dc ReserveOrder_assign_dc)

lemma unique_at_most_one:
  assumes "unique_assigned_job ds"
  shows "length (filter (\<lambda>d. AssignedJob d = Some j) ds) \<le> 1"
  using assms
proof (induction ds)
  case Nil
  then show ?case by simp
next
  case (Cons a ds)
  have tl: "unique_assigned_job ds"
    using Cons.prems by (auto simp: unique_assigned_job_def map_filter_simps split: option.splits)
  show ?case
  proof (cases "AssignedJob a = Some j")
    case True
    then have "j \<notin> set (List.map_filter AssignedJob ds)"
      using Cons.prems by (simp add: unique_assigned_job_def map_filter_simps)
    then have "filter (\<lambda>d. AssignedJob d = Some j) ds = []"
      by (auto simp: jobs_mem filter_empty_conv)
    then show ?thesis using True by simp
  next
    case False
    then show ?thesis using Cons.IH[OF tl] by simp
  qed
qed

text \<open>
  Claim C2. From a store that meets the constraints of table \<^verbatim>\<open>drones\<close>, every reachable
  store meets them and no order id is held by more than one drone row; \<open>AssignJob\<close> on an
  existing drone row while a different row holds the order fails with a uniqueness violation
  and changes nothing; and the assignment step of \<open>ReserveOrder\<close> then returns Aborted,
  assign race, with the store unchanged.
\<close>

theorem one_drone_per_order:
  "(drones_constraints s0 \<and> reachable s0 s
      \<longrightarrow> drones_constraints s
          \<and> (\<forall>j. length (filter (\<lambda>d. AssignedJob d = Some j) (drones s)) \<le> 1))
   \<and> (list_ex (\<lambda>d. dID d = k) (drones s)
       \<and> list_ex (\<lambda>d. dID d \<noteq> k \<and> AssignedJob d = Some j) (drones s)
      \<longrightarrow> Drones_AssignJob k j s = Inl UniqueViolation
          \<and> db_exec flt At_AssignJob (Drones_AssignJob k j) s
              = (Some (if flt At_AssignJob then IOError else UniqueViolation), s))
   \<and> (list_ex (\<lambda>d. dID d = dID dr) (drones s)
       \<and> list_ex (\<lambda>d. dID d \<noteq> dID dr \<and> AssignedJob d = Some (oID ord)) (drones s)
      \<longrightarrow> ReserveOrder_assign flt dr ord s = (Inl (Aborted, ''assign race''), s))"
proof -
  have inv: "drones_constraints s0 \<and> reachable s0 s
      \<longrightarrow> drones_constraints s
          \<and> (\<forall>j. length (filter (\<lambda>d. AssignedJob d = Some j) (drones s)) \<le> 1)"
    using reachable_dc[of s0 s] unique_at_most_one[of "drones s"]
    by (auto simp: drones_constraints_def)
  have assign: "list_ex (\<lambda>d. dID d = k) (drones s)
       \<and> list_ex (\<lambda>d. dID d \<noteq> k \<and> AssignedJob d = Some j) (drones s)
      \<longrightarrow> Drones_AssignJob k j s = Inl UniqueViolation
          \<and> db_exec flt At_AssignJob (Drones_AssignJob k j) s
              = (Some (if flt At_AssignJob then IOError else UniqueViolation), s)"
    by (simp add: Drones_AssignJob_def db_exec_def)
  have race: "list_ex (\<lambda>d. dID d = dID dr) (drones s)
       \<and> list_ex (\<lambda>d. dID d \<noteq> dID dr \<and> AssignedJob d = Some (oID ord)) (drones s)
      \<longrightarrow> ReserveOrder_assign flt dr ord s = (Inl (Aborted, ''assign race''), s)"
    by (simp add: ReserveOrder_assign_def Drones_AssignJob_def db_exec_def)
  from inv assign race show ?thesis by blast
qed

lemma demo_reserved_eval:
  "demo_reserved =
     demo_store\<lparr>drones := [demo_drone 1 ''d1'' (Some 2), demo_drone 2 ''d2'' None,
                           demo_drone 3 ''d3'' None],
                orders := [demo_order 1 OrderStatusPlaced ''2024-01-01 10:00:00'' None,
                           demo_order 2 OrderStatusToPickUp ''2024-01-01 10:00:01'' (Some ''1''),
                           demo_order 3 OrderStatusPlaced ''2024-01-01 10:00:02'' (Some ''1'')]\<rparr>"
proof -
  have find: "FindNextAvailableForReservation demo_store 1
             = Some (demo_order 2 OrderStatusToPickUp ''2024-01-01 10:00:01'' None)"
    by (simp add: FindNextAvailableForReservation_def demo_store_def demo_order_def demo_drone_def
        left_join_drones_def where_clause_def path_clause_def order_by_key_def instr_def
        FormatInt_def dec_nat.simps digit_char_def)
  have req: "RequireDrone (drone_ctx ''d1'') = Inr \<lparr>pName = ''d1'', pKind = ''drone''\<rparr>"
    by (simp add: RequireDrone_def RequireKind_def RequirePrincipal_def drone_ctx_def ToLower_def)
  have res: "resolveDrone no_faults demo_store ''d1'' = Inr (demo_drone 1 ''d1'' None)"
    by (simp add: resolveDrone_def db_query_def no_faults_def Drones_GetBySerial_def
        demo_store_def demo_drone_def)
  have nf: "\<And>c. no_faults c = False" by (simp add: no_faults_def)
  have id1: "dID (demo_drone 1 ''d1'' None) = 1" "dStatus (demo_drone 1 ''d1'' None) = DroneStatusFixed"
    "AssignedJob (demo_drone 1 ''d1'' None) = None"
    by (simp_all add: demo_drone_def)
  have "snd (ReserveOrder no_faults (drone_ctx ''d1'') demo_store)
        = snd (ReserveOrder_assign no_faults (demo_drone 1 ''d1'' None)
                 (demo_order 2 OrderStatusToPickUp ''2024-01-01 10:00:01'' None) demo_store)"
    by (simp add: ReserveOrder_def req res id1 find db_query_def nf)
  also have "\<dots> = demo_store\<lparr>drones := [demo_drone 1 ''d1'' (Some 2), demo_drone 2 ''d2'' None,
                           demo_drone 3 ''d3'' None],
                orders := [demo_order 1 OrderStatusPlaced ''2024-01-01 10:00:00'' None,
                           demo_order 2 OrderStatusToPickUp ''2024-01-01 10:00:01'' (Some ''1''),
                           demo_order 3 OrderStatusPlaced ''2024-01-01 10:00:02'' (Some ''1'')]\<rparr>"
    by (simp add: ReserveOrder_assign_def db_exec_def no_faults_def Drones_AssignJob_def
        Orders_AppendDronePath_def demo_store_def demo_order_def demo_drone_def FormatInt_def
        dec_nat.simps digit_char_def)
  finally show ?thesis by (simp add: demo_reserved_def serve_def)
qed

theorem one_drone_per_order_witness:
  "drones_constraints demo_store
   \<and> reachable demo_store demo_reserved
   \<and> map AssignedJob (drones demo_reserved) = [Some 2, None, None]
   \<and> length (filter (\<lambda>d. AssignedJob d = Some 2) (drones demo_reserved)) \<le> 1
   \<and> Drones_AssignJob 2 2 demo_reserved = Inl UniqueViolation
   \<and> ReserveOrder_assign no_faults (demo_drone 2 ''d2'' None)
        (demo_order 2 OrderStatusToPickUp ''2024-01-01 10:00:01'' None) demo_reserved
       = (Inl (Aborted, ''assign race''), demo_reserved)"
proof -
  let ?ord = "demo_order 2 OrderStatusToPickUp ''2024-01-01 10:00:01'' None"
  let ?dr = "demo_drone 2 ''d2'' None"
  have dc: "drones_constraints demo_store"
    by (simp add: drones_constraints_def unique_assigned_job_def map_filter_simps demo_store_def
        demo_drone_def)
  have re: "reachable demo_store demo_reserved"
    unfolding demo_reserved_def by (rule reach_serve) (rule reach_init)
  have jobs: "map AssignedJob (drones demo_reserved) = [Some 2, None, None]"
    by (simp add: demo_reserved_eval demo_drone_def)
  have ex: "list_ex (\<lambda>d. dID d = 2) (drones demo_reserved)"
    and held: "list_ex (\<lambda>d. dID d \<noteq> 2 \<and> AssignedJob d = Some 2) (drones demo_reserved)"
    by (simp_all add: demo_reserved_eval demo_drone_def)
  have ids: "dID ?dr = 2" "oID ?ord = 2" by (simp_all add: demo_drone_def demo_order_def)
  note t = one_drone_per_order[of demo_store demo_reserved 2 2 no_faults ?dr ?ord]
  from t dc re have one: "length (filter (\<lambda>d. AssignedJob d = Some 2) (drones demo_reserved)) \<le> 1"
    by blast
  from t ex held have uv: "Drones_AssignJob 2 2 demo_reserved = Inl UniqueViolation" by blast
  from t ex held ids have race: "ReserveOrder_assign no_faults ?dr ?ord demo_reserved
       = (Inl (Aborted, ''assign race''), demo_reserved)" by simp
  from dc re jobs one uv race show ?thesis by blast
qed

end
